(* ===== verification/O4x_Prelude.thy ===== *)
theory O4x_Prelude
  imports Complex_Main "HOL-Library.Word" "HOL-Library.Log_Nat"
begin

text \<open>
  Shared vocabulary of the development: Go's fixed-width integers, nilable byte slices,
  the generic facts on lists and options that several components use, and the collections
  (\<open>sql_simps\<close>, \<open>keeps_inv\<close>) into which the component theories put the
  facts their proofs share.

  A Go string or byte slice is a \<open>string\<close> (a list of bytes); a slice that may be \<open>nil\<close> is a
  \<open>go_bytes\<close>, \<open>None\<close> being \<open>nil\<close>.  Go's \<open>int\<close>, \<open>int64\<close> and \<open>time.Duration\<close> (nanoseconds)
  are \<open>int\<close> values inside the signed 64-bit range, and arithmetic that can leave the range
  goes through \<open>wrap64\<close>, which is the two's-complement reading of a 64-bit word.
\<close>

named_theorems sql_simps \<open>equations of the SQL statement combinators\<close>
named_theorems keeps_inv \<open>preservation of invariants by the operations\<close>

type_synonym go_bytes = "string option"
type_synonym duration = int
type_synonym time = int

section \<open>Go integers\<close>

definition wrap64 :: "int \<Rightarrow> int" where
  "wrap64 x = (x + 2 ^ 63) mod 2 ^ 64 - 2 ^ 63"

definition in_int64 :: "int \<Rightarrow> bool" where
  "in_int64 x \<longleftrightarrow> - (2 ^ 63) \<le> x \<and> x < 2 ^ 63"

definition go_quot :: "int \<Rightarrow> int \<Rightarrow> int" where
  "go_quot a b = sgn a * sgn b * (\<bar>a\<bar> div \<bar>b\<bar>)"

definition go_shl1 :: "int \<Rightarrow> int" where
  "go_shl1 n = (if n < 0 \<or> 64 \<le> n then 0 else wrap64 (2 ^ nat n))"

abbreviation millisecond :: duration where "millisecond \<equiv> 1000000"

abbreviation second :: duration where "second \<equiv> 1000000000"

lemma wrap64_id [simp]: "in_int64 x \<Longrightarrow> wrap64 x = x"
  by (simp add: wrap64_def in_int64_def)

lemma in_int64_wrap64 [simp, intro]: "in_int64 (wrap64 x)"
  by (simp add: wrap64_def in_int64_def)

lemma wrap64_add: "wrap64 (wrap64 a + b) = wrap64 (a + b)" "wrap64 (a + wrap64 b) = wrap64 (a + b)"
  by (simp_all add: wrap64_def mod_simps algebra_simps)

lemma wrap64_eq_sint: "wrap64 x = sint (word_of_int x :: 64 word)"
  by (simp add: wrap64_def sint_uint signed_take_bit_eq_take_bit_shift
      take_bit_eq_mod uint_word_of_int mod_simps)

lemma in_int64I [intro]: "- (2 ^ 63) \<le> x \<Longrightarrow> x < 2 ^ 63 \<Longrightarrow> in_int64 x"
  by (simp add: in_int64_def)

lemma go_quot_nonneg: "0 \<le> a \<Longrightarrow> 0 < b \<Longrightarrow> go_quot a b = a div b"
  by (cases "a = 0") (simp_all add: go_quot_def)

section \<open>Lists and options\<close>

definition blen :: "go_bytes \<Rightarrow> nat" where
  "blen b = (case b of None \<Rightarrow> 0 | Some s \<Rightarrow> length s)"

lemma blen_simps [simp]: "blen None = 0" "blen (Some s) = length s"
  by (simp_all add: blen_def)

lemma find_Some_in_set: "find P xs = Some x \<Longrightarrow> x \<in> set xs \<and> P x"
  by (auto simp: find_Some_iff)

lemma find_append: "find P (xs @ ys) = (case find P xs of Some x \<Rightarrow> Some x | None \<Rightarrow> find P ys)"
  by (induction xs) auto

lemma find_snoc: "P x \<Longrightarrow> \<not> (\<exists>y \<in> set xs. P y) \<Longrightarrow> find P (xs @ [x]) = Some x"
  by (induction xs) auto

lemma find_map_fst_unique:
  "distinct (map f xs) \<Longrightarrow> x \<in> set xs \<Longrightarrow> find (\<lambda>y. f y = f x) xs = Some x"
proof (induction xs)
  case (Cons y ys)
  then show ?case by (cases "f y = f x") (auto simp: image_iff)
qed simp

lemma length_filter_le_1:
  "distinct (map f xs) \<Longrightarrow> length (filter (\<lambda>x. f x = k \<and> P x) xs) \<le> 1"
proof (induction xs)
  case (Cons x xs)
  show ?case
  proof (cases "f x = k")
    case True
    with Cons.prems have "filter (\<lambda>x. f x = k \<and> P x) xs = []"
      by (auto simp: filter_empty_conv) (metis imageI)
    then show ?thesis by simp
  next
    case False
    with Cons show ?thesis by simp
  qed
qed simp

text \<open>Decimal notation, as \<open>fmt\<close> prints a non-negative integer with \<open>%d\<close>.\<close>

fun itoa :: "nat \<Rightarrow> string" where
  "itoa n = (if n < 10 then [char_of (48 + n)] else itoa (n div 10) @ [char_of (48 + n mod 10)])"

declare itoa.simps [simp del]

end
