(* ===== verification/Go_Regexp.thy ===== *)
theory Go_Regexp
  imports O4x_Prelude "HOL-Library.Sublist"
begin

text \<open>
  The part of Go's \<open>regexp\<close> and \<open>unicode/utf8\<close> that \<open>src/core/errors.go\<close> and
  \<open>src/core/model.go\<close> use.  \<open>matches\<close> returns every way an expression can match at a
  position, in the order of Go's leftmost-first preference, so the match Go reports is the
  first of the list; \<open>replaceAll\<close> is \<open>ReplaceAllString\<close>.  Text is bytes: every class that
  the patterns negate is negated on ASCII characters only, so a multi-byte rune is taken
  whole by the loop over it.  Case folding adds the two non-ASCII runes (U+017F, U+212A)
  that Go folds to \<open>s\<close> and \<open>k\<close>.
\<close>

section \<open>Expressions and matching\<close>

datatype rx =
    REps
  | RClass "char \<Rightarrow> bool"
  | RSeq rx rx
  | RAlt rx rx
  | RStar rx
  | RGroup nat rx
  | RWordB

type_synonym mstate = "char option \<times> string \<times> (nat \<times> string) list"

definition is_word_char :: "char \<Rightarrow> bool" where
  "is_word_char c \<longleftrightarrow>
     (let n = (of_char c :: nat)
      in (48 \<le> n \<and> n \<le> 57) \<or> (65 \<le> n \<and> n \<le> 90) \<or> (97 \<le> n \<and> n \<le> 122) \<or> n = 95)"

definition word_at :: "char option \<Rightarrow> bool" where
  "word_at p = (case p of None \<Rightarrow> False | Some c \<Rightarrow> is_word_char c)"

definition next_char :: "string \<Rightarrow> char option" where
  "next_char s = (case s of [] \<Rightarrow> None | c # _ \<Rightarrow> Some c)"

definition rest_len :: "mstate \<Rightarrow> nat" where
  "rest_len st = length (fst (snd st))"

function matches :: "rx \<Rightarrow> mstate \<Rightarrow> mstate list" where
  "matches REps st = [st]"
| "matches (RClass P) (p, s, g) =
     (case s of [] \<Rightarrow> [] | c # cs \<Rightarrow> if P c then [(Some c, cs, g)] else [])"
| "matches (RSeq a b) st = concat (map (matches b) (matches a st))"
| "matches (RAlt a b) st = matches a st @ matches b st"
| "matches (RStar a) st =
     concat (map (\<lambda>st'. if rest_len st' < rest_len st then matches (RStar a) st' else [])
       (matches a st)) @ [st]"
| "matches (RGroup n a) (p, s, g) =
     map (\<lambda>(p', s', g'). (p', s', (n, take (length s - length s') s) # g'))
       (matches a (p, s, g))"
| "matches RWordB (p, s, g) = (if word_at p \<noteq> word_at (next_char s) then [(p, s, g)] else [])"
  by pat_completeness auto
termination
  by (relation "measures [\<lambda>(r, _). size r, \<lambda>(_, st). rest_len st]") auto

declare matches.simps(5) [simp del]

fun NumSubexp :: "rx \<Rightarrow> nat" where
  "NumSubexp (RSeq a b) = NumSubexp a + NumSubexp b"
| "NumSubexp (RAlt a b) = NumSubexp a + NumSubexp b"
| "NumSubexp (RStar a) = NumSubexp a"
| "NumSubexp (RGroup n a) = Suc (NumSubexp a)"
| "NumSubexp _ = 0"

definition group_text :: "(nat \<times> string) list \<Rightarrow> nat \<Rightarrow> string" where
  "group_text g n = (case map_of g n of None \<Rightarrow> [] | Some t \<Rightarrow> t)"

function replaceAll :: "rx \<Rightarrow> ((nat \<times> string) list \<Rightarrow> string) \<Rightarrow> char option \<Rightarrow> string \<Rightarrow> string" where
  "replaceAll r repl p s =
     (case matches r (p, s, []) of
        (p', s', g) # _ \<Rightarrow>
          if length s' < length s then repl g @ replaceAll r repl p' s'
          else repl g @ (case s of [] \<Rightarrow> [] | c # cs \<Rightarrow> c # replaceAll r repl (Some c) cs)
      | [] \<Rightarrow> (case s of [] \<Rightarrow> [] | c # cs \<Rightarrow> c # replaceAll r repl (Some c) cs))"
  by pat_completeness auto
termination
  by (relation "measure (\<lambda>(r, repl, p, s). length s)") auto

declare replaceAll.simps [simp del]

text \<open>\<open>min_len r\<close> bytes at least are consumed by every match of \<open>r\<close>.\<close>

fun min_len :: "rx \<Rightarrow> nat" where
  "min_len (RClass P) = 1"
| "min_len (RSeq a b) = min_len a + min_len b"
| "min_len (RAlt a b) = min (min_len a) (min_len b)"
| "min_len (RGroup n a) = min_len a"
| "min_len _ = 0"

section \<open>Building the patterns\<close>

definition cls :: "string \<Rightarrow> rx" where
  "cls cs = RClass (\<lambda>c. c \<in> set cs)"

definition ncls :: "string \<Rightarrow> rx" where
  "ncls cs = RClass (\<lambda>c. c \<notin> set cs)"

definition ropt :: "rx \<Rightarrow> rx" where
  "ropt r = RAlt r REps"

definition rplus :: "rx \<Rightarrow> rx" where
  "rplus r = RSeq r (RStar r)"

fun rtimes :: "nat \<Rightarrow> rx \<Rightarrow> rx" where
  "rtimes 0 r = REps"
| "rtimes (Suc n) r = RSeq r (rtimes n r)"

fun rseq :: "rx list \<Rightarrow> rx" where
  "rseq [] = REps"
| "rseq [r] = r"
| "rseq (r # rs) = RSeq r (rseq rs)"

fun ralt :: "rx list \<Rightarrow> rx" where
  "ralt [] = RClass (\<lambda>_. False)"
| "ralt [r] = r"
| "ralt (r # rs) = RAlt r (ralt rs)"

definition lit :: "string \<Rightarrow> rx" where
  "lit s = rseq (map (\<lambda>c. RClass (\<lambda>x. x = c)) s)"

definition upper_char :: "char \<Rightarrow> char" where
  "upper_char c = (let n = (of_char c :: nat) in if 97 \<le> n \<and> n \<le> 122 then char_of (n - 32) else c)"

definition ci_extra :: "char \<Rightarrow> rx list" where
  "ci_extra c =
     (if c = CHR ''s'' then [lit [char_of (0xC5 :: nat), char_of (0xBF :: nat)]]
      else if c = CHR ''k'' then [lit [char_of (0xE2 :: nat), char_of (0x84 :: nat), char_of (0xAA :: nat)]]
      else [])"

definition ci_char :: "char \<Rightarrow> rx" where
  "ci_char c = ralt (RClass (\<lambda>x. x = c \<or> x = upper_char c) # ci_extra c)"

definition ilit :: "string \<Rightarrow> rx" where
  "ilit s = rseq (map ci_char s)"

definition space_chars :: string where
  "space_chars = [CHR 0x09, CHR 0x0A, CHR 0x0C, CHR 0x0D, CHR '' '']"

definition alnum :: "char \<Rightarrow> bool" where
  "alnum c \<longleftrightarrow> is_word_char c \<and> c \<noteq> CHR ''_''"

definition tok_char :: rx where
  "tok_char = RClass (\<lambda>c. alnum c \<or> c = CHR ''_'' \<or> c = CHR ''-'')"

definition sep_opt :: rx where
  "sep_opt = ropt (cls ''_-'')"

section \<open>UTF-8\<close>

abbreviation byte_in :: "nat \<Rightarrow> nat \<Rightarrow> char \<Rightarrow> bool" where
  "byte_in lo hi c \<equiv> lo \<le> (of_char c :: nat) \<and> (of_char c :: nat) \<le> hi"

abbreviation cont_byte :: "char \<Rightarrow> bool" where
  "cont_byte \<equiv> byte_in 0x80 0xBF"

definition rune2 :: "char \<Rightarrow> char \<Rightarrow> bool" where
  "rune2 b0 b1 \<longleftrightarrow> byte_in 0xC2 0xDF b0 \<and> cont_byte b1"

definition rune3 :: "char \<Rightarrow> char \<Rightarrow> char \<Rightarrow> bool" where
  "rune3 b0 b1 b2 \<longleftrightarrow>
     (byte_in 0xE0 0xE0 b0 \<and> byte_in 0xA0 0xBF b1 \<or>
      (byte_in 0xE1 0xEC b0 \<or> byte_in 0xEE 0xEF b0) \<and> cont_byte b1 \<or>
      byte_in 0xED 0xED b0 \<and> byte_in 0x80 0x9F b1) \<and> cont_byte b2"

definition rune4 :: "char \<Rightarrow> char \<Rightarrow> char \<Rightarrow> char \<Rightarrow> bool" where
  "rune4 b0 b1 b2 b3 \<longleftrightarrow>
     (byte_in 0xF0 0xF0 b0 \<and> byte_in 0x90 0xBF b1 \<or>
      byte_in 0xF1 0xF3 b0 \<and> cont_byte b1 \<or>
      byte_in 0xF4 0xF4 b0 \<and> byte_in 0x80 0x8F b1) \<and> cont_byte b2 \<and> cont_byte b3"

text \<open>The length of the rune a byte string starts with; 0 when it starts with none.\<close>

definition rune_len :: "string \<Rightarrow> nat" where
  "rune_len s =
     (if 1 \<le> length s \<and> byte_in 0 0x7F (s ! 0) then 1
      else if 2 \<le> length s \<and> rune2 (s ! 0) (s ! 1) then 2
      else if 3 \<le> length s \<and> rune3 (s ! 0) (s ! 1) (s ! 2) then 3
      else if 4 \<le> length s \<and> rune4 (s ! 0) (s ! 1) (s ! 2) (s ! 3) then 4
      else 0)"

lemma rune_len_le: "rune_len s \<le> length s" "rune_len s \<le> 4"
  by (simp_all add: rune_len_def)

function ValidString :: "string \<Rightarrow> bool" where
  "ValidString s \<longleftrightarrow>
     (if s = [] then True else if rune_len s = 0 then False
      else ValidString (drop (rune_len s) s))"
  by pat_completeness auto
termination
  by (relation "measure length") auto

declare ValidString.simps [simp del]

section \<open>Facts\<close>

lemma matches_consume: "st' \<in> set (matches r st) \<Longrightarrow> rest_len st' + min_len r \<le> rest_len st"
proof (induction r st arbitrary: st' rule: matches.induct)
  case (1 st)
  then show ?case by simp
next
  case (2 P p s g)
  then show ?case by (cases s) (auto simp: rest_len_def split: if_splits)
next
  case (3 a b st)
  then obtain m where m: "m \<in> set (matches a st)" "st' \<in> set (matches b m)" by auto
  from "3.IH"(1)[OF m(1)] "3.IH"(2)[OF m] show ?case by simp
next
  case (4 a b st)
  then have "st' \<in> set (matches a st) \<or> st' \<in> set (matches b st)" by simp
  then show ?case using "4.IH"(1)[of st'] "4.IH"(2)[of st'] by auto
next
  case (5 a st)
  from "5.prems" consider "st' = st"
    | m where "m \<in> set (matches a st)" "rest_len m < rest_len st" "st' \<in> set (matches (RStar a) m)"
    by (auto simp: matches.simps(5)[of a st] split: if_splits)
  then show ?case
  proof cases
    case 2
    with "5.IH"(2)[of m st'] show ?thesis by simp
  qed simp
next
  case (6 n a p s g)
  then obtain m where m: "m \<in> set (matches a (p, s, g))" "rest_len st' = rest_len m"
    by (auto simp: rest_len_def)
  from "6.IH"[OF m(1)] m(2) show ?case by (simp add: rest_len_def)
next
  case (7 p s g)
  then show ?case by (simp split: if_splits)
qed

text \<open>A text shorter than every match of a pattern stays as it is.\<close>

lemma matches_short: "length s < min_len r \<Longrightarrow> matches r (p, s, g) = []"
  using matches_consume[of "hd (matches r (p, s, g))" r "(p, s, g)"]
  by (cases "matches r (p, s, g)") (auto simp: rest_len_def)

lemma replaceAll_short: "length s < min_len r \<Longrightarrow> replaceAll r repl p s = s"
  by (induction s arbitrary: p) (subst replaceAll.simps, simp add: matches_short)+

lemma replaceAll_no_match:
  assumes "\<And>q t. suffix t s \<Longrightarrow> matches r (q, t, []) = []"
  shows "replaceAll r repl p s = s"
  using assms
proof (induction s arbitrary: p)
  case Nil
  then show ?case by (simp add: replaceAll.simps)
next
  case (Cons c cs)
  have "replaceAll r repl (Some c) cs = cs"
    by (rule Cons.IH) (simp add: Cons.prems suffix_ConsI)
  with Cons.prems[of "c # cs" p] show ?case by (simp add: replaceAll.simps)
qed

lemma rune_len_take: "rune_len s \<le> n \<Longrightarrow> rune_len s \<noteq> 0 \<Longrightarrow> rune_len (take n s) = rune_len s"
  by (simp add: rune_len_def split: if_splits)

lemma ValidString_Nil [simp]: "ValidString []"
  by (simp add: ValidString.simps)

lemma ValidString_step:
  "s \<noteq> [] \<Longrightarrow> ValidString s \<longleftrightarrow> rune_len s \<noteq> 0 \<and> ValidString (drop (rune_len s) s)"
  by (subst ValidString.simps) simp

text \<open>A valid string cut anywhere is valid again after giving up at most three bytes.\<close>

lemma ValidString_cut:
  assumes "ValidString s" "n \<le> length s"
  shows "\<exists>k \<le> 3. k \<le> n \<and> ValidString (take (n - k) s)"
  using assms
proof (induction s arbitrary: n rule: ValidString.induct)
  case (1 s)
  let ?l = "rune_len s"
  show ?case
  proof (cases "n < ?l \<or> s = []")
    case True
    then have "n \<le> 3" using "1.prems"(2) rune_len_le(2)[of s] by auto
    then show ?thesis by (intro exI[of _ n]) simp
  next
    case False
    then have s: "s \<noteq> []" "?l \<le> n" by auto
    with "1.prems"(1) have l: "?l \<noteq> 0" "ValidString (drop ?l s)" by (simp_all add: ValidString_step)
    have "n - ?l \<le> length (drop ?l s)" using "1.prems"(2) by simp
    with "1.IH"[OF s(1) l(1) l(2)] obtain k
      where k: "k \<le> 3" "k \<le> n - ?l" "ValidString (take (n - ?l - k) (drop ?l s))" by blast
    have le: "?l \<le> n - k" using k(2) s(2) by simp
    from rune_len_take[OF le l(1)] have "rune_len (take (n - k) s) = ?l" .
    moreover have "drop ?l (take (n - k) s) = take (n - ?l - k) (drop ?l s)"
      by (simp add: drop_take add.commute)
    ultimately have "ValidString (take (n - k) s)"
      using k(3) l(1) by (metis ValidString_Nil ValidString_step)
    with k(1,2) show ?thesis by (intro exI[of _ k]) simp
  qed
qed

end
