(* ===== verification/Go_Errors.thy ===== *)
theory Go_Errors
  imports Go_Regexp
begin

text \<open>
  \<open>src/core/errors.go\<close>: the error values of the library, the retry classification of an
  error chain, and the text that is stored with a failed message.  A Go error value is a
  \<open>goerr\<close>; a nilable \<open>error\<close> is a \<open>goerr option\<close>.  \<open>ErrorString\<close>, \<open>PgError\<close> and
  \<open>RetryableErr\<close> stand for errors made outside the library: an opaque one, a PostgreSQL
  one with its SQLSTATE, and an application type that implements \<open>RetryableError\<close>.
\<close>

section \<open>Error values\<close>

datatype sentinel =
    ErrNoMessage | ErrAlreadyExists | ErrPublishFailed | ErrMaxRetriesExceeded
  | ErrInvalidStatus | ErrNotFound | ErrAlreadyRunning | ErrInvalidTableName
  | ErrPayloadTooLarge | ErrInvalidConfig
  | ErrUnknownEventType
  | PgxErrNoRows | GormErrRecordNotFound

datatype goerr =
    Sentinel sentinel
  | ErrorString string
  | PgError string string
  | WrapError string goerr string
  | PermanentError "goerr option"
  | TransientError "goerr option"
  | PublishError string string "goerr option"
  | RetryableErr bool string "goerr option"

definition NewPermanentError :: "goerr option \<Rightarrow> goerr" where
  "NewPermanentError cause = PermanentError cause"

definition NewTransientError :: "goerr option \<Rightarrow> goerr" where
  "NewTransientError cause = TransientError cause"

fun sentinel_text :: "sentinel \<Rightarrow> string" where
  "sentinel_text ErrNoMessage = ''no message available''"
| "sentinel_text ErrAlreadyExists = ''message already exists''"
| "sentinel_text ErrPublishFailed = ''publish failed''"
| "sentinel_text ErrMaxRetriesExceeded = ''max retries exceeded''"
| "sentinel_text ErrInvalidStatus = ''invalid status''"
| "sentinel_text ErrNotFound = ''not found''"
| "sentinel_text ErrAlreadyRunning = ''dispatcher already running''"
| "sentinel_text ErrInvalidTableName =
     ''invalid table name: must contain only alphanumeric characters and underscores''"
| "sentinel_text ErrPayloadTooLarge = ''payload too large''"
| "sentinel_text ErrInvalidConfig = ''invalid configuration''"
| "sentinel_text ErrUnknownEventType = ''unknown event_type''"
| "sentinel_text PgxErrNoRows = ''no rows in result set''"
| "sentinel_text GormErrRecordNotFound = ''record not found''"

fun Error_text :: "goerr \<Rightarrow> string" where
  "Error_text (Sentinel s) = sentinel_text s"
| "Error_text (ErrorString t) = t"
| "Error_text (PgError code t) = t"
| "Error_text (WrapError pre e post) = pre @ Error_text e @ post"
| "Error_text (PermanentError c) =
     ''permanent error: '' @ (case c of None \<Rightarrow> ''<nil>'' | Some e \<Rightarrow> Error_text e)"
| "Error_text (TransientError c) =
     ''transient error: '' @ (case c of None \<Rightarrow> ''<nil>'' | Some e \<Rightarrow> Error_text e)"
| "Error_text (PublishError i t c) =
     ''publish error for outbox '' @ i @ '' event_type '' @ t @ '': '' @
     (case c of None \<Rightarrow> ''<nil>'' | Some e \<Rightarrow> Error_text e)"
| "Error_text (RetryableErr b t c) = t"

fun Unwrap :: "goerr \<Rightarrow> goerr option" where
  "Unwrap (WrapError pre e post) = Some e"
| "Unwrap (PermanentError c) = c"
| "Unwrap (TransientError c) = c"
| "Unwrap (PublishError i t c) = c"
| "Unwrap (RetryableErr b t c) = c"
| "Unwrap _ = None"

lemma Unwrap_size: "Unwrap e = Some c \<Longrightarrow> size c < size e"
  by (cases e) auto

function errors_Is :: "goerr \<Rightarrow> sentinel \<Rightarrow> bool" where
  "errors_Is e t =
     (if e = Sentinel t then True
      else (case Unwrap e of None \<Rightarrow> False | Some c \<Rightarrow> errors_Is c t))"
  by pat_completeness auto
termination
  by (relation "measure (\<lambda>(e, t). size e)") (auto dest: Unwrap_size)

declare errors_Is.simps [simp del]

function errors_As_PgError :: "goerr \<Rightarrow> string option" where
  "errors_As_PgError e =
     (case e of PgError code t \<Rightarrow> Some code
      | _ \<Rightarrow> (case Unwrap e of None \<Rightarrow> None | Some c \<Rightarrow> errors_As_PgError c))"
  by pat_completeness auto
termination
  by (relation "measure size") (auto split: goerr.splits)

declare errors_As_PgError.simps [simp del]

fun implements_RetryableError :: "goerr \<Rightarrow> bool" where
  "implements_RetryableError (PermanentError c) = True"
| "implements_RetryableError (TransientError c) = True"
| "implements_RetryableError (PublishError i t c) = True"
| "implements_RetryableError (RetryableErr b t c) = True"
| "implements_RetryableError _ = False"

function errors_As_Retryable :: "goerr \<Rightarrow> goerr option" where
  "errors_As_Retryable e =
     (if implements_RetryableError e then Some e
      else (case Unwrap e of None \<Rightarrow> None | Some c \<Rightarrow> errors_As_Retryable c))"
  by pat_completeness auto
termination
  by (relation "measure size") (auto dest: Unwrap_size)

declare errors_As_Retryable.simps [simp del]

lemma errors_As_Retryable_size: "errors_As_Retryable e = Some r \<Longrightarrow> size r \<le> size e"
proof (induction e rule: errors_As_Retryable.induct)
  case (1 e)
  then show ?case
    by (subst (asm) errors_As_Retryable.simps)
      (auto split: if_splits option.splits dest!: Unwrap_size)
qed

text \<open>\<open>IsRetryable\<close> and the \<open>IsRetryable()\<close> methods it dispatches to.\<close>

function IsRetryable :: "goerr option \<Rightarrow> bool"
  and IsRetryable_method :: "goerr \<Rightarrow> bool" where
  "IsRetryable err =
     (case err of
        None \<Rightarrow> False
      | Some e \<Rightarrow>
          (case errors_As_Retryable e of
             Some retryable \<Rightarrow> IsRetryable_method retryable
           | None \<Rightarrow> True))"
| "IsRetryable_method r =
     (case r of
        PermanentError c \<Rightarrow> False
      | TransientError c \<Rightarrow> True
      | PublishError i t c \<Rightarrow> IsRetryable c
      | RetryableErr b t c \<Rightarrow> b
      | _ \<Rightarrow> True)"
  by pat_completeness auto
termination
  by (relation "measure (case_sum (\<lambda>e. case e of None \<Rightarrow> 0 | Some x \<Rightarrow> 2 * size x + 1)
        (\<lambda>r. 2 * size r))")
    (auto dest: errors_As_Retryable_size split: option.splits)

declare IsRetryable.simps [simp del] IsRetryable_method.simps [simp del]

section \<open>The stored error text\<close>

definition MaxErrorMessageLength :: nat where
  "MaxErrorMessageLength = 4000"

definition quote_opt :: rx where
  "quote_opt = ropt (cls [CHR 0x27, CHR 0x22])"

definition key_sep :: rx where
  "key_sep = rseq [RStar (cls space_chars), cls '':='', RStar (cls space_chars), quote_opt]"

definition sensitivePatterns :: "rx list" where
  "sensitivePatterns =
    [rseq [RGroup 1 (ralt
        [rseq [ilit ''api'', sep_opt, ilit ''key''], rseq [ilit ''secret'', sep_opt, ilit ''key''],
         ilit ''password'', ilit ''token'', rseq [ilit ''auth'', sep_opt, ilit ''token''],
         rseq [ilit ''access'', sep_opt, ilit ''token''], ilit ''bearer'']),
       key_sep, RGroup 2 (rplus (ncls (space_chars @ [CHR 0x27, CHR 0x22, CHR '','', CHR ''}''])))],
     rseq [RGroup 1 (ralt
        [rseq [ilit ''aws'', sep_opt, ilit ''secret'', sep_opt, ilit ''access'', sep_opt, ilit ''key''],
         rseq [ilit ''secret'', sep_opt, ilit ''access'', sep_opt, ilit ''key'']]),
       key_sep, RGroup 2 (rtimes 40
         (ralt (RClass (\<lambda>c. alnum c \<or> c \<in> set ''/+='') # ci_extra CHR ''s'' @ ci_extra CHR ''k'')))],
     rseq [RWordB, RGroup 1 (rseq
        [lit ''eyJ'', rplus tok_char, lit ''.eyJ'', rplus tok_char, lit ''.'', rplus tok_char])],
     rseq [RGroup 1 (ralt [ilit ''postgres'', ilit ''mysql'', ilit ''mongodb'']),
       lit ''://'', RGroup 2 (rplus (ncls '':'')), lit '':'', RGroup 3 (rplus (ncls ''@'')), lit ''@''],
     rseq [ilit ''authorization:'', RStar (cls space_chars), ilit ''bearer'',
       rplus (cls space_chars), RGroup 1 (rplus (ncls space_chars))]]"

definition redact :: "rx \<Rightarrow> string \<Rightarrow> string" where
  "redact pattern result =
     (if NumSubexp pattern = 2
      then replaceAll pattern (\<lambda>g. group_text g 1 @ ''=***REDACTED***'') None result
      else replaceAll pattern (\<lambda>g. ''***REDACTED***'') None result)"

definition sanitizeSensitiveInfo :: "string \<Rightarrow> string" where
  "sanitizeSensitiveInfo msg = fold redact sensitivePatterns msg"

function trim_to_valid :: "string \<Rightarrow> string" where
  "trim_to_valid t =
     (if t \<noteq> [] \<and> \<not> ValidString t then trim_to_valid (take (length t - 1) t) else t)"
  by pat_completeness auto
termination
  by (relation "measure length") auto

declare trim_to_valid.simps [simp del]

definition truncated_suffix :: string where
  "truncated_suffix = ''... (truncated)''"

definition TruncateErrorMessage :: "string \<Rightarrow> string" where
  "TruncateErrorMessage msg0 =
     (let msg = sanitizeSensitiveInfo msg0
      in if length msg \<le> MaxErrorMessageLength then msg
         else trim_to_valid (take (MaxErrorMessageLength - length truncated_suffix) msg)
              @ truncated_suffix)"

section \<open>Retry classification\<close>

lemma errors_As_Retryable_eqs [simp]:
  "errors_As_Retryable (Sentinel n) = None"
  "errors_As_Retryable (ErrorString t) = None"
  "errors_As_Retryable (PgError c t) = None"
  "errors_As_Retryable (WrapError a e b) = errors_As_Retryable e"
  "errors_As_Retryable (PermanentError x) = Some (PermanentError x)"
  "errors_As_Retryable (TransientError x) = Some (TransientError x)"
  "errors_As_Retryable (PublishError i t x) = Some (PublishError i t x)"
  "errors_As_Retryable (RetryableErr r t x) = Some (RetryableErr r t x)"
  by (subst errors_As_Retryable.simps, simp)+

lemma IsRetryable_eqs [simp]:
  "\<not> IsRetryable None"
  "IsRetryable (Some (Sentinel n))"
  "IsRetryable (Some (ErrorString t))"
  "IsRetryable (Some (PgError c t))"
  "IsRetryable (Some (WrapError a e b)) = IsRetryable (Some e)"
  "\<not> IsRetryable (Some (PermanentError x))"
  "IsRetryable (Some (TransientError x))"
  "IsRetryable (Some (PublishError i t x)) = IsRetryable x"
  "IsRetryable (Some (RetryableErr r t x)) = r"
  by (simp_all add: IsRetryable.simps IsRetryable_method.simps)

lemma errors_Is_eqs [simp]:
  "errors_Is (Sentinel n) t \<longleftrightarrow> n = t"
  "\<not> errors_Is (ErrorString m) t"
  "\<not> errors_Is (PgError c m) t"
  "errors_Is (WrapError a e b) t = errors_Is e t"
  "errors_Is (PermanentError x) t = (case x of None \<Rightarrow> False | Some e \<Rightarrow> errors_Is e t)"
  "errors_Is (TransientError x) t = (case x of None \<Rightarrow> False | Some e \<Rightarrow> errors_Is e t)"
  "errors_Is (PublishError i ty x) t = (case x of None \<Rightarrow> False | Some e \<Rightarrow> errors_Is e t)"
  "errors_Is (RetryableErr r m x) t = (case x of None \<Rightarrow> False | Some e \<Rightarrow> errors_Is e t)"
  by (subst errors_Is.simps, simp)+

lemma errors_As_PgError_eqs [simp]:
  "errors_As_PgError (Sentinel n) = None"
  "errors_As_PgError (ErrorString m) = None"
  "errors_As_PgError (PgError c m) = Some c"
  "errors_As_PgError (WrapError a e b) = errors_As_PgError e"
  by (subst errors_As_PgError.simps, simp)+

text \<open>
  The reference reading of the classification: walk the chain outwards-in and let the first
  error that decides (a permanent, a transient, an application one, or a \<open>PublishError\<close>
  without a cause) speak; an undecided chain is retryable.
\<close>

function error_chain :: "goerr \<Rightarrow> goerr list" where
  "error_chain e = e # (case Unwrap e of None \<Rightarrow> [] | Some c \<Rightarrow> error_chain c)"
  by pat_completeness auto
termination
  by (relation "measure size") (auto dest: Unwrap_size)

declare error_chain.simps [simp del]

lemma error_chain_eqs [simp]:
  "error_chain (Sentinel n) = [Sentinel n]"
  "error_chain (ErrorString t) = [ErrorString t]"
  "error_chain (PgError c t) = [PgError c t]"
  "error_chain (WrapError a e b) = WrapError a e b # error_chain e"
  "error_chain (PermanentError x) =
     PermanentError x # (case x of None \<Rightarrow> [] | Some e \<Rightarrow> error_chain e)"
  "error_chain (TransientError x) =
     TransientError x # (case x of None \<Rightarrow> [] | Some e \<Rightarrow> error_chain e)"
  "error_chain (PublishError i t x) =
     PublishError i t x # (case x of None \<Rightarrow> [] | Some e \<Rightarrow> error_chain e)"
  "error_chain (RetryableErr r t x) =
     RetryableErr r t x # (case x of None \<Rightarrow> [] | Some e \<Rightarrow> error_chain e)"
  by (subst error_chain.simps, simp)+

fun decides :: "goerr \<Rightarrow> bool" where
  "decides (PermanentError c) = True"
| "decides (TransientError c) = True"
| "decides (RetryableErr b t c) = True"
| "decides (PublishError i t None) = True"
| "decides _ = False"

fun verdict :: "goerr \<Rightarrow> bool" where
  "verdict (TransientError c) = True"
| "verdict (RetryableErr b t c) = b"
| "verdict _ = False"

text \<open>
  C31: an error is retried unless the first deciding error of its unwrap chain forbids it:
  wrapping with \<open>%w\<close> and \<open>PublishError\<close> are transparent, an undecided chain is retryable.
\<close>

theorem IsRetryable_first_decider:
  "IsRetryable (Some e) =
     (case find decides (error_chain e) of None \<Rightarrow> True | Some d \<Rightarrow> verdict d)"
proof (induction e rule: error_chain.induct)
  case (1 e)
  show ?case
  proof (cases e)
    case (WrapError a c b)
    with 1 show ?thesis by simp
  next
    case (PublishError i t c)
    with 1 show ?thesis by (cases c) simp_all
  qed simp_all
qed

section \<open>Truncation\<close>

lemma trim_to_valid_take: "\<exists>k. trim_to_valid t = take k t"
proof (induction t rule: trim_to_valid.induct)
  case (1 t)
  show ?case
  proof (cases "t \<noteq> [] \<and> \<not> ValidString t")
    case True
    with 1 show ?thesis by (subst trim_to_valid.simps) (auto simp: take_take)
  next
    case False
    then have "trim_to_valid t = take (length t) t"
      by (subst trim_to_valid.simps) auto
    then show ?thesis by blast
  qed
qed

lemma length_trim_to_valid: "length (trim_to_valid t) \<le> length t"
  using trim_to_valid_take[of t] by auto

lemma ValidString_trim: "ValidString (trim_to_valid t)"
proof (induction t rule: trim_to_valid.induct)
  case (1 t)
  show ?case
  proof (cases "t \<noteq> [] \<and> \<not> ValidString t")
    case True
    with 1 show ?thesis by (subst trim_to_valid.simps) simp
  next
    case False
    then show ?thesis by (subst trim_to_valid.simps) auto
  qed
qed

text \<open>The loop stops at the longest valid prefix.\<close>

lemma trim_to_valid_longest:
  "ValidString (take j t) \<Longrightarrow> j \<le> length t \<Longrightarrow> j \<le> length (trim_to_valid t)"
proof (induction t rule: trim_to_valid.induct)
  case (1 t)
  show ?case
  proof (cases "t \<noteq> [] \<and> \<not> ValidString t")
    case True
    with "1.prems" have j: "j \<le> length t - 1" by (cases "j = length t") auto
    then have "take j (take (length t - 1) t) = take j t" by (simp add: min_def)
    with "1.IH"[OF True] "1.prems" j True show ?thesis by (subst trim_to_valid.simps) simp
  next
    case False
    with "1.prems" show ?thesis by (subst trim_to_valid.simps) auto
  qed
qed

text \<open>No pattern matches fewer than seven bytes, so shorter texts are stored as they are.\<close>

lemma sensitivePatterns_min_len: "list_all (\<lambda>r. 7 \<le> min_len r) sensitivePatterns"
  by (simp add: sensitivePatterns_def lit_def ilit_def ci_char_def ci_extra_def key_sep_def quote_opt_def
      sep_opt_def rplus_def cls_def ncls_def tok_char_def ropt_def numeral_eq_Suc)

lemma TruncateErrorMessage_short:
  assumes "length s < 7"
  shows "TruncateErrorMessage s = s"
proof -
  have "fold redact rs s = s" if "list_all (\<lambda>r. 7 \<le> min_len r) rs" for rs
    using that assms by (induction rs) (auto simp: redact_def replaceAll_short)
  from this[OF sensitivePatterns_min_len] assms show ?thesis
    by (simp add: TruncateErrorMessage_def sanitizeSensitiveInfo_def MaxErrorMessageLength_def)
qed

text \<open>
  C32: the stored error text never exceeds \<open>MaxErrorMessageLength\<close> (4000) bytes; a redacted
  message that fits is stored as it is, a longer one as a valid UTF-8 prefix followed by the
  truncation mark, and a message that was valid UTF-8 loses at most three bytes to the
  character boundary.
\<close>

theorem TruncateErrorMessage_correct:
  "length (TruncateErrorMessage msg) \<le> MaxErrorMessageLength \<and>
   (if length (sanitizeSensitiveInfo msg) \<le> MaxErrorMessageLength
    then TruncateErrorMessage msg = sanitizeSensitiveInfo msg
    else \<exists>k. TruncateErrorMessage msg = take k (sanitizeSensitiveInfo msg) @ truncated_suffix \<and>
           ValidString (take k (sanitizeSensitiveInfo msg)) \<and>
           k \<in> (if ValidString (sanitizeSensitiveInfo msg) then {3982..3985} else {0..3985}))"
proof (cases "length (sanitizeSensitiveInfo msg) \<le> MaxErrorMessageLength")
  case True
  then show ?thesis by (simp add: TruncateErrorMessage_def Let_def)
next
  case False
  let ?s = "sanitizeSensitiveInfo msg" and ?n = "MaxErrorMessageLength - length truncated_suffix"
  let ?t = "trim_to_valid (take ?n ?s)"
  have n: "?n = 3985" by (simp add: MaxErrorMessageLength_def truncated_suffix_def)
  have trunc: "TruncateErrorMessage msg = ?t @ truncated_suffix"
    using False by (simp add: TruncateErrorMessage_def Let_def)
  have len: "length ?t \<le> 3985" using length_trim_to_valid[of "take ?n ?s"] n by simp
  obtain k0 where "?t = take k0 (take ?n ?s)" using trim_to_valid_take by blast
  then have take: "?t = take (length ?t) ?s" using n by (auto simp: min_def)
  have "3982 \<le> length ?t" if "ValidString ?s"
  proof -
    from ValidString_cut[OF that, of 3985] False obtain k
      where "k \<le> 3" "ValidString (take (3985 - k) ?s)" by (auto simp: MaxErrorMessageLength_def)
    then have "3985 - k \<le> length ?t"
      using trim_to_valid_longest[of "3985 - k" "take ?n ?s"] n False
      by (simp add: MaxErrorMessageLength_def min_def)
    with \<open>k \<le> 3\<close> show ?thesis by simp
  qed
  moreover have "ValidString (take (length ?t) ?s)" using ValidString_trim take by metis
  ultimately show ?thesis
    using False trunc take len
    by (auto simp: MaxErrorMessageLength_def truncated_suffix_def intro!: exI[of _ "length ?t"])
qed

end
