(* ===== verification/Outbox_Model.thy ===== *)
theory Outbox_Model
  imports Go_Errors
begin

text \<open>
  \<open>src/core/model.go\<close>: the outbox message, its five states, the retry predicates the
  dispatchers decide with, the reference back-off computation and the check of table names.
  The three \<open>AttemptCount\<close> predicates and the back-off keep Go's 64-bit arithmetic; float64
  values are rationals rounded to 53 significant bits after each operation.
\<close>

section \<open>Messages\<close>

datatype OutboxStatus =
    OutboxStatusEnqueued | OutboxStatusPublishing | OutboxStatusPublished
  | OutboxStatusFailed | OutboxStatusDead

record Outbox =
  ID :: string
  EventType :: string
  Payload :: go_bytes
  Metadata :: go_bytes
  IdempotencyKey :: string
  Status :: OutboxStatus
  ErrorMessage :: "string option"
  AttemptCount :: int
  MaxAttempts :: int
  NextRetryAt :: "time option"
  CreatedAt :: time
  UpdatedAt :: time

record OutboxInsertParams =
  p_EventType :: string
  p_Payload :: go_bytes
  p_Metadata :: go_bytes
  p_IdempotencyKey :: string
  p_MaxAttempts :: int

definition CanRetry :: "Outbox \<Rightarrow> bool" where
  "CanRetry o' \<longleftrightarrow> AttemptCount o' < MaxAttempts o'"

definition ShouldMarkDead :: "Outbox \<Rightarrow> bool" where
  "ShouldMarkDead o' \<longleftrightarrow> AttemptCount o' \<ge> MaxAttempts o'"

definition WillExceedMaxAttemptsAfterFailure :: "Outbox \<Rightarrow> bool" where
  "WillExceedMaxAttemptsAfterFailure o' \<longleftrightarrow> wrap64 (AttemptCount o' + 1) \<ge> MaxAttempts o'"

section \<open>Back-off\<close>

definition ilog2 :: "rat \<Rightarrow> int" where
  "ilog2 x =
     (let (a, b) = quotient_of x; k = bitlen a - bitlen b
      in if 2 powi k \<le> x then k else k - 1)"

definition round_even :: "rat \<Rightarrow> int" where
  "round_even y =
     (let f = \<lfloor>y\<rfloor>; d = y - of_int f
      in if d < 1 / 2 then f else if d > 1 / 2 then f + 1 else if even f then f else f + 1)"

definition float64 :: "rat \<Rightarrow> rat" where
  "float64 x =
     (if x = 0 then 0
      else let e = ilog2 \<bar>x\<bar> - 52 in of_int (round_even (x / 2 powi e)) * 2 powi e)"

definition to_int64 :: "rat \<Rightarrow> int" where
  "to_int64 x = (if x < 0 then \<lceil>x\<rceil> else \<lfloor>x\<rfloor>)"

definition CalculateNextRetryAt ::
  "time \<Rightarrow> int \<Rightarrow> duration \<Rightarrow> duration \<Rightarrow> rat \<Rightarrow> time" where
  "CalculateNextRetryAt now attemptCount baseInterval maxInterval jitter =
     (let multiplier = go_shl1 attemptCount;
          backoff = wrap64 (baseInterval * multiplier);
          backoff = (if backoff > maxInterval then maxInterval else backoff);
          backoff = to_int64 (float64 (float64 (of_int backoff) * jitter))
      in now + backoff)"

section \<open>Table names\<close>

definition ident_start :: "char \<Rightarrow> bool" where
  "ident_start c \<longleftrightarrow> is_word_char c \<and> \<not> byte_in 48 57 c"

definition ident_rx :: rx where
  "ident_rx = RSeq (RClass ident_start) (RStar (RClass is_word_char))"

definition validTableNamePattern :: rx where
  "validTableNamePattern = RSeq ident_rx (ropt (RGroup 1 (RSeq (lit ''.'') ident_rx)))"

definition MatchString_whole :: "rx \<Rightarrow> string \<Rightarrow> bool" where
  "MatchString_whole r s = list_ex (\<lambda>st. rest_len st = 0) (matches r (None, s, []))"

definition ValidateTableName :: "string \<Rightarrow> goerr option" where
  "ValidateTableName name =
     (if name = [] \<or> \<not> MatchString_whole validTableNamePattern name
      then Some (Sentinel ErrInvalidTableName) else None)"

section \<open>Facts\<close>

lemma CanRetry_iff: "CanRetry m \<longleftrightarrow> \<not> ShouldMarkDead m"
  by (auto simp: CanRetry_def ShouldMarkDead_def)

lemma WillExceed_no_wrap:
  "in_int64 (AttemptCount m + 1) \<Longrightarrow>
   WillExceedMaxAttemptsAfterFailure m \<longleftrightarrow> MaxAttempts m \<le> AttemptCount m + 1"
  by (simp add: WillExceedMaxAttemptsAfterFailure_def)

definition ident :: "string \<Rightarrow> bool" where
  "ident s \<longleftrightarrow> s \<noteq> [] \<and> ident_start (hd s) \<and> list_all is_word_char (tl s)"

lemma matches_star_class:
  "(\<exists>st \<in> set (matches (RStar (RClass P)) (p, s, g)). fst (snd st) = t) \<longleftrightarrow>
   (\<exists>u. s = u @ t \<and> list_all P u)"
proof (induction s arbitrary: p)
  case Nil
  then show ?case by (auto simp: matches.simps(5))
next
  case (Cons c cs)
  show ?case
  proof (cases "P c")
    case False
    then have "(\<exists>u. c # cs = u @ t \<and> list_all P u) \<longleftrightarrow> t = c # cs"
      by (auto simp: Cons_eq_append_conv)
    with False show ?thesis by (auto simp: matches.simps(5)[of _ "(p, c # cs, g)"])
  next
    case True
    then have "(\<exists>u. c # cs = u @ t \<and> list_all P u) \<longleftrightarrow>
        t = c # cs \<or> (\<exists>u. cs = u @ t \<and> list_all P u)"
      by (auto simp: Cons_eq_append_conv)
    with True Cons.IH[of "Some c"] show ?thesis
      by (auto simp: matches.simps(5)[of _ "(p, c # cs, g)"] rest_len_def)
  qed
qed

text \<open>\<open>accepts r L\<close>: the expression matches exactly the prefixes that lie in \<open>L\<close>.\<close>

definition accepts :: "rx \<Rightarrow> (string \<Rightarrow> bool) \<Rightarrow> bool" where
  "accepts r L \<longleftrightarrow>
     (\<forall>p s g t. (\<exists>st \<in> set (matches r (p, s, g)). fst (snd st) = t) \<longleftrightarrow> (\<exists>u. s = u @ t \<and> L u))"

lemma accepts_star_class: "accepts (RStar (RClass P)) (list_all P)"
  unfolding accepts_def using matches_star_class by blast

lemma accepts_class: "accepts (RClass P) (\<lambda>u. \<exists>c. u = [c] \<and> P c)"
  unfolding accepts_def by (auto split: list.splits)

lemma accepts_eps: "accepts REps (\<lambda>u. u = [])"
  unfolding accepts_def by auto

lemma accepts_alt: "accepts a L \<Longrightarrow> accepts b M \<Longrightarrow> accepts (RAlt a b) (\<lambda>u. L u \<or> M u)"
  unfolding accepts_def by (simp add: bex_Un conj_disj_distribL ex_disj_distrib)

lemma accepts_group:
  assumes "accepts a L"
  shows "accepts (RGroup n a) L"
proof -
  have "(\<exists>st \<in> set (matches (RGroup n a) (p, s, g)). fst (snd st) = t) \<longleftrightarrow>
      (\<exists>st \<in> set (matches a (p, s, g)). fst (snd st) = t)" for p s g t
    by (force simp: case_prod_beta)
  with assms show ?thesis by (simp add: accepts_def)
qed

lemma accepts_seq:
  assumes a: "accepts a L" and b: "accepts b M"
  shows "accepts (RSeq a b) (\<lambda>u. \<exists>x y. u = x @ y \<and> L x \<and> M y)"
  unfolding accepts_def
proof (intro allI)
  fix p s g t
  have bm: "(\<exists>st \<in> set (matches b m). fst (snd st) = t) \<longleftrightarrow> (\<exists>y. fst (snd m) = y @ t \<and> M y)"
    for m using b unfolding accepts_def by (cases m) simp
  have "(\<exists>st \<in> set (matches (RSeq a b) (p, s, g)). fst (snd st) = t) \<longleftrightarrow>
      (\<exists>m \<in> set (matches a (p, s, g)). \<exists>st \<in> set (matches b m). fst (snd st) = t)"
    by auto
  also have "\<dots> \<longleftrightarrow> (\<exists>m \<in> set (matches a (p, s, g)). \<exists>y. fst (snd m) = y @ t \<and> M y)"
    by (simp only: bm)
  also have "\<dots> \<longleftrightarrow> (\<exists>y. M y \<and> (\<exists>m \<in> set (matches a (p, s, g)). fst (snd m) = y @ t))"
    by blast
  also have "\<dots> \<longleftrightarrow> (\<exists>y. M y \<and> (\<exists>x. s = x @ y @ t \<and> L x))"
    using a unfolding accepts_def by simp
  also have "\<dots> \<longleftrightarrow> (\<exists>u. s = u @ t \<and> (\<exists>x y. u = x @ y \<and> L x \<and> M y))"
    by auto blast
  finally show "(\<exists>st \<in> set (matches (RSeq a b) (p, s, g)). fst (snd st) = t) \<longleftrightarrow>
      (\<exists>u. s = u @ t \<and> (\<exists>x y. u = x @ y \<and> L x \<and> M y))" .
qed

lemma accepts_cong: "accepts r L \<Longrightarrow> (\<And>u. L u = M u) \<Longrightarrow> accepts r M"
  unfolding accepts_def by simp

lemma accepts_ident: "accepts ident_rx ident"
  unfolding ident_rx_def
  by (rule accepts_cong[OF accepts_seq[OF accepts_class accepts_star_class]],
      auto simp: ident_def neq_Nil_conv, metis append_Cons append_Nil)

lemma MatchString_whole_accepts:
  assumes "accepts r L"
  shows "MatchString_whole r s = L s"
proof -
  have "MatchString_whole r s \<longleftrightarrow> (\<exists>st \<in> set (matches r (None, s, [])). fst (snd st) = [])"
    by (simp add: MatchString_whole_def list_ex_iff rest_len_def)
  also have "\<dots> \<longleftrightarrow> L s" using assms unfolding accepts_def by simp
  finally show ?thesis .
qed

lemma accepts_table_name:
  "accepts validTableNamePattern (\<lambda>u. ident u \<or> (\<exists>x y. u = x @ CHR ''.'' # y \<and> ident x \<and> ident y))"
proof -
  have dot: "accepts (lit ''.'') (\<lambda>u. u = ''.'')"
    by (rule accepts_cong[OF accepts_class[of "\<lambda>x. x = CHR ''.''", folded rseq.simps(2)], 
          folded lit_def[of "''.''", simplified]]) (auto simp: lit_def)
  show ?thesis
    unfolding validTableNamePattern_def ropt_def
    by (rule accepts_cong[OF accepts_seq[OF accepts_ident accepts_alt[OF accepts_group[OF
          accepts_seq[OF dot accepts_ident]] accepts_eps]]]) auto
qed

lemma ident_chars: "ident s \<Longrightarrow> c \<in> set s \<Longrightarrow> is_word_char c"
  by (cases s) (auto simp: ident_def ident_start_def list_all_iff)

text \<open>
  C34: a table name is accepted exactly when it is an identifier (a letter or underscore, then
  letters, digits and underscores) or two of them joined by one dot, so no accepted name
  carries a quote, a blank, a semicolon or a comment into the SQL text.
\<close>

theorem ValidateTableName_iff:
  "ValidateTableName name = None \<longleftrightarrow>
     ident name \<or> (\<exists>schema table. name = schema @ ''.'' @ table \<and> ident schema \<and> ident table)"
  using MatchString_whole_accepts[OF accepts_table_name, of name]
  by (auto simp: ValidateTableName_def ident_def)

lemma ValidateTableName_chars:
  assumes "ValidateTableName name = None" "c \<in> set name"
  shows "is_word_char c \<or> c = CHR ''.''"
proof -
  from assms(1) MatchString_whole_accepts[OF accepts_table_name, of name]
  have "ident name \<or> (\<exists>x y. name = x @ CHR ''.'' # y \<and> ident x \<and> ident y)"
    by (auto simp: ValidateTableName_def split: if_splits)
  with assms(2) show ?thesis by (auto dest: ident_chars)
qed

text \<open>
  The Go reference back-off overflows: with the default one-second base and one-hour
  cap, attempt 34 multiplies past the 64-bit range, the cap is not applied and the computed
  retry time lies before \<open>now\<close>, although the formula promises a delay capped at the maximum.
\<close>

theorem CalculateNextRetryAt_overflow:
  "CalculateNextRetryAt now 34 second (3600 * second) 1 < now"
proof -
  have "to_int64 (float64 (float64 (of_int (wrap64 (second * go_shl1 34))) * 1)) < 0"
    by code_simp
  moreover have "\<not> wrap64 (second * go_shl1 34) > 3600 * second" by code_simp
  ultimately show ?thesis by (simp add: CalculateNextRetryAt_def Let_def)
qed

section \<open>Rounding to float64\<close>

lemma ilog2_bounds:
  assumes "0 < x"
  shows "2 powi ilog2 x \<le> x \<and> x < 2 powi (ilog2 x + 1)"
proof -
  obtain a b where q: "quotient_of x = (a, b)" by fastforce
  have b: "0 < b" using quotient_of_denom_pos[OF q] .
  have x: "x = of_int a / of_int b" using quotient_of_div[OF q] .
  have a: "0 < a" using assms x b by (simp add: zero_less_divide_iff)
  let ?k = "bitlen a - bitlen b"
  have ba: "2 ^ nat (bitlen a - 1) \<le> a \<and> a < 2 ^ nat (bitlen a)" using bitlen_bounds[OF a] .
  have bb: "2 ^ nat (bitlen b - 1) \<le> b \<and> b < 2 ^ nat (bitlen b)" using bitlen_bounds[OF b] .
  have pos: "1 \<le> bitlen a" "1 \<le> bitlen b" using a b by (simp_all add: bitlen_alt_def)
  have pw: "(2 :: rat) ^ nat (bitlen z) = 2 powi bitlen z" "(2 :: rat) ^ nat (bitlen z - 1) = 2 powi (bitlen z - 1)"
    if "1 \<le> bitlen z" for z using that by (simp_all add: power_int_def)
  have ra: "(2 :: rat) powi (bitlen a - 1) \<le> of_int a" "(of_int a :: rat) < 2 powi bitlen a"
    using ba pw[OF pos(1)] by (metis of_int_le_iff of_int_less_iff of_int_power of_int_numeral)+
  have rb: "(2 :: rat) powi (bitlen b - 1) \<le> of_int b" "(of_int b :: rat) < 2 powi bitlen b"
    using bb pw[OF pos(2)] by (metis of_int_le_iff of_int_less_iff of_int_power of_int_numeral)+
  have up: "x < 2 powi (?k + 1)"
  proof -
    have "x \<le> of_int a / 2 powi (bitlen b - 1)"
      unfolding x using rb a b by (intro divide_left_mono) auto
    also have "\<dots> < 2 powi bitlen a / 2 powi (bitlen b - 1)" using ra(2) by (intro divide_strict_right_mono) auto
    also have "\<dots> = 2 powi (?k + 1)" by (simp add: power_int_diff power_int_add)
    finally show ?thesis .
  qed
  have low: "2 powi (?k - 1) \<le> x"
  proof -
    have "2 powi (?k - 1) = 2 powi (bitlen a - 1) / (2 powi bitlen b :: rat)" by (simp add: power_int_diff)
    also have "\<dots> \<le> of_int a / 2 powi bitlen b" using ra(1) by (intro divide_right_mono) auto
    also have "\<dots> \<le> x" unfolding x using rb a b by (intro divide_left_mono) auto
    finally show ?thesis .
  qed
  show ?thesis using up low by (auto simp: ilog2_def q Let_def)
qed

lemma round_even_error: "\<bar>of_int (round_even y) - y\<bar> \<le> 1 / 2"
  using floor_correct[of y] by (auto simp: round_even_def Let_def abs_le_iff)

text \<open>The relative error of rounding is at most \<open>2^-53\<close>.\<close>

lemma float64_error: "\<bar>float64 x - x\<bar> \<le> \<bar>x\<bar> / 2 ^ 53"
proof (cases "x = 0")
  case False
  let ?e = "ilog2 \<bar>x\<bar> - 52"
  have pos: "(0 :: rat) < 2 powi ?e" by simp
  have "float64 x - x = (of_int (round_even (x / 2 powi ?e)) - x / 2 powi ?e) * 2 powi ?e"
    using False pos by (simp add: float64_def Let_def left_diff_distrib)
  then have "\<bar>float64 x - x\<bar> = \<bar>of_int (round_even (x / 2 powi ?e)) - x / 2 powi ?e\<bar> * 2 powi ?e"
    by (simp add: abs_mult)
  also have "\<dots> \<le> 1 / 2 * 2 powi ?e" by (intro mult_right_mono round_even_error) simp
  also have "\<dots> = 2 powi ilog2 \<bar>x\<bar> / 2 ^ 53" by (simp add: power_int_diff)
  also have "\<dots> \<le> \<bar>x\<bar> / 2 ^ 53" using ilog2_bounds[of "\<bar>x\<bar>"] False by (intro divide_right_mono) auto
  finally show ?thesis .
qed (simp add: float64_def)

end
