(* ===== verification/Sql_Table.thy ===== *)
theory Sql_Table
  imports Outbox_Model "HOL-Library.Multiset"
begin

text \<open>
  The SQL statements of the repositories act on a table, a list of rows in an order the
  database does not specify.  \<open>sql_update\<close> and \<open>sql_delete\<close> give an \<open>UPDATE\<close> or a
  \<open>DELETE\<close> its effect: a row expression may raise an error, which aborts the
  whole statement and leaves the table as it was.

  What PostgreSQL and the connection answer is not in the repository; a \<open>pg_ctx\<close> carries it as
  a parameter of every call: whether the call is delivered, refused, or executed with its
  reply lost; the readings of \<open>clock_timestamp()\<close> (per row and per occurrence in the
  statement) and \<open>random()\<close>; the product of an interval and a float8; the rows other
  transactions hold locked; the order in which \<open>RETURNING\<close> delivers rows; the conversion of
  an argument to \<open>jsonb\<close>; and the generated UUID.  \<open>wf_ctx\<close> names what the code relies on.
\<close>

section \<open>Statements\<close>

fun sql_update ::
  "('r \<Rightarrow> bool) \<Rightarrow> ('r \<Rightarrow> goerr + 'r) \<Rightarrow> 'r list \<Rightarrow> goerr + 'r list \<times> nat" where
  "sql_update P f [] = Inr ([], 0)"
| "sql_update P f (r # rs) =
     (if P r then
        (case f r of
           Inl e \<Rightarrow> Inl e
         | Inr r' \<Rightarrow>
             (case sql_update P f rs of
                Inl e \<Rightarrow> Inl e
              | Inr (rs', n) \<Rightarrow> Inr (r' # rs', Suc n)))
      else
        (case sql_update P f rs of
           Inl e \<Rightarrow> Inl e
         | Inr (rs', n) \<Rightarrow> Inr (r # rs', n)))"

definition sql_delete :: "('r \<Rightarrow> bool) \<Rightarrow> 'r list \<Rightarrow> goerr + 'r list \<times> nat" where
  "sql_delete P rs = Inr (filter (\<lambda>r. \<not> P r) rs, length (filter P rs))"

definition unique_violation :: goerr where
  "unique_violation = PgError ''23505'' ''duplicate key value violates unique constraint''"

definition not_null_violation :: goerr where
  "not_null_violation = PgError ''23502'' ''null value violates not-null constraint''"

definition integer_out_of_range :: goerr where
  "integer_out_of_range = PgError ''22003'' ''integer out of range''"

definition interval_out_of_range :: goerr where
  "interval_out_of_range = PgError ''22008'' ''interval out of range''"

definition negative_limit :: goerr where
  "negative_limit = PgError ''2201W'' ''LIMIT must not be negative''"

definition invalid_byte_sequence :: goerr where
  "invalid_byte_sequence = PgError ''22021'' ''invalid byte sequence for encoding UTF8''"

text \<open>A \<open>TEXT\<close> argument is valid UTF-8 and has no NUL; otherwise the server refuses the statement.\<close>

definition valid_text :: "string \<Rightarrow> bool" where
  "valid_text x \<longleftrightarrow> ValidString x \<and> CHR 0x00 \<notin> set x"

definition text_args :: "string list \<Rightarrow> ('s \<Rightarrow> goerr + 'a) \<Rightarrow> 's \<Rightarrow> goerr + 'a" where
  "text_args xs stmt s = (if list_all valid_text xs then stmt s else Inl invalid_byte_sequence)"

definition int4 :: "int \<Rightarrow> goerr + int" where
  "int4 x = (if - (2 ^ 31) \<le> x \<and> x < 2 ^ 31 then Inr x else Inl integer_out_of_range)"

definition lookup_by :: "('r \<Rightarrow> 'k) \<Rightarrow> 'r list \<Rightarrow> 'k \<Rightarrow> 'r option" where
  "lookup_by k rs i = find (\<lambda>r. k r = i) rs"

section \<open>What the outside world answers\<close>

datatype conn_outcome = Delivered | Refused goerr | ReplyLost goerr

record pg_ctx =
  outcome :: conn_outcome
  clock :: "string \<Rightarrow> nat \<Rightarrow> time"
  rnd :: "string \<Rightarrow> rat"
  imul :: "int \<Rightarrow> rat \<Rightarrow> int option"
  locked :: "string \<Rightarrow> bool"
  returning :: "Outbox list \<Rightarrow> Outbox list"
  jsonb :: "go_bytes \<Rightarrow> goerr + go_bytes"
  new_uuid :: string

fun run_statement ::
  "conn_outcome \<Rightarrow> ('s \<Rightarrow> goerr + 's \<times> 'a) \<Rightarrow> 's \<Rightarrow> (goerr + 'a) \<times> 's" where
  "run_statement Delivered stmt s =
     (case stmt s of Inl e \<Rightarrow> (Inl e, s) | Inr (s', a) \<Rightarrow> (Inr a, s'))"
| "run_statement (Refused e) stmt s = (Inl e, s)"
| "run_statement (ReplyLost e) stmt s =
     (case stmt s of Inl e' \<Rightarrow> (Inl e', s) | Inr (s', a) \<Rightarrow> (Inl e, s'))"

fun run_query :: "conn_outcome \<Rightarrow> (goerr + 'a) \<Rightarrow> goerr + 'a" where
  "run_query Delivered r = r"
| "run_query (Refused e) r = Inl e"
| "run_query (ReplyLost e) r = (case r of Inl e' \<Rightarrow> Inl e' | Inr _ \<Rightarrow> Inl e)"

text \<open>
  Errors of the driver and the server are not sentinels of the library, a lost or refused
  call is reported neither as \<open>pgx.ErrNoRows\<close> nor as a unique violation, and \<open>RETURNING\<close>
  delivers exactly the updated rows, in some order.
\<close>

definition foreign :: "goerr \<Rightarrow> bool" where
  "foreign e \<longleftrightarrow> (\<forall>t. \<not> errors_Is e t)"

definition broken_link :: "goerr \<Rightarrow> bool" where
  "broken_link e \<longleftrightarrow> foreign e \<and> errors_As_PgError e \<noteq> Some ''23505''"

definition wf_ctx :: "pg_ctx \<Rightarrow> bool" where
  "wf_ctx c \<longleftrightarrow>
     (case outcome c of Delivered \<Rightarrow> True | Refused e \<Rightarrow> broken_link e | ReplyLost e \<Rightarrow> broken_link e) \<and>
     (\<forall>xs. mset (returning c xs) = mset xs) \<and>
     (\<forall>b e. jsonb c b = Inl e \<longrightarrow> broken_link e)"

section \<open>Facts about statements\<close>

lemma foreign_PgError [simp]: "foreign (PgError c t)"
  by (simp add: foreign_def)

lemmas pg_error_defs = unique_violation_def not_null_violation_def integer_out_of_range_def
  interval_out_of_range_def negative_limit_def invalid_byte_sequence_def

lemma int4_Inr [simp]: "int4 x = Inr y \<longleftrightarrow> y = x \<and> - (2 ^ 31) \<le> x \<and> x < 2 ^ 31"
  by (auto simp: int4_def)

lemma int4_Inl: "int4 x = Inl e \<Longrightarrow> e = integer_out_of_range"
  by (auto simp: int4_def split: if_splits)

lemma text_args_Inr [simp]:
  "text_args xs stmt s = Inr z \<longleftrightarrow> list_all valid_text xs \<and> stmt s = Inr z"
  by (simp add: text_args_def)

lemma text_args_Nil [simp]: "text_args [] stmt = stmt"
  by (simp add: text_args_def fun_eq_iff)

lemma text_args_Inl:
  "text_args xs stmt s = Inl e \<Longrightarrow> e = invalid_byte_sequence \<or> stmt s = Inl e"
  by (auto simp: text_args_def split: if_splits)

text \<open>A call has the whole effect of its statement, with or without the reply, or none.\<close>

lemma run_statement_cases:
  obtains (answered) s' a where "stmt s = Inr (s', a)" "run_statement w stmt s = (Inr a, s')"
      "w = Delivered"
  | (lost) s' a e where "stmt s = Inr (s', a)" "run_statement w stmt s = (Inl e, s')" "w = ReplyLost e"
  | (refused) e where "run_statement w stmt s = (Inl e, s)" "w = Refused e"
  | (failed) e where "run_statement w stmt s = (Inl e, s)" "stmt s = Inl e"
  by (cases w; cases "stmt s") auto

lemma wf_ctx_outcome:
  "wf_ctx c \<Longrightarrow> outcome c = ReplyLost e \<Longrightarrow> foreign e"
  "wf_ctx c \<Longrightarrow> outcome c = Refused e \<Longrightarrow> foreign e"
  by (simp_all add: wf_ctx_def broken_link_def)

lemma wf_ctx_no_violation:
  "wf_ctx c \<Longrightarrow> outcome c = ReplyLost e \<Longrightarrow> errors_As_PgError e \<noteq> Some ''23505''"
  "wf_ctx c \<Longrightarrow> outcome c = Refused e \<Longrightarrow> errors_As_PgError e \<noteq> Some ''23505''"
  "wf_ctx c \<Longrightarrow> jsonb c b = Inl e \<Longrightarrow> errors_As_PgError e \<noteq> Some ''23505''"
  by (auto simp: wf_ctx_def broken_link_def)

lemma foreign_not_Is: "foreign e \<Longrightarrow> \<not> errors_Is e t"
  by (simp add: foreign_def)

text \<open>How a row and its successor are related by an \<open>UPDATE\<close>.\<close>

definition updated_row :: "('r \<Rightarrow> bool) \<Rightarrow> ('r \<Rightarrow> goerr + 'r) \<Rightarrow> 'r \<Rightarrow> 'r \<Rightarrow> bool" where
  "updated_row P f r r' = (if P r then f r = Inr r' else r' = r)"

lemma updated_row_simps [simp]:
  "P r \<Longrightarrow> updated_row P f r r' \<longleftrightarrow> f r = Inr r'"
  "\<not> P r \<Longrightarrow> updated_row P f r r' \<longleftrightarrow> r' = r"
  by (simp_all add: updated_row_def)

lemma sql_update_list_all2:
  "sql_update P f rs = Inr (rs', n) \<Longrightarrow>
     list_all2 (updated_row P f) rs rs' \<and> n = length (filter P rs)"
  by (induction rs arbitrary: rs' n) (auto split: if_splits sum.splits)

lemma updated_row_key:
  "updated_row P f r r' \<Longrightarrow> (\<And>r r'. P r \<Longrightarrow> f r = Inr r' \<Longrightarrow> k r' = k r) \<Longrightarrow> k r' = k r"
  by (cases "P r") auto

lemma sql_update_errorD: "sql_update P f rs = Inl e \<Longrightarrow> \<exists>r \<in> set rs. P r \<and> f r = Inl e"
  by (induction rs) (auto split: if_splits sum.splits)

lemma sql_update_total:
  "(\<And>r. r \<in> set rs \<Longrightarrow> P r \<Longrightarrow> \<exists>r'. f r = Inr r') \<Longrightarrow> \<exists>rs' n. sql_update P f rs = Inr (rs', n)"
  using sql_update_errorD[of P f rs] by (cases "sql_update P f rs") fastforce+

lemma list_all2_map_key:
  "list_all2 R rs rs' \<Longrightarrow> (\<And>r r'. R r r' \<Longrightarrow> k r' = k r) \<Longrightarrow> map k rs' = map k rs"
  by (induction rule: list_all2_induct) auto

lemma list_all2_lookup:
  assumes "list_all2 R rs rs'" "\<And>r r'. R r r' \<Longrightarrow> k r' = k r"
  shows "rel_option R (lookup_by k rs i) (lookup_by k rs' i)"
  using assms by (induction rule: list_all2_induct) (auto simp: lookup_by_def)

lemma lookup_by_SomeD: "lookup_by k rs i = Some r \<Longrightarrow> r \<in> set rs \<and> k r = i"
  unfolding lookup_by_def by (drule find_Some_in_set) simp

lemma lookup_by_None_iff: "lookup_by k rs i = None \<longleftrightarrow> i \<notin> k ` set rs"
  by (auto simp: lookup_by_def find_None_iff)

lemma lookup_by_in_set:
  "distinct (map k rs) \<Longrightarrow> r \<in> set rs \<Longrightarrow> lookup_by k rs (k r) = Some r"
  unfolding lookup_by_def by (rule find_map_fst_unique)

lemma lookup_by_eq_Some:
  "distinct (map k rs) \<Longrightarrow> lookup_by k rs i = Some r \<longleftrightarrow> r \<in> set rs \<and> k r = i"
  using lookup_by_in_set lookup_by_SomeD by metis

text \<open>The effect of an \<open>UPDATE\<close> on one row, by key.\<close>

lemma sql_update_lookup:
  assumes "sql_update P f rs = Inr (rs', n)" "\<And>r r'. P r \<Longrightarrow> f r = Inr r' \<Longrightarrow> k r' = k r"
  shows "rel_option (updated_row P f) (lookup_by k rs i) (lookup_by k rs' i)"
  using sql_update_list_all2[OF assms(1)] updated_row_key[OF _ assms(2)]
  by (intro list_all2_lookup) auto

lemma sql_update_keys:
  assumes "sql_update P f rs = Inr (rs', n)" "\<And>r r'. P r \<Longrightarrow> f r = Inr r' \<Longrightarrow> k r' = k r"
  shows "map k rs' = map k rs"
  using sql_update_list_all2[OF assms(1)] updated_row_key[OF _ assms(2)]
  by (auto intro!: list_all2_map_key)

text \<open>An \<open>UPDATE ... WHERE id = i AND Q\<close> on a table with unique ids.\<close>

lemma sql_update_by_id:
  assumes u: "sql_update (\<lambda>r. k r = i \<and> Q r) f rs = Inr (rs', n)"
    and key: "\<And>r r'. f r = Inr r' \<Longrightarrow> k r' = k r"
    and d: "distinct (map k rs)"
  shows "(n = 0 \<and> lookup_by k rs' = lookup_by k rs \<and> (\<forall>r. lookup_by k rs i = Some r \<longrightarrow> \<not> Q r)) \<or>
    (n = 1 \<and> (\<exists>r r'. lookup_by k rs i = Some r \<and> Q r \<and> f r = Inr r' \<and>
       lookup_by k rs' = (lookup_by k rs)(i := Some r')))"
proof -
  let ?R = "updated_row (\<lambda>r. k r = i \<and> Q r) f"
  have rel: "rel_option ?R (lookup_by k rs j) (lookup_by k rs' j)" for j
    by (rule sql_update_lookup[OF u]) (auto dest: key)
  have n: "n = length (filter (\<lambda>r. k r = i \<and> Q r) rs)"
    using sql_update_list_all2[OF u] by simp
  have other: "lookup_by k rs' j = lookup_by k rs j" if "j \<noteq> i" for j
  proof (cases "lookup_by k rs j")
    case None
    with rel[of j] show ?thesis by simp
  next
    case (Some r)
    with rel[of j] that show ?thesis by (auto simp: option_rel_Some1 dest: lookup_by_SomeD)
  qed
  show ?thesis
  proof (cases "\<exists>r. lookup_by k rs i = Some r \<and> Q r")
    case True
    then obtain r where r: "lookup_by k rs i = Some r" "Q r" by blast
    then have "r \<in> set rs" "k r = i" by (auto dest: lookup_by_SomeD)
    with r(2) have "n \<noteq> 0" unfolding n by (auto simp: filter_empty_conv)
    moreover have "n \<le> 1" unfolding n by (rule length_filter_le_1[OF d])
    ultimately have "n = 1" by simp
    moreover from rel[of i] r \<open>k r = i\<close> obtain r' where
      r': "lookup_by k rs' i = Some r'" "f r = Inr r'" by (auto simp: option_rel_Some1)
    moreover have "lookup_by k rs' = (lookup_by k rs)(i := Some r')"
      using other r'(1) by (auto simp: fun_eq_iff)
    ultimately show ?thesis using r by blast
  next
    case False
    then have "n = 0" unfolding n
      by (auto simp: filter_empty_conv dest!: lookup_by_in_set[OF d])
    moreover have i: "lookup_by k rs' i = lookup_by k rs i"
      using rel[of i] False by (cases "lookup_by k rs i") (auto simp: option_rel_Some1)
    have "lookup_by k rs' = lookup_by k rs"
    proof (rule ext)
      show "lookup_by k rs' x = lookup_by k rs x" for x
        using i other[of x] by (cases "x = i") simp_all
    qed
    ultimately show ?thesis using False by auto
  qed
qed

end
