(* ===== verification/Outbox_Repository.thy ===== *)
theory Outbox_Repository
  imports Sql_Table
begin

text \<open>
  \<open>src/core/repository.go\<close>: the repository interfaces as records of operations over a state
  \<open>'s\<close>, each taking the context \<open>'c\<close> of the call; the life cycle of a row that every
  implementation has to respect (\<open>row_step\<close>, the abstract state machine of an outbox
  message); and the contract the dispatchers rely on, as the locale \<open>outbox_repository\<close>.
\<close>

section \<open>The interfaces\<close>

record ('c, 's) OutboxRepository =
  Insert :: "'c \<Rightarrow> OutboxInsertParams \<Rightarrow> 's \<Rightarrow> (goerr + Outbox) \<times> 's"
  FetchAndLockToPublishing :: "'c \<Rightarrow> 's \<Rightarrow> (goerr + Outbox) \<times> 's"
  UpdateToPublished :: "'c \<Rightarrow> string \<Rightarrow> 's \<Rightarrow> goerr option \<times> 's"
  UpdateToFailed :: "'c \<Rightarrow> string \<Rightarrow> string \<Rightarrow> 's \<Rightarrow> goerr option \<times> 's"
  UpdateToDead :: "'c \<Rightarrow> string \<Rightarrow> string \<Rightarrow> 's \<Rightarrow> goerr option \<times> 's"
  RequeueFailed :: "'c \<Rightarrow> 's \<Rightarrow> (goerr + int) \<times> 's"
  GetByID :: "'c \<Rightarrow> string \<Rightarrow> 's \<Rightarrow> goerr + Outbox"
  GetByIdempotencyKey :: "'c \<Rightarrow> string \<Rightarrow> string \<Rightarrow> 's \<Rightarrow> goerr + Outbox"

record ('c, 's) BatchOutboxRepository = "('c, 's) OutboxRepository" +
  FetchLockAndMarkPublishing :: "'c \<Rightarrow> int \<Rightarrow> 's \<Rightarrow> (goerr + Outbox list) \<times> 's"
  UpdateBatchToPublished :: "'c \<Rightarrow> string list \<Rightarrow> 's \<Rightarrow> (goerr + int) \<times> 's"

record ('c, 's) OutboxMaintenance =
  DeleteOlderThan :: "'c \<Rightarrow> OutboxStatus list \<Rightarrow> duration \<Rightarrow> 's \<Rightarrow> (goerr + int) \<times> 's"
  ReviveStuckPublishing :: "'c \<Rightarrow> 's \<Rightarrow> (goerr + int) \<times> 's"

section \<open>The life cycle of a row\<close>

text \<open>
  One step of a row: what may change and when.  The identity, payload and creation time of
  a row never change; the attempt counter moves only when a publish attempt is given up.
\<close>

inductive row_step :: "Outbox \<Rightarrow> Outbox \<Rightarrow> bool" where
  pick_up: "Status r = OutboxStatusEnqueued \<Longrightarrow>
    row_step r (r\<lparr>Status := OutboxStatusPublishing, UpdatedAt := u\<rparr>)"
| success: "Status r = OutboxStatusPublishing \<Longrightarrow>
    row_step r (r\<lparr>Status := OutboxStatusPublished, UpdatedAt := u\<rparr>)"
| failure: "Status r = OutboxStatusPublishing \<Longrightarrow>
    row_step r (r\<lparr>Status := OutboxStatusFailed, ErrorMessage := Some m,
      AttemptCount := AttemptCount r + 1, NextRetryAt := Some t, UpdatedAt := u\<rparr>)"
| give_up: "Status r = OutboxStatusPublishing \<Longrightarrow>
    row_step r (r\<lparr>Status := OutboxStatusDead, ErrorMessage := Some m,
      AttemptCount := min (AttemptCount r + 1) (MaxAttempts r), UpdatedAt := u\<rparr>)"
| give_up_revived: "Status r = OutboxStatusPublishing \<Longrightarrow> MaxAttempts r \<le> AttemptCount r + 1 \<Longrightarrow>
    row_step r (r\<lparr>Status := OutboxStatusDead, ErrorMessage := Some m,
      AttemptCount := min (AttemptCount r + 1) (MaxAttempts r), NextRetryAt := None, UpdatedAt := u\<rparr>)"
| requeue: "Status r = OutboxStatusFailed \<Longrightarrow> AttemptCount r < MaxAttempts r \<Longrightarrow>
    row_step r (r\<lparr>Status := OutboxStatusEnqueued, UpdatedAt := u\<rparr>)"

inductive_cases row_stepE: "row_step r r'"

definition row_evolves :: "Outbox \<Rightarrow> Outbox \<Rightarrow> bool" where
  "row_evolves r r' \<longleftrightarrow> r' = r \<or> row_step r r'"

lemma row_step_frame:
  assumes "row_step r r'"
  shows "ID r' = ID r" "EventType r' = EventType r" "Payload r' = Payload r"
    "Metadata r' = Metadata r" "IdempotencyKey r' = IdempotencyKey r"
    "MaxAttempts r' = MaxAttempts r" "CreatedAt r' = CreatedAt r"
  using assms by (auto elim!: row_stepE)

lemma row_evolves_ID: "row_evolves r r' \<Longrightarrow> ID r' = ID r"
  by (auto simp: row_evolves_def row_step_frame)

lemma row_evolves_refl [simp, intro]: "row_evolves r r"
  by (simp add: row_evolves_def)

text \<open>Terminal states: a PUBLISHED or DEAD row has no step.\<close>

lemma row_step_not_terminal:
  "row_step r r' \<Longrightarrow> Status r \<notin> {OutboxStatusPublished, OutboxStatusDead}"
  by (auto elim!: row_stepE)

section \<open>The table\<close>

definition wf_table :: "Outbox list \<Rightarrow> bool" where
  "wf_table rs \<longleftrightarrow> distinct (map ID rs) \<and> distinct (map (\<lambda>r. (EventType r, IdempotencyKey r)) rs)"

abbreviation row_of :: "Outbox list \<Rightarrow> string \<Rightarrow> Outbox option" where
  "row_of \<equiv> lookup_by ID"

definition table_evolves :: "Outbox list \<Rightarrow> Outbox list \<Rightarrow> bool" where
  "table_evolves rs rs' \<longleftrightarrow> list_all2 row_evolves rs rs'"

lemma table_evolves_refl [simp, intro]: "table_evolves rs rs"
  by (simp add: table_evolves_def list_all2_refl)

lemma table_evolves_wf:
  assumes "table_evolves rs rs'" "wf_table rs"
  shows "wf_table rs'"
proof -
  have "map ID rs' = map ID rs"
    "map (\<lambda>r. (EventType r, IdempotencyKey r)) rs' = map (\<lambda>r. (EventType r, IdempotencyKey r)) rs"
    using assms(1) unfolding table_evolves_def
    by (auto intro!: list_all2_map_key simp: row_evolves_def row_step_frame)
  with assms(2) show ?thesis by (simp add: wf_table_def)
qed

lemma table_evolves_row:
  "table_evolves rs rs' \<Longrightarrow> rel_option row_evolves (row_of rs i) (row_of rs' i)"
  unfolding table_evolves_def by (rule list_all2_lookup) (auto simp: row_evolves_ID)

lemma sql_update_evolves:
  assumes "sql_update P f rs = Inr (rs', n)"
    "\<And>r r'. r \<in> set rs \<Longrightarrow> P r \<Longrightarrow> f r = Inr r' \<Longrightarrow> row_step r r'"
  shows "table_evolves rs rs'"
  using sql_update_list_all2[OF assms(1)] assms(2)
  unfolding table_evolves_def row_evolves_def
  by (auto elim!: list.rel_mono_strong simp: updated_row_def split: if_splits)

section \<open>The contract the dispatchers rely on\<close>

text \<open>The effect of each operation on the row it is about.\<close>

definition picked_up :: "Outbox \<Rightarrow> Outbox \<Rightarrow> bool" where
  "picked_up r r' \<longleftrightarrow> (\<exists>u. r' = r\<lparr>Status := OutboxStatusPublishing, UpdatedAt := u\<rparr>)"

definition became_published :: "Outbox \<Rightarrow> Outbox \<Rightarrow> bool" where
  "became_published r r' \<longleftrightarrow> (\<exists>u. r' = r\<lparr>Status := OutboxStatusPublished, UpdatedAt := u\<rparr>)"

definition became_failed :: "string \<Rightarrow> Outbox \<Rightarrow> Outbox \<Rightarrow> bool" where
  "became_failed m r r' \<longleftrightarrow>
     (\<exists>t u. r' = r\<lparr>Status := OutboxStatusFailed, ErrorMessage := Some m,
        AttemptCount := AttemptCount r + 1, NextRetryAt := Some t, UpdatedAt := u\<rparr>)"

definition became_dead :: "string \<Rightarrow> Outbox \<Rightarrow> Outbox \<Rightarrow> bool" where
  "became_dead m r r' \<longleftrightarrow>
     (\<exists>u. r' = r\<lparr>Status := OutboxStatusDead, ErrorMessage := Some m,
        AttemptCount := min (AttemptCount r + 1) (MaxAttempts r), UpdatedAt := u\<rparr>)"

definition became_enqueued :: "Outbox \<Rightarrow> Outbox \<Rightarrow> bool" where
  "became_enqueued r r' \<longleftrightarrow> (\<exists>u. r' = r\<lparr>Status := OutboxStatusEnqueued, UpdatedAt := u\<rparr>)"

lemmas effect_defs = picked_up_def became_published_def became_failed_def became_dead_def
  became_enqueued_def

lemma effect_steps [intro]:
  "Status r = OutboxStatusEnqueued \<Longrightarrow> picked_up r r' \<Longrightarrow> row_step r r'"
  "Status r = OutboxStatusPublishing \<Longrightarrow> became_published r r' \<Longrightarrow> row_step r r'"
  "Status r = OutboxStatusPublishing \<Longrightarrow> became_failed m r r' \<Longrightarrow> row_step r r'"
  "Status r = OutboxStatusPublishing \<Longrightarrow> became_dead m r r' \<Longrightarrow> row_step r r'"
  "Status r = OutboxStatusFailed \<Longrightarrow> AttemptCount r < MaxAttempts r \<Longrightarrow>
     became_enqueued r r' \<Longrightarrow> row_step r r'"
  by (auto simp: effect_defs intro: row_step.intros)

lemma effect_ID:
  "became_published r r' \<Longrightarrow> ID r' = ID r" "became_failed em r r' \<Longrightarrow> ID r' = ID r"
  "became_dead em r r' \<Longrightarrow> ID r' = ID r" "became_enqueued r r' \<Longrightarrow> ID r' = ID r"
  "picked_up r r' \<Longrightarrow> ID r' = ID r"
  by (auto simp: effect_defs)

lemma wf_table_ids: "wf_table rs \<Longrightarrow> distinct (map ID rs)"
  by (simp add: wf_table_def)

text \<open>A call whose reply is lost, or that touches many rows, has its effect on some of them.\<close>

definition maybe_picked_up :: "Outbox \<Rightarrow> Outbox \<Rightarrow> bool" where
  "maybe_picked_up r r' \<longleftrightarrow> r' = r \<or> Status r = OutboxStatusEnqueued \<and> picked_up r r'"

definition maybe_requeued :: "Outbox \<Rightarrow> Outbox \<Rightarrow> bool" where
  "maybe_requeued r r' \<longleftrightarrow> r' = r \<or> Status r = OutboxStatusFailed \<and> CanRetry r \<and> became_enqueued r r'"

lemma maybe_evolves:
  "maybe_picked_up r r' \<Longrightarrow> row_evolves r r'" "maybe_requeued r r' \<Longrightarrow> row_evolves r r'"
  by (auto simp: maybe_picked_up_def maybe_requeued_def row_evolves_def CanRetry_def)

lemma maybe_not_published:
  "maybe_picked_up r r' \<Longrightarrow> r' \<noteq> r \<Longrightarrow> Status r' \<noteq> OutboxStatusPublished"
  "maybe_requeued r r' \<Longrightarrow> r' \<noteq> r \<Longrightarrow> Status r' \<noteq> OutboxStatusPublished"
  by (auto simp: maybe_picked_up_def maybe_requeued_def effect_defs)

text \<open>
  \<open>settles row i E s (err, s')\<close>: a successful call found row \<open>i\<close> in PUBLISHING and gave it the
  effect \<open>E\<close>, all other rows as they were; \<open>ErrInvalidStatus\<close> means that nothing changed
  because the row was not in PUBLISHING; after any other error the call had its whole effect
  (its reply was lost) or none.
\<close>

definition settles ::
  "('s \<Rightarrow> string \<Rightarrow> Outbox option) \<Rightarrow> string \<Rightarrow> (Outbox \<Rightarrow> Outbox \<Rightarrow> bool) \<Rightarrow> 's \<Rightarrow>
   goerr option \<times> 's \<Rightarrow> bool" where
  "settles row i E s res =
     (case res of (err, s') \<Rightarrow>
        let done = (\<exists>r r'. row s i = Some r \<and> Status r = OutboxStatusPublishing \<and> E r r' \<and>
                      row s' = (row s)(i \<mapsto> r'))
        in case err of
             None \<Rightarrow> done
           | Some e \<Rightarrow>
               if errors_Is e ErrInvalidStatus
               then row s' = row s \<and> (\<forall>r. row s i = Some r \<longrightarrow> Status r \<noteq> OutboxStatusPublishing)
               else row s' = row s \<or> done)"

lemma settles_cases:
  assumes "settles row i E s (err, s')"
  obtains (effect) r r' where "row s i = Some r" "Status r = OutboxStatusPublishing" "E r r'"
      "row s' = (row s)(i \<mapsto> r')"
  | (unchanged) e where "err = Some e" "row s' = row s"
  using assms by (auto simp: settles_def Let_def split: option.splits if_splits)

lemma settles_None:
  "settles row i E s (None, s') \<longleftrightarrow>
     (\<exists>r r'. row s i = Some r \<and> Status r = OutboxStatusPublishing \<and> E r r' \<and> row s' = (row s)(i \<mapsto> r'))"
  by (simp add: settles_def)

lemma settles_invalid:
  "settles row i E s (Some e, s') \<Longrightarrow> errors_Is e ErrInvalidStatus \<Longrightarrow>
     row s' = row s \<and> (\<forall>r. row s i = Some r \<longrightarrow> Status r \<noteq> OutboxStatusPublishing)"
  by (simp add: settles_def)

text \<open>What a worker holds of a row it has picked up: \<open>RETURNING\<close> leaves out \<open>next_retry_at\<close>.\<close>

definition fetched :: "('s \<Rightarrow> string \<Rightarrow> Outbox option) \<Rightarrow> 's \<Rightarrow> 's \<Rightarrow> Outbox \<Rightarrow> bool" where
  "fetched row s s' m \<longleftrightarrow>
     (\<exists>r r'. row s (ID m) = Some r \<and> Status r = OutboxStatusEnqueued \<and> picked_up r r' \<and>
        row s' (ID m) = Some r' \<and> m = r'\<lparr>NextRetryAt := None\<rparr>)"

locale outbox_repository =
  fixes R :: "('c, 's, 'm) OutboxRepository_scheme"
    and row :: "'s \<Rightarrow> string \<Rightarrow> Outbox option"
    and inv :: "'s \<Rightarrow> bool"
    and okc :: "'c \<Rightarrow> bool"
  assumes fetch_inv: "inv s \<Longrightarrow> okc c \<Longrightarrow> inv (snd (FetchAndLockToPublishing R c s))"
    and fetch_ok: "inv s \<Longrightarrow> okc c \<Longrightarrow> FetchAndLockToPublishing R c s = (Inr m, s') \<Longrightarrow>
      fetched row s s' m \<and> (\<forall>i. i \<noteq> ID m \<longrightarrow> row s' i = row s i)"
    and fetch_no_message: "inv s \<Longrightarrow> okc c \<Longrightarrow> FetchAndLockToPublishing R c s = (Inl e, s') \<Longrightarrow>
      errors_Is e ErrNoMessage \<Longrightarrow> row s' = row s"
    and fetch_err: "inv s \<Longrightarrow> okc c \<Longrightarrow> FetchAndLockToPublishing R c s = (Inl e, s') \<Longrightarrow>
      rel_option maybe_picked_up (row s i) (row s' i)"
    and published_inv: "inv s \<Longrightarrow> okc c \<Longrightarrow> inv (snd (UpdateToPublished R c i s))"
    and published: "inv s \<Longrightarrow> okc c \<Longrightarrow> settles row i became_published s (UpdateToPublished R c i s)"
    and failed_inv: "inv s \<Longrightarrow> okc c \<Longrightarrow> inv (snd (UpdateToFailed R c i em s))"
    and failed: "inv s \<Longrightarrow> okc c \<Longrightarrow> settles row i (became_failed em) s (UpdateToFailed R c i em s)"
    and dead_inv: "inv s \<Longrightarrow> okc c \<Longrightarrow> inv (snd (UpdateToDead R c i em s))"
    and dead: "inv s \<Longrightarrow> okc c \<Longrightarrow> settles row i (became_dead em) s (UpdateToDead R c i em s)"
    and requeue_inv: "inv s \<Longrightarrow> okc c \<Longrightarrow> inv (snd (RequeueFailed R c s))"
    and requeue_rows: "inv s \<Longrightarrow> okc c \<Longrightarrow>
      rel_option maybe_requeued (row s i) (row (snd (RequeueFailed R c s)) i)"

locale batch_outbox_repository = outbox_repository R row inv okc
  for R :: "('c, 's, 'm) BatchOutboxRepository_scheme"
    and row :: "'s \<Rightarrow> string \<Rightarrow> Outbox option"
    and inv :: "'s \<Rightarrow> bool"
    and okc :: "'c \<Rightarrow> bool" +
  assumes batch_fetch_inv: "inv s \<Longrightarrow> okc c \<Longrightarrow> inv (snd (FetchLockAndMarkPublishing R c n s))"
    and batch_fetch_ok: "inv s \<Longrightarrow> okc c \<Longrightarrow> FetchLockAndMarkPublishing R c n s = (Inr ms, s') \<Longrightarrow>
      distinct (map ID ms) \<and> int (length ms) \<le> max 0 n \<and> (\<forall>m \<in> set ms. fetched row s s' m) \<and>
      (\<forall>i. i \<notin> ID ` set ms \<longrightarrow> row s' i = row s i)"
    and batch_fetch_err: "inv s \<Longrightarrow> okc c \<Longrightarrow> FetchLockAndMarkPublishing R c n s = (Inl e, s') \<Longrightarrow>
      rel_option maybe_picked_up (row s i) (row s' i)"
    and batch_published_inv: "inv s \<Longrightarrow> okc c \<Longrightarrow> inv (snd (UpdateBatchToPublished R c ids s))"
    and batch_published_ok: "inv s \<Longrightarrow> okc c \<Longrightarrow> UpdateBatchToPublished R c ids s = (Inr k, s') \<Longrightarrow>
      (\<forall>i. if i \<in> set ids \<and> (\<exists>r. row s i = Some r \<and> Status r = OutboxStatusPublishing)
         then rel_option became_published (row s i) (row s' i)
         else row s' i = row s i) \<and>
      k = int (card {i \<in> set ids. \<exists>r. row s i = Some r \<and> Status r = OutboxStatusPublishing})"
    and batch_published_err: "inv s \<Longrightarrow> okc c \<Longrightarrow> UpdateBatchToPublished R c ids s = (Inl e, s') \<Longrightarrow>
      if i \<in> set ids \<and> (\<exists>r. row s i = Some r \<and> Status r = OutboxStatusPublishing)
      then row s' i = row s i \<or> rel_option became_published (row s i) (row s' i)
      else row s' i = row s i"

end
