(* ===== verification/Pgx_Repo.thy ===== *)
theory Pgx_Repo
  imports Outbox_Repository
begin

text \<open>
  \<open>src/contrib/pgx/config.go\<close> and \<open>src/contrib/pgx/repo.go\<close>: configuration, and every
  operation of the PostgreSQL outbox repository as the effect of its SQL statement on the
  table.  Column defaults (\<open>attempt_count\<close> 1, \<open>created_at\<close>/\<open>updated_at\<close> the database clock)
  and the two unique constraints come from \<open>src/schema/schema.go\<close>.  Ids are the canonical
  UUID texts the library itself generated, so casting them to \<open>uuid\<close> does not fail.
\<close>

section \<open>Configuration\<close>

record Config =
  OutboxTableName :: string
  InboxTableName :: string
  RequeueBackoffBase :: duration
  RequeueBackoffMax :: duration
  StuckPublishingThreshold :: duration

datatype Option =
    WithOutboxTableName string
  | WithInboxTableName string
  | WithStuckPublishingThreshold duration

definition DefaultConfig :: Config where
  "DefaultConfig =
     \<lparr>OutboxTableName = ''outbox'', InboxTableName = ''consumer_inbox'',
      RequeueBackoffBase = 1 * second, RequeueBackoffMax = 3600 * second,
      StuckPublishingThreshold = 300 * second\<rparr>"

text \<open>Building an option with a bad name panics; \<open>Inl\<close> is the panic.\<close>

fun apply_option :: "Option \<Rightarrow> Config \<Rightarrow> goerr + Config" where
  "apply_option (WithOutboxTableName name) c =
     (case ValidateTableName name of Some err \<Rightarrow> Inl err | None \<Rightarrow> Inr (c\<lparr>OutboxTableName := name\<rparr>))"
| "apply_option (WithInboxTableName name) c =
     (case ValidateTableName name of Some err \<Rightarrow> Inl err | None \<Rightarrow> Inr (c\<lparr>InboxTableName := name\<rparr>))"
| "apply_option (WithStuckPublishingThreshold threshold) c =
     Inr (c\<lparr>StuckPublishingThreshold := threshold\<rparr>)"

fun apply_opts :: "Option list \<Rightarrow> Config \<Rightarrow> goerr + Config" where
  "apply_opts [] c = Inr c"
| "apply_opts (opt # opts) c =
     (case apply_option opt c of Inl e \<Rightarrow> Inl e | Inr c' \<Rightarrow> apply_opts opts c')"

definition applyOptions :: "Option list \<Rightarrow> goerr + Config" where
  "applyOptions opts = apply_opts opts DefaultConfig"

record pgx_repo =
  tableName :: string
  backoffBase :: duration
  backoffMax :: duration
  stuckPublishingThreshold :: duration

definition NewOutboxRepository :: "Option list \<Rightarrow> goerr + pgx_repo" where
  "NewOutboxRepository opts =
     (case applyOptions opts of
        Inl e \<Rightarrow> Inl e
      | Inr cfg \<Rightarrow>
          (case ValidateTableName (OutboxTableName cfg) of
             Some err \<Rightarrow>
               Inl (WrapError (''invalid outbox table name '' @ CHR 0x22 # OutboxTableName cfg @ CHR 0x22 # '': '') err [])
           | None \<Rightarrow>
               Inr \<lparr>tableName = OutboxTableName cfg, backoffBase = RequeueBackoffBase cfg,
                    backoffMax = RequeueBackoffMax cfg,
                    stuckPublishingThreshold = StuckPublishingThreshold cfg\<rparr>))"

section \<open>Durations as PostgreSQL intervals (microseconds)\<close>

definition Seconds :: "duration \<Rightarrow> rat" where
  "Seconds d =
     (let sec = go_quot d second; nsec = d - sec * second
      in float64 (of_int sec + float64 (of_int nsec / 1000000000)))"

definition Microseconds :: "duration \<Rightarrow> int" where
  "Microseconds d = go_quot d 1000"

definition pg_backoff ::
  "pg_ctx \<Rightarrow> duration \<Rightarrow> duration \<Rightarrow> string \<Rightarrow> int \<Rightarrow> goerr + int" where
  "pg_backoff c base maxd i attempts =
     (case imul c 1000000 (Seconds base) of
        None \<Rightarrow> Inl interval_out_of_range
      | Some b \<Rightarrow>
          (case imul c b (2 powi attempts) of
             None \<Rightarrow> Inl interval_out_of_range
           | Some p \<Rightarrow>
               (case imul c 1000000 (Seconds maxd) of
                  None \<Rightarrow> Inl interval_out_of_range
                | Some m \<Rightarrow>
                    (case imul c (min p m) (1 / 2 + rnd c i * (1 / 2)) of
                       None \<Rightarrow> Inl interval_out_of_range
                     | Some d \<Rightarrow> Inr d))))"

section \<open>The statements\<close>

definition insert_stmt ::
  "pg_ctx \<Rightarrow> OutboxInsertParams \<Rightarrow> Outbox list \<Rightarrow> goerr + Outbox list \<times> Outbox" where
  "insert_stmt c params rs =
     (case int4 (p_MaxAttempts params) of
        Inl e \<Rightarrow> Inl e
      | Inr maxA \<Rightarrow>
     (case jsonb c (p_Payload params) of
        Inl e \<Rightarrow> Inl e
      | Inr None \<Rightarrow> Inl not_null_violation
      | Inr (Some payload) \<Rightarrow>
     (case jsonb c (p_Metadata params) of
        Inl e \<Rightarrow> Inl e
      | Inr metadata \<Rightarrow>
          let r = \<lparr>ID = new_uuid c, EventType = p_EventType params, Payload = Some payload,
                   Metadata = metadata, IdempotencyKey = p_IdempotencyKey params,
                   Status = OutboxStatusEnqueued, ErrorMessage = None, AttemptCount = 1,
                   MaxAttempts = maxA, NextRetryAt = None,
                   CreatedAt = clock c (new_uuid c) 0, UpdatedAt = clock c (new_uuid c) 1\<rparr>
          in if ID r \<in> ID ` set rs \<or>
               (EventType r, IdempotencyKey r) \<in> (\<lambda>x. (EventType x, IdempotencyKey x)) ` set rs
             then Inl unique_violation
             else Inr (rs @ [r], r))))"

definition fetch_candidates :: "pg_ctx \<Rightarrow> nat \<Rightarrow> Outbox list \<Rightarrow> string list" where
  "fetch_candidates c n rs =
     map ID (take n (sort_key CreatedAt
       (filter (\<lambda>r. Status r = OutboxStatusEnqueued \<and> \<not> locked c (ID r)) rs)))"

definition mark_publishing :: "pg_ctx \<Rightarrow> Outbox \<Rightarrow> Outbox" where
  "mark_publishing c r = r\<lparr>Status := OutboxStatusPublishing, UpdatedAt := clock c (ID r) 0\<rparr>"

definition fetch_stmt :: "pg_ctx \<Rightarrow> int \<Rightarrow> Outbox list \<Rightarrow> goerr + Outbox list \<times> Outbox list" where
  "fetch_stmt c limit rs =
     (if limit < 0 then Inl negative_limit
      else
        let ids = fetch_candidates c (nat limit) rs
        in case sql_update (\<lambda>r. ID r \<in> set ids) (\<lambda>r. Inr (mark_publishing c r)) rs of
             Inl e \<Rightarrow> Inl e
           | Inr (rs', _) \<Rightarrow>
               Inr (rs', returning c (map (\<lambda>r. (mark_publishing c r)\<lparr>NextRetryAt := None\<rparr>)
                          (filter (\<lambda>r. ID r \<in> set ids) rs))))"

definition set_published :: "pg_ctx \<Rightarrow> Outbox \<Rightarrow> goerr + Outbox" where
  "set_published c r = Inr (r\<lparr>Status := OutboxStatusPublished, UpdatedAt := clock c (ID r) 0\<rparr>)"

definition set_failed :: "pgx_repo \<Rightarrow> pg_ctx \<Rightarrow> string \<Rightarrow> Outbox \<Rightarrow> goerr + Outbox" where
  "set_failed rp c errMsg r =
     (case int4 (AttemptCount r + 1) of
        Inl e \<Rightarrow> Inl e
      | Inr a \<Rightarrow>
          (case pg_backoff c (backoffBase rp) (backoffMax rp) (ID r) (AttemptCount r) of
             Inl e \<Rightarrow> Inl e
           | Inr d \<Rightarrow>
               Inr (r\<lparr>Status := OutboxStatusFailed, ErrorMessage := Some errMsg, AttemptCount := a,
                      NextRetryAt := Some (clock c (ID r) 0 + d), UpdatedAt := clock c (ID r) 1\<rparr>)))"

definition set_dead :: "pg_ctx \<Rightarrow> string \<Rightarrow> Outbox \<Rightarrow> goerr + Outbox" where
  "set_dead c errMsg r =
     (case int4 (AttemptCount r + 1) of
        Inl e \<Rightarrow> Inl e
      | Inr a \<Rightarrow>
          Inr (r\<lparr>Status := OutboxStatusDead, ErrorMessage := Some errMsg,
                 AttemptCount := min a (MaxAttempts r), UpdatedAt := clock c (ID r) 0\<rparr>))"

definition set_enqueued :: "pg_ctx \<Rightarrow> Outbox \<Rightarrow> goerr + Outbox" where
  "set_enqueued c r = Inr (r\<lparr>Status := OutboxStatusEnqueued, UpdatedAt := clock c (ID r) 0\<rparr>)"

definition requeue_due :: "pg_ctx \<Rightarrow> Outbox \<Rightarrow> bool" where
  "requeue_due c r \<longleftrightarrow>
     Status r = OutboxStatusFailed \<and> AttemptCount r < MaxAttempts r \<and>
     (case NextRetryAt r of None \<Rightarrow> False | Some t \<Rightarrow> t \<le> clock c (ID r) 1)"

definition revived_text :: string where
  "revived_text = ''revived from PUBLISHING (crash recovery)''"

definition set_revived :: "pgx_repo \<Rightarrow> pg_ctx \<Rightarrow> Outbox \<Rightarrow> goerr + Outbox" where
  "set_revived rp c r =
     (case int4 (AttemptCount r + 1) of
        Inl e \<Rightarrow> Inl e
      | Inr a \<Rightarrow>
          if a \<ge> MaxAttempts r then
            Inr (r\<lparr>Status := OutboxStatusDead,
                   ErrorMessage := Some (revived_text @ '' - max attempts reached''),
                   AttemptCount := min a (MaxAttempts r), NextRetryAt := None,
                   UpdatedAt := clock c (ID r) 1\<rparr>)
          else
            (case pg_backoff c (backoffBase rp) (backoffMax rp) (ID r) (AttemptCount r) of
               Inl e \<Rightarrow> Inl e
             | Inr d \<Rightarrow>
                 Inr (r\<lparr>Status := OutboxStatusFailed, ErrorMessage := Some revived_text,
                        AttemptCount := min a (MaxAttempts r),
                        NextRetryAt := Some (clock c (ID r) 0 + d),
                        UpdatedAt := clock c (ID r) 1\<rparr>)))"

definition stuck :: "pgx_repo \<Rightarrow> pg_ctx \<Rightarrow> Outbox \<Rightarrow> bool" where
  "stuck rp c r \<longleftrightarrow>
     Status r = OutboxStatusPublishing \<and>
     UpdatedAt r < clock c (ID r) 2 - to_int64 (Seconds (stuckPublishingThreshold rp)) * 1000000"

section \<open>The operations\<close>

definition pgx_Insert ::
  "pgx_repo \<Rightarrow> pg_ctx \<Rightarrow> OutboxInsertParams \<Rightarrow> Outbox list \<Rightarrow> (goerr + Outbox) \<times> Outbox list" where
  "pgx_Insert rp c params rs =
     (case run_statement (outcome c)
        (text_args [p_EventType params, p_IdempotencyKey params] (insert_stmt c params)) rs of
        (Inl e, rs') \<Rightarrow>
          (if errors_As_PgError e = Some ''23505'' then Inl (Sentinel ErrAlreadyExists) else Inl e, rs')
      | (Inr r, rs') \<Rightarrow> (Inr r, rs'))"

definition pgx_FetchAndLockToPublishing ::
  "pgx_repo \<Rightarrow> pg_ctx \<Rightarrow> Outbox list \<Rightarrow> (goerr + Outbox) \<times> Outbox list" where
  "pgx_FetchAndLockToPublishing rp c rs =
     (case run_statement (outcome c) (fetch_stmt c 1) rs of
        (Inl e, rs') \<Rightarrow>
          (if errors_Is e PgxErrNoRows then Inl (Sentinel ErrNoMessage) else Inl e, rs')
      | (Inr [], rs') \<Rightarrow> (Inl (Sentinel ErrNoMessage), rs')
      | (Inr (m # _), rs') \<Rightarrow> (Inr m, rs'))"

definition expect_affected :: "string \<Rightarrow> (goerr + nat) \<times> 's \<Rightarrow> goerr option \<times> 's" where
  "expect_affected i res =
     (case res of
        (Inl e, s) \<Rightarrow> (Some e, s)
      | (Inr n, s) \<Rightarrow>
          (if n = 0
           then Some (WrapError [] (Sentinel ErrInvalidStatus)
                  ('': expected PUBLISHING status for message '' @ i))
           else None, s))"

abbreviation publishing_row :: "string \<Rightarrow> Outbox \<Rightarrow> bool" where
  "publishing_row i \<equiv> \<lambda>r. ID r = i \<and> Status r = OutboxStatusPublishing"

definition pgx_UpdateToPublished ::
  "pgx_repo \<Rightarrow> pg_ctx \<Rightarrow> string \<Rightarrow> Outbox list \<Rightarrow> goerr option \<times> Outbox list" where
  "pgx_UpdateToPublished rp c i rs =
     expect_affected i
       (run_statement (outcome c) (sql_update (publishing_row i) (set_published c)) rs)"

definition pgx_UpdateToFailed ::
  "pgx_repo \<Rightarrow> pg_ctx \<Rightarrow> string \<Rightarrow> string \<Rightarrow> Outbox list \<Rightarrow> goerr option \<times> Outbox list" where
  "pgx_UpdateToFailed rp c i errMsg rs =
     expect_affected i
       (run_statement (outcome c)
         (text_args [errMsg] (sql_update (publishing_row i) (set_failed rp c errMsg))) rs)"

definition pgx_UpdateToDead ::
  "pgx_repo \<Rightarrow> pg_ctx \<Rightarrow> string \<Rightarrow> string \<Rightarrow> Outbox list \<Rightarrow> goerr option \<times> Outbox list" where
  "pgx_UpdateToDead rp c i errMsg rs =
     expect_affected i
       (run_statement (outcome c)
         (text_args [errMsg] (sql_update (publishing_row i) (set_dead c errMsg))) rs)"

definition rows_affected :: "(goerr + nat) \<times> 's \<Rightarrow> (goerr + int) \<times> 's" where
  "rows_affected res = (case res of (Inl e, s) \<Rightarrow> (Inl e, s) | (Inr n, s) \<Rightarrow> (Inr (int n), s))"

definition pgx_RequeueFailed :: "pgx_repo \<Rightarrow> pg_ctx \<Rightarrow> Outbox list \<Rightarrow> (goerr + int) \<times> Outbox list" where
  "pgx_RequeueFailed rp c rs =
     rows_affected (run_statement (outcome c) (sql_update (requeue_due c) (set_enqueued c)) rs)"

definition pgx_GetByID :: "pgx_repo \<Rightarrow> pg_ctx \<Rightarrow> string \<Rightarrow> Outbox list \<Rightarrow> goerr + Outbox" where
  "pgx_GetByID rp c i rs =
     (case run_query (outcome c)
        (case find (\<lambda>r. ID r = i) rs of None \<Rightarrow> Inl (Sentinel PgxErrNoRows) | Some r \<Rightarrow> Inr r) of
        Inl e \<Rightarrow> if errors_Is e PgxErrNoRows then Inl (Sentinel ErrNotFound) else Inl e
      | Inr r \<Rightarrow> Inr r)"

definition pgx_GetByIdempotencyKey ::
  "pgx_repo \<Rightarrow> pg_ctx \<Rightarrow> string \<Rightarrow> string \<Rightarrow> Outbox list \<Rightarrow> goerr + Outbox" where
  "pgx_GetByIdempotencyKey rp c eventType idempotencyKey rs =
     (case run_query (outcome c)
        (text_args [eventType, idempotencyKey]
           (\<lambda>rs. case find (\<lambda>r. EventType r = eventType \<and> IdempotencyKey r = idempotencyKey) rs of
              None \<Rightarrow> Inl (Sentinel PgxErrNoRows) | Some r \<Rightarrow> Inr r) rs) of
        Inl e \<Rightarrow> if errors_Is e PgxErrNoRows then Inl (Sentinel ErrNotFound) else Inl e
      | Inr r \<Rightarrow> Inr r)"

definition pgx_InsertOutboxJSONWithMetadata ::
  "('p \<Rightarrow> goerr + string) \<Rightarrow> pgx_repo \<Rightarrow> pg_ctx \<Rightarrow> string \<Rightarrow> 'p \<Rightarrow> 'p option \<Rightarrow> string \<Rightarrow> int \<Rightarrow>
   Outbox list \<Rightarrow> (goerr + Outbox) \<times> Outbox list" where
  "pgx_InsertOutboxJSONWithMetadata marshal rp c eventType payload metadata idempotencyKey maxRetries rs =
     (case marshal payload of
        Inl err \<Rightarrow> (Inl err, rs)
      | Inr data \<Rightarrow>
          (case (case metadata of None \<Rightarrow> Inr None | Some m \<Rightarrow>
                   (case marshal m of Inl err \<Rightarrow> Inl err | Inr b \<Rightarrow> Inr (Some b))) of
             Inl err \<Rightarrow> (Inl err, rs)
           | Inr metadataBytes \<Rightarrow>
               pgx_Insert rp c \<lparr>p_EventType = eventType, p_Payload = Some data,
                 p_Metadata = metadataBytes, p_IdempotencyKey = idempotencyKey,
                 p_MaxAttempts = maxRetries\<rparr> rs))"

definition pgx_InsertOutboxJSON ::
  "('p \<Rightarrow> goerr + string) \<Rightarrow> pgx_repo \<Rightarrow> pg_ctx \<Rightarrow> string \<Rightarrow> 'p \<Rightarrow> string \<Rightarrow> int \<Rightarrow>
   Outbox list \<Rightarrow> (goerr + Outbox) \<times> Outbox list" where
  "pgx_InsertOutboxJSON marshal rp c eventType payload idempotencyKey maxRetries rs =
     pgx_InsertOutboxJSONWithMetadata marshal rp c eventType payload None idempotencyKey maxRetries rs"

definition pgx_ReviveStuckPublishing ::
  "pgx_repo \<Rightarrow> pg_ctx \<Rightarrow> Outbox list \<Rightarrow> (goerr + int) \<times> Outbox list" where
  "pgx_ReviveStuckPublishing rp c rs =
     rows_affected (run_statement (outcome c) (sql_update (stuck rp c) (set_revived rp c)) rs)"

definition pgx_FetchLockAndMarkPublishing ::
  "pgx_repo \<Rightarrow> pg_ctx \<Rightarrow> int \<Rightarrow> Outbox list \<Rightarrow> (goerr + Outbox list) \<times> Outbox list" where
  "pgx_FetchLockAndMarkPublishing rp c limit rs =
     run_statement (outcome c) (fetch_stmt c limit) rs"

definition pgx_UpdateBatchToPublished ::
  "pgx_repo \<Rightarrow> pg_ctx \<Rightarrow> string list \<Rightarrow> Outbox list \<Rightarrow> (goerr + int) \<times> Outbox list" where
  "pgx_UpdateBatchToPublished rp c ids rs =
     (if ids = [] then (Inr 0, rs)
      else rows_affected (run_statement (outcome c)
             (sql_update (\<lambda>r. ID r \<in> set ids \<and> Status r = OutboxStatusPublishing) (set_published c)) rs))"

definition pgx_DeleteOlderThan ::
  "pgx_repo \<Rightarrow> pg_ctx \<Rightarrow> OutboxStatus list \<Rightarrow> duration \<Rightarrow> Outbox list \<Rightarrow> (goerr + int) \<times> Outbox list" where
  "pgx_DeleteOlderThan rp c statuses olderThan rs =
     (if statuses = [] then (Inl (ErrorString ''at least one status must be specified''), rs)
      else rows_affected (run_statement (outcome c)
             (sql_delete (\<lambda>r. Status r \<in> set statuses \<and>
                UpdatedAt r < clock c (ID r) 0 - Microseconds olderThan)) rs))"

definition pgx_repository :: "pgx_repo \<Rightarrow> (pg_ctx, Outbox list) BatchOutboxRepository" where
  "pgx_repository rp =
     \<lparr>Insert = pgx_Insert rp, FetchAndLockToPublishing = pgx_FetchAndLockToPublishing rp,
      UpdateToPublished = pgx_UpdateToPublished rp, UpdateToFailed = pgx_UpdateToFailed rp,
      UpdateToDead = pgx_UpdateToDead rp, RequeueFailed = pgx_RequeueFailed rp,
      GetByID = pgx_GetByID rp, GetByIdempotencyKey = pgx_GetByIdempotencyKey rp,
      FetchLockAndMarkPublishing = pgx_FetchLockAndMarkPublishing rp,
      UpdateBatchToPublished = pgx_UpdateBatchToPublished rp\<rparr>"

definition pgx_maintenance :: "pgx_repo \<Rightarrow> (pg_ctx, Outbox list) OutboxMaintenance" where
  "pgx_maintenance rp =
     \<lparr>DeleteOlderThan = pgx_DeleteOlderThan rp, ReviveStuckPublishing = pgx_ReviveStuckPublishing rp\<rparr>"

section \<open>Each row change is a step of the life cycle\<close>

lemma set_published_Inr: "set_published c r = Inr r' \<Longrightarrow> became_published r r'"
  by (auto simp: set_published_def became_published_def)

lemma set_failed_Inr: "set_failed rp c em r = Inr r' \<Longrightarrow> became_failed em r r'"
  by (auto simp: set_failed_def became_failed_def split: sum.splits)

lemma set_dead_Inr: "set_dead c em r = Inr r' \<Longrightarrow> became_dead em r r'"
  by (auto simp: set_dead_def became_dead_def split: sum.splits)

lemma set_enqueued_Inr: "set_enqueued c r = Inr r' \<Longrightarrow> became_enqueued r r'"
  by (auto simp: set_enqueued_def became_enqueued_def)

lemma set_revived_step:
  assumes "set_revived rp c r = Inr r'" "Status r = OutboxStatusPublishing"
  shows "row_step r r'"
proof (cases "AttemptCount r + 1 \<ge> MaxAttempts r")
  case True
  then have "row_step r (r\<lparr>Status := OutboxStatusDead, ErrorMessage := Some m,
      AttemptCount := MaxAttempts r, NextRetryAt := None, UpdatedAt := u\<rparr>)" for m u
    using row_step.give_up_revived[OF assms(2) True, where m = m and u = u] by simp
  with True assms show ?thesis by (auto simp: set_revived_def split: sum.splits)
next
  case False
  with assms show ?thesis
    by (auto simp: set_revived_def min_def split: sum.splits intro: row_step.failure)
qed

lemma pg_backoff_error: "pg_backoff c b m i n = Inl e \<Longrightarrow> e = interval_out_of_range"
  by (auto simp: pg_backoff_def split: option.splits)

lemma set_error:
  "set_published c r = Inl e \<Longrightarrow> foreign e"
  "set_failed rp c em r = Inl e \<Longrightarrow> foreign e"
  "set_dead c em r = Inl e \<Longrightarrow> foreign e"
  by (auto simp: set_published_def set_failed_def set_dead_def pg_error_defs split: sum.splits
      dest!: int4_Inl pg_backoff_error)

section \<open>The three updates that settle a picked-up row\<close>

lemma settles_update:
  assumes wf: "wf_table rs" and c: "wf_ctx c"
    and E: "\<And>r r'. f r = Inr r' \<Longrightarrow> E r r'" and key: "\<And>r r'. E r r' \<Longrightarrow> ID r' = ID r"
    and err: "\<And>r e. f r = Inl e \<Longrightarrow> foreign e"
  shows "settles row_of i E rs
     (expect_affected i
       (run_statement (outcome c) (text_args xs (sql_update (publishing_row i) f)) rs))"
proof -
  let ?stmt = "text_args xs (sql_update (publishing_row i) f)"
  have by_id: "(n = 0 \<and> row_of rs' = row_of rs \<and>
        (\<forall>r. row_of rs i = Some r \<longrightarrow> Status r \<noteq> OutboxStatusPublishing)) \<or>
      (n = 1 \<and> (\<exists>r r'. row_of rs i = Some r \<and> Status r = OutboxStatusPublishing \<and> E r r' \<and>
         row_of rs' = (row_of rs)(i \<mapsto> r')))"
    if "?stmt rs = Inr (rs', n)" for rs' n
    using sql_update_by_id[of ID i "\<lambda>r. Status r = OutboxStatusPublishing" f rs rs' n] that
      E key wf_table_ids[OF wf] by (simp, blast)
  have foreign: "foreign e" if "?stmt rs = Inl e" for e
    using text_args_Inl[OF that] by (auto simp: pg_error_defs dest!: sql_update_errorD dest: err)
  show ?thesis
  proof (cases rule: run_statement_cases[of ?stmt rs "outcome c"])
    case (answered s' a)
    with by_id[OF answered(1)] show ?thesis by (auto simp: settles_def expect_affected_def)
  next
    case (lost s' a e)
    with by_id[OF lost(1)] wf_ctx_outcome(1)[OF c lost(3)] show ?thesis
      by (auto simp: settles_def expect_affected_def foreign_not_Is)
  next
    case (refused e)
    with wf_ctx_outcome(2)[OF c refused(2)] show ?thesis
      by (auto simp: settles_def expect_affected_def foreign_not_Is)
  next
    case (failed e)
    with foreign show ?thesis by (auto simp: settles_def expect_affected_def foreign_not_Is)
  qed
qed

lemma pgx_UpdateToPublished_settles:
  "wf_table rs \<Longrightarrow> wf_ctx c \<Longrightarrow> settles row_of i became_published rs (pgx_UpdateToPublished rp c i rs)"
  using settles_update[of rs c "set_published c" became_published i "[]"]
  by (simp add: pgx_UpdateToPublished_def set_published_Inr effect_ID set_error)

lemma pgx_UpdateToFailed_settles:
  "wf_table rs \<Longrightarrow> wf_ctx c \<Longrightarrow> settles row_of i (became_failed em) rs (pgx_UpdateToFailed rp c i em rs)"
  unfolding pgx_UpdateToFailed_def
  by (rule settles_update) (simp_all add: set_failed_Inr effect_ID set_error)

lemma pgx_UpdateToDead_settles:
  "wf_table rs \<Longrightarrow> wf_ctx c \<Longrightarrow> settles row_of i (became_dead em) rs (pgx_UpdateToDead rp c i em rs)"
  unfolding pgx_UpdateToDead_def
  by (rule settles_update) (simp_all add: set_dead_Inr effect_ID set_error)

section \<open>Every operation but insert and delete lets the table evolve by row steps\<close>

lemma run_statement_evolves:
  assumes "\<And>rs' a. stmt rs = Inr (rs', a) \<Longrightarrow> table_evolves rs rs'"
  shows "table_evolves rs (snd (run_statement w stmt rs))"
  using assms by (cases rule: run_statement_cases[of stmt rs w]) auto

lemma snd_expect_affected [simp]: "snd (expect_affected i res) = snd res"
  by (auto simp: expect_affected_def split: prod.splits sum.splits)

lemma snd_rows_affected [simp]: "snd (rows_affected res) = snd res"
  by (auto simp: rows_affected_def split: prod.splits sum.splits)

lemma fetch_candidates_enqueued:
  assumes "wf_table rs" "r \<in> set rs" "ID r \<in> set (fetch_candidates c n rs)"
  shows "Status r = OutboxStatusEnqueued \<and> \<not> locked c (ID r)"
proof -
  from assms(3) obtain r' where "r' \<in> set rs" "ID r' = ID r" "Status r' = OutboxStatusEnqueued"
    "\<not> locked c (ID r')"
    by (auto simp: fetch_candidates_def dest!: in_set_takeD)
  with wf_table_ids[OF assms(1)] assms(2) show ?thesis
    by (metis lookup_by_in_set option.inject)
qed

lemma mark_publishing_picked_up: "picked_up r (mark_publishing c r)"
  by (auto simp: mark_publishing_def picked_up_def)

lemma fetch_stmt_evolves:
  assumes wf: "wf_table rs" and f: "fetch_stmt c n rs = Inr (rs', ms)"
  shows "table_evolves rs rs'"
proof -
  let ?P = "\<lambda>r. ID r \<in> set (fetch_candidates c (nat n) rs)"
  from f obtain k where u: "sql_update ?P (\<lambda>r. Inr (mark_publishing c r)) rs = Inr (rs', k)"
    by (auto simp: fetch_stmt_def Let_def split: if_splits sum.splits)
  show ?thesis
    by (rule sql_update_evolves[OF u])
      (use fetch_candidates_enqueued[OF wf] mark_publishing_picked_up in blast)
qed

lemma snd_pgx_fetch:
  "snd (pgx_FetchAndLockToPublishing rp c rs) = snd (run_statement (outcome c) (fetch_stmt c 1) rs)"
  by (auto simp: pgx_FetchAndLockToPublishing_def split: prod.splits sum.splits list.splits)

lemma pgx_evolves:
  "wf_table rs \<Longrightarrow> table_evolves rs (snd (pgx_FetchAndLockToPublishing rp c rs))"
  "table_evolves rs (snd (pgx_UpdateToPublished rp c i rs))"
  "table_evolves rs (snd (pgx_UpdateToFailed rp c i em rs))"
  "table_evolves rs (snd (pgx_UpdateToDead rp c i em rs))"
  "table_evolves rs (snd (pgx_RequeueFailed rp c rs))"
  "wf_table rs \<Longrightarrow> table_evolves rs (snd (pgx_FetchLockAndMarkPublishing rp c n rs))"
  "table_evolves rs (snd (pgx_UpdateBatchToPublished rp c ids rs))"
  "table_evolves rs (snd (pgx_ReviveStuckPublishing rp c rs))"
proof -
  note evolves = run_statement_evolves sql_update_evolves
  note fetch = run_statement_evolves[OF fetch_stmt_evolves]
  show "wf_table rs \<Longrightarrow> table_evolves rs (snd (pgx_FetchAndLockToPublishing rp c rs))"
    unfolding snd_pgx_fetch by (rule fetch)
  show "wf_table rs \<Longrightarrow> table_evolves rs (snd (pgx_FetchLockAndMarkPublishing rp c n rs))"
    unfolding pgx_FetchLockAndMarkPublishing_def by (rule fetch)
  show "table_evolves rs (snd (pgx_UpdateToPublished rp c i rs))"
    by (auto simp: pgx_UpdateToPublished_def dest: set_published_Inr intro!: evolves)
  show "table_evolves rs (snd (pgx_UpdateToFailed rp c i em rs))"
    by (auto simp: pgx_UpdateToFailed_def dest: set_failed_Inr intro!: evolves)
  show "table_evolves rs (snd (pgx_UpdateToDead rp c i em rs))"
    by (auto simp: pgx_UpdateToDead_def dest: set_dead_Inr intro!: evolves)
  show "table_evolves rs (snd (pgx_RequeueFailed rp c rs))"
    by (auto simp: pgx_RequeueFailed_def requeue_due_def dest: set_enqueued_Inr intro!: evolves)
  show "table_evolves rs (snd (pgx_UpdateBatchToPublished rp c ids rs))"
    by (auto simp: pgx_UpdateBatchToPublished_def dest: set_published_Inr intro!: evolves)
  show "table_evolves rs (snd (pgx_ReviveStuckPublishing rp c rs))"
    by (auto simp: pgx_ReviveStuckPublishing_def stuck_def set_revived_step intro!: evolves)
qed

section \<open>Fetching\<close>

lemma fetch_stmt_rows:
  assumes wf: "wf_table rs" and c: "wf_ctx c" and f: "fetch_stmt c n rs = Inr (rs', ms)"
  shows "distinct (map ID ms) \<and> int (length ms) \<le> n \<and> (\<forall>m \<in> set ms. fetched row_of rs rs' m) \<and>
    (\<forall>i. i \<notin> ID ` set ms \<longrightarrow> row_of rs' i = row_of rs i)"
proof -
  let ?ids = "fetch_candidates c (nat n) rs"
  let ?P = "\<lambda>r. ID r \<in> set ?ids"
  let ?f = "\<lambda>r. (mark_publishing c r)\<lparr>NextRetryAt := None\<rparr>"
  from f obtain k where n: "0 \<le> n"
    and u: "sql_update ?P (\<lambda>r. Inr (mark_publishing c r)) rs = Inr (rs', k)"
    and ms: "ms = returning c (map ?f (filter ?P rs))"
    by (auto simp: fetch_stmt_def Let_def split: if_splits sum.splits)
  note d = wf_table_ids[OF wf]
  have mset: "mset ms = mset (map ?f (filter ?P rs))" using c by (simp add: ms wf_ctx_def)
  then have set_ms: "set ms = ?f ` {r \<in> set rs. ?P r}"
    unfolding set_filter[symmetric] set_map[symmetric] by (rule mset_eq_setD)
  have ids: "mset (map ID ms) = mset (filter (\<lambda>i. i \<in> set ?ids) (map ID rs))"
  proof -
    have "mset (map ID ms) = mset (map ID (map ?f (filter ?P rs)))"
      by (simp only: mset_map mset)
    also have "map ID (map ?f (filter ?P rs)) = filter (\<lambda>i. i \<in> set ?ids) (map ID rs)"
      by (simp add: mark_publishing_def filter_map comp_def)
    finally show ?thesis .
  qed
  have dist: "distinct (map ID ms)"
    using ids d distinct_filter mset_eq_imp_distinct_iff by metis
  have len: "length ms \<le> nat n"
  proof -
    have "length ms = card (ID ` set ms)"
      using dist distinct_card[OF dist] by simp
    also have "\<dots> \<le> card (set ?ids)"
      by (intro card_mono) (auto simp: set_ms mark_publishing_def)
    also have "\<dots> \<le> length ?ids" by (rule card_length)
    also have "\<dots> \<le> nat n" by (simp add: fetch_candidates_def)
    finally show ?thesis .
  qed
  have rel: "rel_option (updated_row ?P (\<lambda>r. Inr (mark_publishing c r))) (row_of rs i) (row_of rs' i)" for i
    by (rule sql_update_lookup[OF u]) (auto simp: mark_publishing_def)
  have "fetched row_of rs rs' m" if "m \<in> set ms" for m
  proof -
    from that obtain r where r: "r \<in> set rs" "?P r" "m = ?f r" by (auto simp: set_ms)
    then have "row_of rs (ID m) = Some r"
      using lookup_by_in_set[OF d] by (simp add: mark_publishing_def)
    moreover from this rel[of "ID m"] r have "row_of rs' (ID m) = Some (mark_publishing c r)"
      by (auto simp: option_rel_Some1)
    ultimately show ?thesis
      using r fetch_candidates_enqueued[OF wf r(1,2)] mark_publishing_picked_up[of r c]
      by (auto simp: fetched_def)
  qed
  moreover have "row_of rs' i = row_of rs i" if "i \<notin> ID ` set ms" for i
  proof (cases "row_of rs i")
    case (Some r)
    have "ID ` set ms = ID ` {r \<in> set rs. ?P r}"
      by (simp add: set_ms image_image mark_publishing_def)
    with that Some have "\<not> ?P r" by (auto dest: lookup_by_SomeD)
    with rel[of i] Some show ?thesis by (auto simp: option_rel_Some1)
  qed (use rel[of i] in auto)
  ultimately show ?thesis using dist len n by auto
qed

lemma fetch_stmt_effect:
  assumes "wf_table rs" "wf_ctx c" "fetch_stmt c n rs = Inr (rs', ms)"
  shows "rel_option maybe_picked_up (row_of rs i) (row_of rs' i)"
proof (cases "i \<in> ID ` set ms")
  case True
  with fetch_stmt_rows[OF assms] have "\<exists>m. ID m = i \<and> fetched row_of rs rs' m" by auto
  then show ?thesis by (auto simp: fetched_def maybe_picked_up_def)
next
  case False
  with fetch_stmt_rows[OF assms] show ?thesis by (auto simp: maybe_picked_up_def intro: option.rel_refl)
qed

lemma run_fetch_effect:
  assumes "wf_table rs" "wf_ctx c"
  shows "rel_option maybe_picked_up (row_of rs i)
    (row_of (snd (run_statement (outcome c) (fetch_stmt c n) rs)) i)"
  using fetch_stmt_effect[OF assms]
  by (cases rule: run_statement_cases[of "fetch_stmt c n" rs "outcome c"])
    (auto simp: maybe_picked_up_def intro: option.rel_refl)

lemma pgx_requeue_rows:
  "rel_option maybe_requeued (row_of rs i) (row_of (snd (pgx_RequeueFailed rp c rs)) i)"
proof -
  let ?u = "sql_update (requeue_due c) (set_enqueued c)"
  have step: "rel_option maybe_requeued (row_of rs i) (row_of rs' i)" if "?u rs = Inr (rs', n)" for rs' n
  proof -
    have "rel_option (updated_row (requeue_due c) (set_enqueued c)) (row_of rs i) (row_of rs' i)"
      by (rule sql_update_lookup[OF that]) (auto dest: set_enqueued_Inr effect_ID)
    then show ?thesis
      by (rule option.rel_mono_strong)
        (auto simp: updated_row_def maybe_requeued_def requeue_due_def CanRetry_def
          dest: set_enqueued_Inr split: if_splits)
  qed
  show ?thesis
    by (cases rule: run_statement_cases[of ?u rs "outcome c"])
      (auto simp: pgx_RequeueFailed_def maybe_requeued_def step intro: option.rel_refl)
qed

lemma fetch_stmt_error: "fetch_stmt c n rs = Inl e \<Longrightarrow> e = negative_limit"
  using sql_update_errorD[of _ "\<lambda>r. Inr (mark_publishing c r)" rs e]
  by (auto simp: fetch_stmt_def Let_def split: if_splits sum.splits dest!: sql_update_errorD)

lemma pgx_Fetch_ok:
  assumes "wf_table rs" "wf_ctx c" "pgx_FetchAndLockToPublishing rp c rs = (Inr m, rs')"
  shows "fetched row_of rs rs' m \<and> (\<forall>i. i \<noteq> ID m \<longrightarrow> row_of rs' i = row_of rs i)"
proof -
  from assms(3) obtain ms where "fetch_stmt c 1 rs = Inr (rs', m # ms)"
    by (cases rule: run_statement_cases[of "fetch_stmt c 1" rs "outcome c"])
      (auto simp: pgx_FetchAndLockToPublishing_def split: list.splits if_splits)
  from fetch_stmt_rows[OF assms(1,2) this] show ?thesis by auto
qed

lemma pgx_Fetch_no_message:
  assumes wf: "wf_table rs" and c: "wf_ctx c"
    and f: "pgx_FetchAndLockToPublishing rp c rs = (Inl e, rs')" and e: "errors_Is e ErrNoMessage"
  shows "row_of rs' = row_of rs"
proof (cases rule: run_statement_cases[of "fetch_stmt c 1" rs "outcome c"])
  case (answered s' a)
  with f e have "fetch_stmt c 1 rs = Inr (rs', [])"
    by (auto simp: pgx_FetchAndLockToPublishing_def split: list.splits if_splits)
  from fetch_stmt_rows[OF wf c this] show ?thesis by (simp add: fun_eq_iff)
next
  case (lost s' a e')
  with f e wf_ctx_outcome(1)[OF c lost(3)] show ?thesis
    by (auto simp: pgx_FetchAndLockToPublishing_def foreign_not_Is)
qed (use f in \<open>auto simp: pgx_FetchAndLockToPublishing_def split: if_splits\<close>)

section \<open>Marking a batch published\<close>

lemma batch_stmt_rows:
  assumes wf: "wf_table rs"
    and u: "sql_update (\<lambda>r. ID r \<in> set ids \<and> Status r = OutboxStatusPublishing) (set_published c) rs
              = Inr (rs', k)"
  shows "(\<forall>i. if i \<in> set ids \<and> (\<exists>r. row_of rs i = Some r \<and> Status r = OutboxStatusPublishing)
         then rel_option became_published (row_of rs i) (row_of rs' i)
         else row_of rs' i = row_of rs i) \<and>
      k = card {i \<in> set ids. \<exists>r. row_of rs i = Some r \<and> Status r = OutboxStatusPublishing}"
proof -
  let ?P = "\<lambda>r. ID r \<in> set ids \<and> Status r = OutboxStatusPublishing"
  note d = wf_table_ids[OF wf]
  have rel: "rel_option (updated_row ?P (set_published c)) (row_of rs i) (row_of rs' i)" for i
    by (rule sql_update_lookup[OF u]) (auto dest: set_published_Inr effect_ID)
  have row: "if i \<in> set ids \<and> (\<exists>r. row_of rs i = Some r \<and> Status r = OutboxStatusPublishing)
         then rel_option became_published (row_of rs i) (row_of rs' i)
         else row_of rs' i = row_of rs i" for i
  proof (cases "row_of rs i")
    case (Some r)
    then have "ID r = i" by (auto dest: lookup_by_SomeD)
    show ?thesis
    proof (cases "?P r")
      case True
      with rel[of i] Some have "rel_option became_published (row_of rs i) (row_of rs' i)"
        by (auto simp: option_rel_Some1 dest: set_published_Inr)
      with Some True \<open>ID r = i\<close> show ?thesis by simp
    next
      case False
      with rel[of i] Some \<open>ID r = i\<close> show ?thesis by (auto simp: option_rel_Some1)
    qed
  qed (use rel[of i] in auto)
  have "k = length (filter ?P rs)" using sql_update_list_all2[OF u] by simp
  also have "\<dots> = length (map ID (filter ?P rs))" by simp
  also have "\<dots> = card (ID ` set (filter ?P rs))"
    using distinct_card[OF distinct_map_filter[OF d, of ?P]] by (simp only: list.set_map)
  also have "ID ` set (filter ?P rs) =
      {i \<in> set ids. \<exists>r. row_of rs i = Some r \<and> Status r = OutboxStatusPublishing}"
    by (auto simp: lookup_by_eq_Some[OF d])
  finally show ?thesis using row by blast
qed

lemma pgx_batch_published_ok:
  assumes "wf_table rs" "pgx_UpdateBatchToPublished rp c ids rs = (Inr k, rs')"
  shows "(\<forall>i. if i \<in> set ids \<and> (\<exists>r. row_of rs i = Some r \<and> Status r = OutboxStatusPublishing)
         then rel_option became_published (row_of rs i) (row_of rs' i)
         else row_of rs' i = row_of rs i) \<and>
      k = int (card {i \<in> set ids. \<exists>r. row_of rs i = Some r \<and> Status r = OutboxStatusPublishing})"
proof (cases "ids = []")
  case False
  let ?u = "sql_update (\<lambda>r. ID r \<in> set ids \<and> Status r = OutboxStatusPublishing) (set_published c)"
  from assms(2) False obtain n where "?u rs = Inr (rs', n)" "k = int n"
    by (cases rule: run_statement_cases[of ?u rs "outcome c"])
      (auto simp: pgx_UpdateBatchToPublished_def rows_affected_def)
  with batch_stmt_rows[OF assms(1)] show ?thesis by blast
qed (use assms(2) in \<open>auto simp: pgx_UpdateBatchToPublished_def\<close>)

lemma pgx_batch_published_err:
  assumes "wf_table rs" "pgx_UpdateBatchToPublished rp c ids rs = (Inl e, rs')"
  shows "if i \<in> set ids \<and> (\<exists>r. row_of rs i = Some r \<and> Status r = OutboxStatusPublishing)
      then row_of rs' i = row_of rs i \<or> rel_option became_published (row_of rs i) (row_of rs' i)
      else row_of rs' i = row_of rs i"
proof -
  let ?u = "sql_update (\<lambda>r. ID r \<in> set ids \<and> Status r = OutboxStatusPublishing) (set_published c)"
  from assms(2) have "rs' = rs \<or> (\<exists>n. ?u rs = Inr (rs', n))"
    by (cases rule: run_statement_cases[of ?u rs "outcome c"])
      (auto simp: pgx_UpdateBatchToPublished_def rows_affected_def split: if_splits)
  then show ?thesis
  proof
    assume "\<exists>n. ?u rs = Inr (rs', n)"
    then obtain n where "?u rs = Inr (rs', n)" ..
    from batch_stmt_rows[OF assms(1) this, THEN conjunct1, THEN spec, of i]
    show ?thesis by (simp split: if_splits)
  qed simp
qed

section \<open>The pgx repository meets the contract of the dispatchers\<close>

interpretation pgx: batch_outbox_repository "pgx_repository rp" row_of wf_table wf_ctx for rp
proof
  note wf = table_evolves_wf
  fix s c i em m s' n ids ms k e
  assume s: "wf_table s" and c: "wf_ctx c"
  show "wf_table (snd (FetchAndLockToPublishing (pgx_repository rp) c s))"
    "wf_table (snd (UpdateToPublished (pgx_repository rp) c i s))"
    "wf_table (snd (UpdateToFailed (pgx_repository rp) c i em s))"
    "wf_table (snd (UpdateToDead (pgx_repository rp) c i em s))"
    "wf_table (snd (RequeueFailed (pgx_repository rp) c s))"
    "wf_table (snd (FetchLockAndMarkPublishing (pgx_repository rp) c n s))"
    "wf_table (snd (UpdateBatchToPublished (pgx_repository rp) c ids s))"
    using s by (simp_all add: pgx_repository_def wf[OF pgx_evolves(1)] wf[OF pgx_evolves(2)]
        wf[OF pgx_evolves(3)] wf[OF pgx_evolves(4)] wf[OF pgx_evolves(5)] wf[OF pgx_evolves(6)]
        wf[OF pgx_evolves(7)])
  show "settles row_of i became_published s (UpdateToPublished (pgx_repository rp) c i s)"
    "settles row_of i (became_failed em) s (UpdateToFailed (pgx_repository rp) c i em s)"
    "settles row_of i (became_dead em) s (UpdateToDead (pgx_repository rp) c i em s)"
    using s c by (simp_all add: pgx_repository_def pgx_UpdateToPublished_settles
        pgx_UpdateToFailed_settles pgx_UpdateToDead_settles)
  show "rel_option maybe_requeued (row_of s i) (row_of (snd (RequeueFailed (pgx_repository rp) c s)) i)"
    by (simp add: pgx_repository_def pgx_requeue_rows)
  show "FetchAndLockToPublishing (pgx_repository rp) c s = (Inr m, s') \<Longrightarrow>
      fetched row_of s s' m \<and> (\<forall>i. i \<noteq> ID m \<longrightarrow> row_of s' i = row_of s i)"
    using pgx_Fetch_ok[OF s c] by (simp add: pgx_repository_def)
  show "FetchAndLockToPublishing (pgx_repository rp) c s = (Inl e, s') \<Longrightarrow>
      errors_Is e ErrNoMessage \<Longrightarrow> row_of s' = row_of s"
    using pgx_Fetch_no_message[OF s c] by (simp add: pgx_repository_def)
  show "FetchAndLockToPublishing (pgx_repository rp) c s = (Inl e, s') \<Longrightarrow>
      rel_option maybe_picked_up (row_of s i) (row_of s' i)"
    using run_fetch_effect[OF s c, of i 1] snd_pgx_fetch[of rp c s] by (simp add: pgx_repository_def)
  show "FetchLockAndMarkPublishing (pgx_repository rp) c n s = (Inr ms, s') \<Longrightarrow>
      distinct (map ID ms) \<and> int (length ms) \<le> max 0 n \<and> (\<forall>m \<in> set ms. fetched row_of s s' m) \<and>
      (\<forall>i. i \<notin> ID ` set ms \<longrightarrow> row_of s' i = row_of s i)"
    using fetch_stmt_rows[OF s c, of n s' ms]
    by (cases rule: run_statement_cases[of "fetch_stmt c n" s "outcome c"])
      (auto simp: pgx_repository_def pgx_FetchLockAndMarkPublishing_def)
  show "FetchLockAndMarkPublishing (pgx_repository rp) c n s = (Inl e, s') \<Longrightarrow>
      rel_option maybe_picked_up (row_of s i) (row_of s' i)"
    using run_fetch_effect[OF s c, of i n]
    by (simp add: pgx_repository_def pgx_FetchLockAndMarkPublishing_def)
  show "UpdateBatchToPublished (pgx_repository rp) c ids s = (Inr k, s') \<Longrightarrow>
      (\<forall>i. if i \<in> set ids \<and> (\<exists>r. row_of s i = Some r \<and> Status r = OutboxStatusPublishing)
         then rel_option became_published (row_of s i) (row_of s' i)
         else row_of s' i = row_of s i) \<and>
      k = int (card {i \<in> set ids. \<exists>r. row_of s i = Some r \<and> Status r = OutboxStatusPublishing})"
    using pgx_batch_published_ok[OF s] by (simp add: pgx_repository_def)
  show "UpdateBatchToPublished (pgx_repository rp) c ids s = (Inl e, s') \<Longrightarrow>
      if i \<in> set ids \<and> (\<exists>r. row_of s i = Some r \<and> Status r = OutboxStatusPublishing)
      then row_of s' i = row_of s i \<or> rel_option became_published (row_of s i) (row_of s' i)
      else row_of s' i = row_of s i"
    using pgx_batch_published_err[OF s] by (simp add: pgx_repository_def)
qed

end
