(* ===== verification/Pgx_Correct.thy ===== *)
theory Pgx_Correct
  imports Pgx_Repo
begin

text \<open>
  What the operations of the pgx repository do, branch by branch: insert and look up, fetch,
  requeue, crash recovery, clean up, the back-off, and every interleaving of the operations
  of any number of processes.
\<close>

section \<open>Insert\<close>

definition inserted :: "pg_ctx \<Rightarrow> OutboxInsertParams \<Rightarrow> Outbox \<Rightarrow> bool" where
  "inserted c params r \<longleftrightarrow>
     ID r = new_uuid c \<and> Status r = OutboxStatusEnqueued \<and> AttemptCount r = 1 \<and>
     ErrorMessage r = None \<and> NextRetryAt r = None \<and> EventType r = p_EventType params \<and>
     IdempotencyKey r = p_IdempotencyKey params \<and> MaxAttempts r = p_MaxAttempts params \<and>
     Payload r \<noteq> None \<and> jsonb c (p_Payload params) = Inr (Payload r) \<and>
     jsonb c (p_Metadata params) = Inr (Metadata r)"

text \<open>What the columns accept: text without a NUL byte, a payload and metadata that are JSON, a 32-bit bound.\<close>

definition storable :: "pg_ctx \<Rightarrow> OutboxInsertParams \<Rightarrow> bool" where
  "storable c params \<longleftrightarrow>
     list_all valid_text [p_EventType params, p_IdempotencyKey params] \<and>
     (\<exists>n. int4 (p_MaxAttempts params) = Inr n) \<and> (\<exists>p. jsonb c (p_Payload params) = Inr (Some p)) \<and>
     (\<exists>m. jsonb c (p_Metadata params) = Inr m)"

definition same_event :: "OutboxInsertParams \<Rightarrow> Outbox \<Rightarrow> bool" where
  "same_event params r \<longleftrightarrow>
     EventType r = p_EventType params \<and> IdempotencyKey r = p_IdempotencyKey params"

lemma same_event_image:
  "(p_EventType params, p_IdempotencyKey params) \<in> (\<lambda>x. (EventType x, IdempotencyKey x)) ` set rs \<longleftrightarrow>
     (\<exists>x \<in> set rs. same_event params x)"
  by (simp add: same_event_def image_iff) metis

lemma insert_stmt_Inr:
  "insert_stmt c params rs = Inr (rs', r) \<Longrightarrow>
     rs' = rs @ [r] \<and> inserted c params r \<and> ID r \<notin> ID ` set rs \<and> \<not> (\<exists>x \<in> set rs. same_event params x) \<and>
     int4 (p_MaxAttempts params) = Inr (p_MaxAttempts params)"
  by (auto simp: insert_stmt_def inserted_def same_event_image Let_def
      split: sum.splits option.splits if_splits)

lemma insert_stmt_violation:
  "insert_stmt c params rs = Inl e \<Longrightarrow> wf_ctx c \<Longrightarrow>
     errors_As_PgError e = Some ''23505'' \<longleftrightarrow>
       e = unique_violation \<and> (new_uuid c \<in> ID ` set rs \<or> (\<exists>x \<in> set rs. same_event params x))"
  by (auto simp: insert_stmt_def same_event_image Let_def pg_error_defs
      split: sum.splits option.splits if_splits dest: wf_ctx_no_violation dest!: int4_Inl)

lemma insert_stmt_foreign:
  "insert_stmt c params rs = Inl e \<Longrightarrow> wf_ctx c \<Longrightarrow> foreign e"
  by (auto simp: insert_stmt_def Let_def pg_error_defs wf_ctx_def broken_link_def
      split: sum.splits option.splits if_splits dest!: int4_Inl)

lemma wf_table_snoc:
  "wf_table rs \<Longrightarrow> ID r \<notin> ID ` set rs \<Longrightarrow>
   (EventType r, IdempotencyKey r) \<notin> (\<lambda>x. (EventType x, IdempotencyKey x)) ` set rs \<Longrightarrow>
   wf_table (rs @ [r])"
  by (simp add: wf_table_def)

lemma pgx_Insert_cases:
  assumes c: "wf_ctx c" and ins: "pgx_Insert rp c params rs = (res, rs')"
  obtains (added) r where "res = Inr r" "insert_stmt c params rs = Inr (rs', r)" "outcome c = Delivered"
  | (lost) r e where "res = Inl e" "insert_stmt c params rs = Inr (rs', r)" "foreign e"
      "errors_As_PgError e \<noteq> Some ''23505''"
  | (exists) "res = Inl (Sentinel ErrAlreadyExists)" "rs' = rs"
      "new_uuid c \<in> ID ` set rs \<or> (\<exists>x \<in> set rs. same_event params x)"
  | (error) e where "res = Inl e" "rs' = rs" "foreign e" "errors_As_PgError e \<noteq> Some ''23505''"
proof (cases rule: run_statement_cases[of
      "text_args [p_EventType params, p_IdempotencyKey params] (insert_stmt c params)" rs "outcome c"])
  case (failed e)
  then have "e = invalid_byte_sequence \<or> insert_stmt c params rs = Inl e"
    by (blast dest: text_args_Inl)
  with failed ins insert_stmt_violation[OF _ c] insert_stmt_foreign[OF _ c] that(3,4) show thesis
    by (auto simp: pgx_Insert_def pg_error_defs split: if_splits)
qed (use ins that wf_ctx_outcome[OF c] wf_ctx_no_violation[OF c] in
    \<open>auto simp: pgx_Insert_def split: if_splits\<close>)

lemma insert_stmt_storable:
  "storable c params \<Longrightarrow>
     (case insert_stmt c params rs of
        Inl e \<Rightarrow> e = unique_violation \<and> (new_uuid c \<in> ID ` set rs \<or> (\<exists>x \<in> set rs. same_event params x))
      | Inr _ \<Rightarrow> \<not> (new_uuid c \<in> ID ` set rs \<or> (\<exists>x \<in> set rs. same_event params x)))"
  by (clarsimp simp: storable_def simp del: int4_Inr) (simp add: insert_stmt_def same_event_image Let_def del: int4_Inr)

lemma pgx_Insert_storable:
  assumes "storable c params" "outcome c = Delivered" "pgx_Insert rp c params rs = (res, rs')"
  shows "if new_uuid c \<in> ID ` set rs \<or> (\<exists>x \<in> set rs. same_event params x)
    then res = Inl (Sentinel ErrAlreadyExists) else (\<exists>r. res = Inr r)"
proof -
  have "text_args [p_EventType params, p_IdempotencyKey params] (insert_stmt c params) rs =
      insert_stmt c params rs"
    using assms(1) by (simp add: storable_def text_args_def)
  with insert_stmt_storable[OF assms(1), of rs] assms(2,3) show ?thesis
    by (auto simp: pgx_Insert_def pg_error_defs split: sum.splits)
qed

lemma insert_stmt_wf:
  "wf_table rs \<Longrightarrow> insert_stmt c params rs = Inr (rs', r) \<Longrightarrow> wf_table rs'"
  using insert_stmt_Inr[of c params rs rs' r]
  by (auto simp: inserted_def same_event_def intro!: wf_table_snoc)

lemma pgx_Insert_grows:
  assumes "wf_table rs" "wf_ctx c" "pgx_Insert rp c params rs = (res, rs')"
  shows "wf_table rs' \<and> (rs' = rs \<or> (\<exists>r. rs' = rs @ [r]))"
  using assms(2,3)
  by (cases rule: pgx_Insert_cases)
    (use assms(1) insert_stmt_wf insert_stmt_Inr in \<open>blast+\<close>)

text \<open>
  C23: an insert keeps the keys of the table unique; a returned row is the one appended row,
  ENQUEUED at attempt 1 with every field the caller gave, payload and metadata as the column type
  stores them, and its event was not there before; the answer \<open>ErrAlreadyExists\<close> leaves the table
  alone and is given only for a duplicate; any other error is not the server's unique violation
  and leaves the table alone or (reply lost) has appended such a row.  When the
  reply arrives and the columns accept the fields, a duplicate is always answered \<open>ErrAlreadyExists\<close> and
  anything else by the new row.
\<close>

theorem pgx_Insert_correct:
  assumes wf: "wf_table rs" and c: "wf_ctx c" and ins: "pgx_Insert rp c params rs = (res, rs')"
  shows "wf_table rs' \<and>
    (case res of
       Inr r \<Rightarrow> rs' = rs @ [r] \<and> inserted c params r \<and> \<not> (\<exists>x \<in> set rs. same_event params x)
     | Inl e \<Rightarrow>
         if errors_Is e ErrAlreadyExists
         then rs' = rs \<and> (new_uuid c \<in> ID ` set rs \<or> (\<exists>x \<in> set rs. same_event params x))
         else errors_As_PgError e \<noteq> Some ''23505'' \<and>
           (rs' = rs \<or> (\<exists>r. rs' = rs @ [r] \<and> inserted c params r \<and> \<not> (\<exists>x \<in> set rs. same_event params x)))) \<and>
    (outcome c = Delivered \<and> storable c params \<longrightarrow>
       (if new_uuid c \<in> ID ` set rs \<or> (\<exists>x \<in> set rs. same_event params x)
        then res = Inl (Sentinel ErrAlreadyExists) else (\<exists>r. res = Inr r)))"
proof -
  have "wf_table rs'" using pgx_Insert_grows[OF wf c ins] by blast
  moreover have "case res of
       Inr r \<Rightarrow> rs' = rs @ [r] \<and> inserted c params r \<and> \<not> (\<exists>x \<in> set rs. same_event params x)
     | Inl e \<Rightarrow>
         if errors_Is e ErrAlreadyExists
         then rs' = rs \<and> (new_uuid c \<in> ID ` set rs \<or> (\<exists>x \<in> set rs. same_event params x))
         else errors_As_PgError e \<noteq> Some ''23505'' \<and>
           (rs' = rs \<or> (\<exists>r. rs' = rs @ [r] \<and> inserted c params r \<and> \<not> (\<exists>x \<in> set rs. same_event params x)))"
    using c ins
  proof (cases rule: pgx_Insert_cases)
    case (added r)
    with insert_stmt_Inr[OF added(2)] show ?thesis by auto
  next
    case (lost r e)
    with insert_stmt_Inr[OF lost(2)] show ?thesis by (auto simp: foreign_not_Is)
  qed (simp_all add: foreign_not_Is)
  ultimately show ?thesis using pgx_Insert_storable[OF _ _ ins] by blast
qed

lemma pgx_Insert_added:
  assumes "pgx_Insert rp c params rs = (Inr r, rs')"
  shows "list_all valid_text [p_EventType params, p_IdempotencyKey params] \<and>
    insert_stmt c params rs = Inr (rs', r)"
  using assms
  by (cases rule: run_statement_cases[of
      "text_args [p_EventType params, p_IdempotencyKey params] (insert_stmt c params)" rs "outcome c"])
    (auto simp: pgx_Insert_def split: if_splits)

text \<open>
  A row returned by an insert is what \<open>GetByID\<close> and \<open>GetByIdempotencyKey\<close> find next.
\<close>

theorem pgx_Insert_GetByID:
  assumes "wf_table rs" "pgx_Insert rp c params rs = (Inr r, rs')" "outcome c' = Delivered"
  shows "pgx_GetByID rp c' (ID r) rs' = Inr r \<and>
    pgx_GetByIdempotencyKey rp c' (p_EventType params) (p_IdempotencyKey params) rs' = Inr r"
proof -
  note ins = pgx_Insert_added[OF assms(2)]
  note new = insert_stmt_Inr[OF ins[THEN conjunct2]]
  have "find (\<lambda>x. ID x = ID r) rs' = Some r"
    using new by (auto intro!: find_snoc) (metis imageI)
  moreover have "find (\<lambda>x. EventType x = p_EventType params \<and> IdempotencyKey x = p_IdempotencyKey params) rs' = Some r"
    using new by (auto simp: inserted_def same_event_def intro!: find_snoc)
  ultimately show ?thesis
    using ins assms(3) by (simp add: pgx_GetByID_def pgx_GetByIdempotencyKey_def text_args_def)
qed

text \<open>
  Inserting the same event again while a row of that event type and idempotency key exists
  answers \<open>ErrAlreadyExists\<close> and changes nothing, whatever has happened to the table in between.
\<close>

theorem pgx_Insert_again:
  assumes ins: "pgx_Insert rp c params rs = (Inr r, rs')"
    and c': "outcome c' = Delivered" "jsonb c' = jsonb c"
    and kept: "r' \<in> set rs''" "same_event params r'"
  shows "pgx_Insert rp c' params rs'' = (Inl (Sentinel ErrAlreadyExists), rs'')"
proof -
  note added = pgx_Insert_added[OF ins]
  have "insert_stmt c' params rs'' = Inl unique_violation"
    using insert_stmt_Inr[OF added[THEN conjunct2]] kept c' same_event_image[of params rs'']
    by (auto simp: inserted_def insert_stmt_def Let_def simp del: int4_Inr)
  with added c' show ?thesis by (auto simp: pgx_Insert_def text_args_def pg_error_defs)
qed

section \<open>Fetching takes the oldest unlocked messages\<close>

definition available :: "pg_ctx \<Rightarrow> Outbox list \<Rightarrow> Outbox list" where
  "available c rs = filter (\<lambda>r. Status r = OutboxStatusEnqueued \<and> \<not> locked c (ID r)) rs"

lemma take_sorted_least:
  assumes "x \<in> set (take n (sort_key k xs))" "y \<in> set (drop n (sort_key k xs))"
  shows "k x \<le> (k y :: 'b :: linorder)"
proof -
  have "sorted (map k (take n (sort_key k xs) @ drop n (sort_key k xs)))" by simp
  with assms show ?thesis by (simp only: map_append sorted_append) auto
qed

lemma fetch_stmt_picks:
  assumes wf: "wf_table rs" and c: "wf_ctx c" and f: "fetch_stmt c n rs = Inr (rs', ms)"
  shows "ID ` set ms = set (map ID (take (nat n) (sort_key CreatedAt (available c rs)))) \<and>
    length ms = min (nat n) (length (available c rs))"
proof -
  let ?ids = "fetch_candidates c (nat n) rs"
  have ids: "?ids = map ID (take (nat n) (sort_key CreatedAt (available c rs)))"
    by (simp add: fetch_candidates_def available_def)
  have dist: "distinct ?ids"
  proof -
    have "distinct (map ID (available c rs))"
      unfolding available_def by (rule distinct_map_filter[OF wf_table_ids[OF wf]])
    then have "distinct (map ID (sort_key CreatedAt (available c rs)))"
      by (simp add: distinct_map)
    then show ?thesis unfolding ids take_map[symmetric] by (rule distinct_take)
  qed
  have sub: "set ?ids \<subseteq> ID ` set rs"
    unfolding ids by (auto dest!: in_set_takeD simp: available_def)
  from f have "ms = returning c (map (\<lambda>r. (mark_publishing c r)\<lparr>NextRetryAt := None\<rparr>)
      (filter (\<lambda>r. ID r \<in> set ?ids) rs))"
    by (auto simp: fetch_stmt_def Let_def split: if_splits sum.splits)
  then have "mset ms = mset (map (\<lambda>r. (mark_publishing c r)\<lparr>NextRetryAt := None\<rparr>)
      (filter (\<lambda>r. ID r \<in> set ?ids) rs))" using c by (simp add: wf_ctx_def)
  then have "set ms = (\<lambda>r. (mark_publishing c r)\<lparr>NextRetryAt := None\<rparr>) ` {r \<in> set rs. ID r \<in> set ?ids}"
    unfolding set_filter[symmetric] set_map[symmetric] by (rule mset_eq_setD)
  then have set_ms: "ID ` set ms = set ?ids"
    using sub by (auto simp: image_image mark_publishing_def)
  have "length ms = card (ID ` set ms)"
    using fetch_stmt_rows[OF wf c f] distinct_card[of "map ID ms"] by simp
  also have "\<dots> = length ?ids" unfolding set_ms by (rule distinct_card[OF dist])
  finally show ?thesis using set_ms ids by (simp add: min.commute)
qed

text \<open>
  C24: \<open>FetchAndLockToPublishing\<close> takes the oldest ENQUEUED row that no other transaction
  holds, moves exactly that row to PUBLISHING and returns it; it answers \<open>ErrNoMessage\<close>
  exactly when there is none, and then changes nothing.
\<close>

theorem pgx_Fetch_oldest:
  assumes wf: "wf_table rs" and c: "wf_ctx c" and d: "outcome c = Delivered"
  shows "case pgx_FetchAndLockToPublishing rp c rs of
      (Inl e, rs') \<Rightarrow> e = Sentinel ErrNoMessage \<and> available c rs = [] \<and> row_of rs' = row_of rs
    | (Inr m, rs') \<Rightarrow>
        (\<exists>r \<in> set (available c rs). ID r = ID m \<and> (\<forall>r' \<in> set (available c rs). CreatedAt r \<le> CreatedAt r')) \<and>
        fetched row_of rs rs' m \<and> (\<forall>i. i \<noteq> ID m \<longrightarrow> row_of rs' i = row_of rs i)"
proof (cases "fetch_stmt c 1 rs")
  case (Inl e)
  then show ?thesis by (auto simp: fetch_stmt_def Let_def split: sum.splits dest!: sql_update_errorD)
next
  case (Inr z)
  then obtain rs' ms where f: "fetch_stmt c 1 rs = Inr (rs', ms)" by (cases z) auto
  note rows = fetch_stmt_rows[OF wf c f] and picks = fetch_stmt_picks[OF wf c f]
  show ?thesis
  proof (cases ms)
    case Nil
    with picks rows have "available c rs = []" "row_of rs' = row_of rs"
      by (auto simp: fun_eq_iff min_def split: if_splits)
    with f d Nil show ?thesis by (simp add: pgx_FetchAndLockToPublishing_def)
  next
    case (Cons m ms')
    with rows have ms: "ms = [m]" by auto
    with picks have "ID m \<in> ID ` set (take 1 (sort_key CreatedAt (available c rs)))" by auto
    then obtain r where r: "ID r = ID m" "r \<in> set (take 1 (sort_key CreatedAt (available c rs)))"
      by auto
    have "CreatedAt r \<le> CreatedAt r'" if "r' \<in> set (available c rs)" for r'
    proof -
      let ?xs = "sort_key CreatedAt (available c rs)"
      from that have "r' \<in> set (take 1 ?xs @ drop 1 ?xs)" by simp
      moreover have "take 1 ?xs = [r]" using r(2) by (cases ?xs) auto
      ultimately show ?thesis using take_sorted_least[OF r(2)] by (auto simp del: append_take_drop_id)
    qed
    moreover have "r \<in> set (available c rs)" using r(2) by (auto dest!: in_set_takeD)
    ultimately show ?thesis
      using f d ms rows r(1) by (auto simp: pgx_FetchAndLockToPublishing_def)
  qed
qed

section \<open>Statements that never fail act as a map\<close>

lemma sql_update_map:
  "sql_update P (\<lambda>r. Inr (g r)) rs = Inr (map (\<lambda>r. if P r then g r else r) rs, length (filter P rs))"
  by (induction rs) auto

text \<open>
  \<open>RequeueFailed\<close> moves exactly the FAILED rows with attempts left whose retry time has
  come back to ENQUEUED, and returns how many.
\<close>

theorem pgx_RequeueFailed_exact:
  assumes "outcome c = Delivered"
  shows "pgx_RequeueFailed rp c rs =
    (Inr (int (length (filter (requeue_due c) rs))),
     map (\<lambda>r. if requeue_due c r
              then r\<lparr>Status := OutboxStatusEnqueued, UpdatedAt := clock c (ID r) 0\<rparr> else r) rs)"
  using assms sql_update_map[of "requeue_due c"]
  by (simp add: pgx_RequeueFailed_def rows_affected_def set_enqueued_def[abs_def])

text \<open>
  A cleanup deletes only rows of the given statuses not updated within the given
  age; when it answers a count, all of those are gone and the count is right; it fails only
  without a status or when the server is not reached.
\<close>

theorem pgx_DeleteOlderThan_exact:
  assumes "pgx_DeleteOlderThan rp c statuses age rs = (res, rs')"
  shows "(rs' = rs \<or> rs' = filter (\<lambda>r. \<not> (Status r \<in> set statuses \<and>
             UpdatedAt r < clock c (ID r) 0 - Microseconds age)) rs) \<and>
    (case res of
       Inr n \<Rightarrow> statuses \<noteq> [] \<and> n = int (length rs) - int (length rs') \<and>
         \<not> (\<exists>r \<in> set rs'. Status r \<in> set statuses \<and> UpdatedAt r < clock c (ID r) 0 - Microseconds age)
     | Inl e \<Rightarrow> statuses = [] \<or> outcome c \<noteq> Delivered)"
proof -
  let ?old = "\<lambda>r. Status r \<in> set statuses \<and> UpdatedAt r < clock c (ID r) 0 - Microseconds age"
  have len: "length (filter ?old rs) + length (filter (\<lambda>r. \<not> ?old r) rs) = length rs"
    by (rule sum_length_filter_compl)
  show ?thesis
    using assms len
    by (cases rule: run_statement_cases[of "sql_delete ?old" rs "outcome c"])
      (auto simp: pgx_DeleteOlderThan_def rows_affected_def sql_delete_def split: if_splits)
qed

section \<open>Crash recovery\<close>

definition revived :: "Outbox \<Rightarrow> Outbox \<Rightarrow> bool" where
  "revived r r' \<longleftrightarrow>
     (if AttemptCount r + 1 \<ge> MaxAttempts r
      then Status r' = OutboxStatusDead \<and> AttemptCount r' = MaxAttempts r \<and> NextRetryAt r' = None
      else Status r' = OutboxStatusFailed \<and> AttemptCount r' = AttemptCount r + 1 \<and>
           CanRetry r' \<and> NextRetryAt r' \<noteq> None)"

lemma set_revived_Inr: "set_revived rp c r = Inr r' \<Longrightarrow> revived r r'"
  by (auto simp: set_revived_def revived_def CanRetry_def min_def split: sum.splits if_splits)

lemma pgx_Revive_cases:
  assumes "pgx_ReviveStuckPublishing rp c rs = (res, rs')"
  obtains (ok) n where "res = Inr (int n)" "sql_update (stuck rp c) (set_revived rp c) rs = Inr (rs', n)"
  | (err) e where "res = Inl e" "rs' = rs" | (lost) e where "res = Inl e" "outcome c = ReplyLost e"
  using assms
  by (cases rule: run_statement_cases[of "sql_update (stuck rp c) (set_revived rp c)" rs "outcome c"])
    (auto simp: pgx_ReviveStuckPublishing_def rows_affected_def)

text \<open>
  C25: crash recovery keeps the keys unique; on success every row stuck in PUBLISHING
  becomes DEAD with its attempts used up, or FAILED with one more attempt, attempts left and a
  retry time, and every other row is as it was; on an error nothing changed unless the
  reply was lost.
\<close>

theorem pgx_Revive_correct:
  assumes wf: "wf_table rs" and rev: "pgx_ReviveStuckPublishing rp c rs = (res, rs')"
  shows "wf_table rs' \<and>
    (case res of
       Inr n \<Rightarrow> n = int (length (filter (stuck rp c) rs)) \<and>
         (\<forall>i. rel_option (\<lambda>r r'. if stuck rp c r then revived r r' \<and> row_step r r' else r' = r)
               (row_of rs i) (row_of rs' i))
     | Inl e \<Rightarrow> rs' = rs \<or> outcome c = ReplyLost e)"
proof -
  have "wf_table rs'" using table_evolves_wf[OF pgx_evolves(8) wf, of rp c] by (simp add: rev)
  with rev show ?thesis
  proof (cases rule: pgx_Revive_cases)
    case (ok n)
    let ?R = "\<lambda>r r'. if stuck rp c r then revived r r' \<and> row_step r r' else r' = r"
    have step: "row_step r r'" if "stuck rp c r" "set_revived rp c r = Inr r'" for r r'
      using that by (simp add: stuck_def set_revived_step)
    have "rel_option (updated_row (stuck rp c) (set_revived rp c)) (row_of rs i) (row_of rs' i)" for i
      by (rule sql_update_lookup[OF ok(2)]) (blast dest: step row_step_frame(1))
    then have "rel_option ?R (row_of rs i) (row_of rs' i)" for i
      by (rule option.rel_mono_strong)
        (use step set_revived_Inr in \<open>auto simp: updated_row_def split: if_splits\<close>)
    with ok sql_update_list_all2[OF ok(2)] \<open>wf_table rs'\<close> show ?thesis by simp
  qed auto
qed

section \<open>The back-off\<close>

text \<open>
  The product of an interval and a double precision factor: defined below the range of an
  interval, within one microsecond and the relative error of a double; exact for a whole
  factor while the product is a whole number a double can hold.
\<close>

definition imul_spec :: "(int \<Rightarrow> rat \<Rightarrow> int option) \<Rightarrow> bool" where
  "imul_spec f \<longleftrightarrow>
     (\<forall>x q. \<bar>of_int x * q\<bar> < 2 ^ 62 \<longrightarrow>
        (\<exists>y. f x q = Some y \<and> \<bar>of_int y - of_int x * q\<bar> \<le> 1 + \<bar>of_int x * q\<bar> / 2 ^ 52)) \<and>
     (\<forall>x k. \<bar>x * k\<bar> < 2 ^ 52 \<longrightarrow> f x (of_int k) = Some (x * k)) \<and>
     (\<forall>x q. \<bar>of_int x * q\<bar> \<ge> 2 ^ 63 \<longrightarrow> f x q = None)"

definition default_backoff :: "pgx_repo \<Rightarrow> bool" where
  "default_backoff rp \<longleftrightarrow> backoffBase rp = 1 * second \<and> backoffMax rp = 3600 * second"

lemma Seconds_one: "Seconds (1 * second) = 1" and Seconds_hour: "Seconds (3600 * second) = 3600"
  by code_simp+

lemma imul_specE:
  assumes "imul_spec f" "\<bar>of_int x * q\<bar> < 2 ^ 62"
  obtains y where "f x q = Some y" "\<bar>of_int y - of_int x * q\<bar> \<le> 1 + \<bar>of_int x * q\<bar> / 2 ^ 52"
  using assms unfolding imul_spec_def by blast

lemma imul_exact: "imul_spec f \<Longrightarrow> \<bar>x * k\<bar> < 2 ^ 52 \<Longrightarrow> f x (of_int k) = Some (x * k)"
  unfolding imul_spec_def by blast

lemma imul_seconds:
  assumes "imul_spec f"
  shows "f 1000000 1 = Some 1000000" "f 1000000 3600 = Some 3600000000"
  using imul_exact[OF assms, of 1000000 1] imul_exact[OF assms, of 1000000 3600] by simp_all

lemma imul_doubling:
  assumes f: "imul_spec f" and n: "0 \<le> n" "n \<le> 42"
  obtains p where "f 1000000 (2 powi n) = Some p" "min p 3600000000 = 1000000 * min (2 ^ nat n) 3600"
proof -
  have pw: "(2 powi n :: rat) = of_int (2 ^ nat n)" using n by (simp add: power_int_def)
  show thesis
  proof (cases "nat n \<le> 32")
    case True
    then have "(2 :: int) ^ nat n \<le> 2 ^ 32" by (intro power_increasing) auto
    then have "f 1000000 (2 powi n) = Some (1000000 * 2 ^ nat n)"
      unfolding pw by (intro imul_exact[OF f]) simp
    then show thesis by (rule that) (auto simp: min_def)
  next
    case False
    have lo: "(2 :: rat) ^ 32 \<le> 2 ^ nat n" and hi: "(2 :: rat) ^ nat n \<le> 2 ^ 42"
      using False n by (intro power_increasing; simp)+
    then obtain p where p: "f 1000000 (2 powi n) = Some p"
      "\<bar>of_int p - of_int 1000000 * (2 powi n :: rat)\<bar> \<le> 1 + \<bar>of_int 1000000 * (2 powi n)\<bar> / 2 ^ 52"
      unfolding pw by (auto intro: imul_specE[OF f, of 1000000 "of_int (2 ^ nat n)"])
    then have "(3600000000 :: rat) \<le> of_int p" using lo hi by (simp add: pw abs_le_iff)
    then have "min p 3600000000 = 3600000000" by simp
    moreover have "(2 :: int) ^ 32 \<le> 2 ^ nat n" using False by (intro power_increasing) auto
    ultimately show thesis using p(1) that by (simp add: min_def)
  qed
qed

lemma imul_jitter:
  assumes f: "imul_spec f" and cap: "0 \<le> cap" "cap \<le> 3600000000" and j: "1 / 2 \<le> j" "j \<le> 1"
  obtains d where "f cap j = Some d" "cap - 4 \<le> 2 * d" "d \<le> cap + 2"
proof -
  define z where "z = of_int cap * j"
  have x: "(0 :: rat) \<le> of_int cap" "(of_int cap :: rat) \<le> 3600000000" using cap by simp_all
  have lo: "of_int cap / 2 \<le> z" using mult_left_mono[OF j(1) x(1)] by (simp add: z_def)
  have hi: "z \<le> of_int cap" using mult_left_mono[OF j(2) x(1)] by (simp add: z_def)
  have z: "\<bar>z\<bar> = z" "z < 2 ^ 62" "z / 2 ^ 52 \<le> 1" using lo hi x by simp_all
  then obtain d where d: "f cap j = Some d" "\<bar>of_int d - z\<bar> \<le> 1 + \<bar>z\<bar> / 2 ^ 52"
    using imul_specE[OF f, of cap j] unfolding z_def by auto
  then have d': "\<bar>of_int d - z\<bar> \<le> 2" using z by linarith
  have "(of_int (cap - 4) :: rat) \<le> of_int (2 * d)" "(of_int d :: rat) \<le> of_int (cap + 2)"
    using abs_le_D1[OF d'] abs_le_D2[OF d'] lo hi by simp_all
  then show thesis using d(1) that by (simp only: of_int_le_iff)
qed

lemma pg_backoff_default:
  assumes f: "imul_spec (imul c)" and rp: "default_backoff rp" and n: "0 \<le> n" "n \<le> 42"
    and rnd: "0 \<le> rnd c i" "rnd c i \<le> 1"
  obtains d where "pg_backoff c (backoffBase rp) (backoffMax rp) i n = Inr d"
    "500000 * min (2 ^ nat n) 3600 - 2 \<le> d" "d \<le> 1000000 * min (2 ^ nat n) 3600 + 2"
proof -
  let ?cap = "1000000 * min (2 ^ nat n) 3600 :: int"
  obtain p where p: "imul c 1000000 (2 powi n) = Some p" "min p 3600000000 = ?cap"
    using imul_doubling[OF f n] by blast
  obtain d where d: "imul c ?cap (1 / 2 + rnd c i * (1 / 2)) = Some d" "?cap - 4 \<le> 2 * d" "d \<le> ?cap + 2"
    by (rule imul_jitter[OF f, of ?cap "1 / 2 + rnd c i * (1 / 2)"]) (use rnd in auto)
  from d(2) have "500000 * min (2 ^ nat n) 3600 - 2 \<le> d" by linarith
  moreover have "pg_backoff c (backoffBase rp) (backoffMax rp) i n = Inr d"
    using d(1) imul_seconds[OF f] rp
    by (simp only: pg_backoff_def default_backoff_def Seconds_one Seconds_hour option.case p)
  ultimately show thesis using d(3) that by blast
qed

text \<open>
  C36: with the default configuration and up to 42 earlier attempts, the delay before the
  next attempt is computed, and lies between half of and the whole of \<open>min (2^n) 3600\<close>
  seconds (two microseconds for rounding).
\<close>

theorem pg_backoff_bounds:
  assumes f: "imul_spec (imul c)" and n: "0 \<le> n" "n \<le> 42" and rnd: "0 \<le> rnd c i" "rnd c i \<le> 1"
  shows "\<exists>d. pg_backoff c (RequeueBackoffBase DefaultConfig) (RequeueBackoffMax DefaultConfig) i n = Inr d \<and>
    500000 * min (2 ^ nat n) 3600 - 2 \<le> d \<and> d \<le> 1000000 * min (2 ^ nat n) 3600 + 2"
proof -
  let ?rp = "\<lparr>tableName = [], backoffBase = RequeueBackoffBase DefaultConfig,
    backoffMax = RequeueBackoffMax DefaultConfig, stuckPublishingThreshold = 0\<rparr>"
  have "default_backoff ?rp" by (simp add: default_backoff_def DefaultConfig_def)
  from pg_backoff_default[OF f this n rnd] show ?thesis by auto
qed


section \<open>Any interleaving of the operations\<close>

text \<open>
  One statement of any process using the repository: the statements are atomic, so a
  sequence of them is what a set of writers, dispatchers and recovery jobs can do
  (\<open>outbox_step\<close>), and the cleanup job beside them (\<open>db_step\<close>).
\<close>

inductive outbox_step :: "pgx_repo \<Rightarrow> Outbox list \<Rightarrow> Outbox list \<Rightarrow> bool" for rp where
  insert: "wf_ctx c \<Longrightarrow> outbox_step rp rs (snd (pgx_Insert rp c params rs))"
| fetch: "wf_ctx c \<Longrightarrow> outbox_step rp rs (snd (pgx_FetchAndLockToPublishing rp c rs))"
| fetch_batch: "wf_ctx c \<Longrightarrow> outbox_step rp rs (snd (pgx_FetchLockAndMarkPublishing rp c n rs))"
| published: "wf_ctx c \<Longrightarrow> outbox_step rp rs (snd (pgx_UpdateToPublished rp c i rs))"
| batch_published: "wf_ctx c \<Longrightarrow> outbox_step rp rs (snd (pgx_UpdateBatchToPublished rp c ids rs))"
| failed: "wf_ctx c \<Longrightarrow> outbox_step rp rs (snd (pgx_UpdateToFailed rp c i em rs))"
| dead: "wf_ctx c \<Longrightarrow> outbox_step rp rs (snd (pgx_UpdateToDead rp c i em rs))"
| requeue: "wf_ctx c \<Longrightarrow> outbox_step rp rs (snd (pgx_RequeueFailed rp c rs))"
| revive: "wf_ctx c \<Longrightarrow> outbox_step rp rs (snd (pgx_ReviveStuckPublishing rp c rs))"

inductive db_step :: "pgx_repo \<Rightarrow> Outbox list \<Rightarrow> Outbox list \<Rightarrow> bool" for rp where
  operation: "outbox_step rp rs rs' \<Longrightarrow> db_step rp rs rs'"
| cleanup: "wf_ctx c \<Longrightarrow> db_step rp rs (snd (pgx_DeleteOlderThan rp c statuses olderThan rs))"

definition tracks :: "Outbox list \<Rightarrow> Outbox list \<Rightarrow> bool" where
  "tracks rs rs' \<longleftrightarrow> wf_table rs' \<and>
     (\<forall>i r. row_of rs i = Some r \<longrightarrow> (\<exists>r'. row_of rs' i = Some r' \<and> row_step\<^sup>*\<^sup>* r r'))"

lemma table_evolves_tracks:
  assumes "wf_table rs" "table_evolves rs rs'"
  shows "tracks rs rs'"
proof -
  have "\<exists>r'. row_of rs' i = Some r' \<and> row_step\<^sup>*\<^sup>* r r'" if "row_of rs i = Some r" for i r
    using table_evolves_row[OF assms(2), of i] that
    by (auto simp: option_rel_Some1 row_evolves_def)
  with table_evolves_wf[OF assms(2,1)] show ?thesis by (auto simp: tracks_def)
qed

lemma insert_tracks:
  assumes "wf_table rs" "wf_ctx c"
  shows "tracks rs (snd (pgx_Insert rp c params rs))"
proof -
  obtain res rs' where ins: "pgx_Insert rp c params rs = (res, rs')" by fastforce
  from pgx_Insert_grows[OF assms ins] ins show ?thesis
    by (auto simp: tracks_def lookup_by_def find_append)
qed

lemma outbox_step_tracks: "outbox_step rp rs rs' \<Longrightarrow> wf_table rs \<Longrightarrow> tracks rs rs'"
  by (induction rule: outbox_step.induct) (auto intro: insert_tracks table_evolves_tracks pgx_evolves)

lemma terminal_stays:
  "row_step\<^sup>*\<^sup>* r r' \<Longrightarrow> Status r \<in> {OutboxStatusPublished, OutboxStatusDead} \<Longrightarrow> r' = r"
  by (induction rule: converse_rtranclp_induct) (auto dest: row_step_not_terminal)

text \<open>The row \<open>r\<close> of id \<open>i\<close> is taken out of the table by one cleanup, which names its status and finds it old enough.\<close>

definition swept :: "pgx_repo \<Rightarrow> string \<Rightarrow> Outbox \<Rightarrow> Outbox list \<Rightarrow> Outbox list \<Rightarrow> bool" where
  "swept rp i r rs rs' \<longleftrightarrow>
     (\<exists>c statuses olderThan. wf_ctx c \<and> rs' = snd (pgx_DeleteOlderThan rp c statuses olderThan rs) \<and>
        row_of rs i = Some r \<and> row_of rs' i = None \<and> Status r \<in> set statuses \<and>
        UpdatedAt r < clock c i 0 - Microseconds olderThan)"

lemma lookup_filter:
  assumes "distinct (map ID rs)" "row_of rs i = Some r"
  shows "row_of (filter P rs) i = (if P r then Some r else None)"
proof (cases "P r")
  case True
  with assms show ?thesis by (simp add: lookup_by_eq_Some distinct_map_filter)
next
  case False
  have "ID x \<noteq> i" if "x \<in> set rs" "P x" for x
    using that False assms lookup_by_SomeD[OF assms(2)] by (metis distinct_map inj_onD)
  with False show ?thesis by (auto simp: lookup_by_None_iff)
qed

lemma cleanup_rows:
  assumes "wf_table rs" "wf_ctx c" and rs': "rs' = snd (pgx_DeleteOlderThan rp c statuses age rs)"
  shows "wf_table rs' \<and> (\<forall>i r. row_of rs i = Some r \<longrightarrow> row_of rs' i = Some r \<or> swept rp i r rs rs')"
proof -
  obtain res where del: "pgx_DeleteOlderThan rp c statuses age rs = (res, rs')"
    using rs' by (cases "pgx_DeleteOlderThan rp c statuses age rs") simp
  from pgx_DeleteOlderThan_exact[OF del, THEN conjunct1] show ?thesis
  proof
    assume f: "rs' = filter (\<lambda>r. \<not> (Status r \<in> set statuses \<and> UpdatedAt r < clock c (ID r) 0 - Microseconds age)) rs"
    have "wf_table rs'" using assms(1) unfolding f wf_table_def by (simp add: distinct_map_filter)
    moreover have "row_of rs' i = Some r \<or> swept rp i r rs rs'" if r: "row_of rs i = Some r" for i r
      using lookup_filter[OF wf_table_ids[OF assms(1)] r, of "\<lambda>r. \<not> (Status r \<in> set statuses \<and> UpdatedAt r < clock c (ID r) 0 - Microseconds age)"]
        lookup_by_SomeD[OF r] r assms(2) rs' unfolding swept_def f[symmetric] by (auto split: if_splits)
    ultimately show ?thesis by blast
  qed (use assms in auto)
qed

lemma db_step_rows:
  assumes "db_step rp rs rs'" "wf_table rs"
  shows "wf_table rs' \<and> (\<forall>i r. row_of rs i = Some r \<longrightarrow>
    (\<exists>r'. row_of rs' i = Some r' \<and> row_step\<^sup>*\<^sup>* r r') \<or> swept rp i r rs rs')"
  using assms
proof cases
  case operation
  with outbox_step_tracks assms(2) show ?thesis unfolding tracks_def by blast
next
  case (cleanup c statuses olderThan)
  with cleanup_rows[OF assms(2)] show ?thesis by blast
qed

text \<open>
  C10: under any interleaving of the repository's operations by any number of processes, cleanup
  included, with any of their calls refused or their replies lost, the keys stay unique; each row
  moves only along the life cycle ENQUEUED, PUBLISHING, PUBLISHED or DEAD or FAILED and back, a PUBLISHED or DEAD
  row never changes again, and a row leaves the table only through a cleanup that names the
  status it has then and finds it older than the age it was given.
\<close>

theorem pgx_interleaving_lifecycle:
  assumes "(db_step rp)\<^sup>*\<^sup>* rs rs'" "wf_table rs" "row_of rs i = Some r"
  shows "wf_table rs' \<and>
    ((\<exists>r'. row_of rs' i = Some r' \<and> row_step\<^sup>*\<^sup>* r r' \<and>
        (Status r \<in> {OutboxStatusPublished, OutboxStatusDead} \<longrightarrow> r' = r)) \<or>
     (\<exists>rs1 r1 rs2. (db_step rp)\<^sup>*\<^sup>* rs rs1 \<and> row_step\<^sup>*\<^sup>* r r1 \<and>
        (Status r \<in> {OutboxStatusPublished, OutboxStatusDead} \<longrightarrow> r1 = r) \<and>
        swept rp i r1 rs1 rs2 \<and> (db_step rp)\<^sup>*\<^sup>* rs2 rs'))"
proof -
  from assms have "wf_table rs' \<and> ((\<exists>r'. row_of rs' i = Some r' \<and> row_step\<^sup>*\<^sup>* r r') \<or>
     (\<exists>rs1 r1 rs2. (db_step rp)\<^sup>*\<^sup>* rs rs1 \<and> row_step\<^sup>*\<^sup>* r r1 \<and> swept rp i r1 rs1 rs2 \<and> (db_step rp)\<^sup>*\<^sup>* rs2 rs'))"
  proof (induction rule: rtranclp_induct)
    case (step rs' rs'')
    then have "wf_table rs'" by blast
    note s = db_step_rows[OF step(2) this]
    from step.IH[OF step.prems] show ?case
    proof (elim conjE disjE exE)
      fix r' assume r': "row_of rs' i = Some r'" "row_step\<^sup>*\<^sup>* r r'"
      with s step.hyps(1) show ?thesis by (meson rtranclp.rtrancl_refl rtranclp_trans)
    next
      fix rs1 r1 rs2 assume "(db_step rp)\<^sup>*\<^sup>* rs rs1" "row_step\<^sup>*\<^sup>* r r1" "swept rp i r1 rs1 rs2" "(db_step rp)\<^sup>*\<^sup>* rs2 rs'"
      with s step.hyps(2) show ?thesis by (meson rtranclp.rtrancl_into_rtrancl)
    qed
  qed auto
  then show ?thesis by (meson terminal_stays)
qed

section \<open>Concrete instances\<close>

text \<open>A server that answers every call at time \<open>now\<close>, multiplies exactly and holds no locks.\<close>

definition sample_ctx :: "time \<Rightarrow> pg_ctx" where
  "sample_ctx now =
     \<lparr>outcome = Delivered, clock = (\<lambda>i n. now), rnd = (\<lambda>i. 0),
      imul = (\<lambda>x q. if \<bar>of_int x * q\<bar> < 2 ^ 62 then Some \<lfloor>of_int x * q\<rfloor> else None),
      locked = (\<lambda>i. False), returning = (\<lambda>xs. xs), jsonb = Inr, new_uuid = ''u2''\<rparr>"

definition sample_repo :: pgx_repo where
  "sample_repo = \<lparr>tableName = ''outbox'', backoffBase = 1 * second, backoffMax = 3600 * second,
     stuckPublishingThreshold = 300 * second\<rparr>"

definition sample_row :: "OutboxStatus \<Rightarrow> int \<Rightarrow> Outbox" where
  "sample_row st attempts =
     \<lparr>ID = ''u1'', EventType = ''order.created'', Payload = Some ''{}'', Metadata = None,
      IdempotencyKey = ''k1'', Status = st, ErrorMessage = None, AttemptCount = attempts,
      MaxAttempts = 100, NextRetryAt = None, CreatedAt = 0, UpdatedAt = 0\<rparr>"

definition sample_params :: OutboxInsertParams where
  "sample_params = \<lparr>p_EventType = ''order.created'', p_Payload = Some ''{}'', p_Metadata = None,
     p_IdempotencyKey = ''k2'', p_MaxAttempts = 10\<rparr>"

lemmas sample_defs = sample_ctx_def sample_repo_def sample_row_def sample_params_def

lemma sample_ctx_wf [simp]: "wf_ctx (sample_ctx now)"
  by (simp add: wf_ctx_def sample_ctx_def)

lemma sample_ctx_outcome [simp]: "outcome (sample_ctx now) = Delivered"
  by (simp add: sample_ctx_def)

lemma sample_imul_spec [simp]: "imul_spec (imul (sample_ctx now))"
proof -
  let ?f = "imul (sample_ctx now)"
  have "\<bar>of_int \<lfloor>z\<rfloor> - z\<bar> \<le> 1 + \<bar>z\<bar> / 2 ^ 52" for z :: rat
  proof -
    have "\<bar>of_int \<lfloor>z\<rfloor> - z\<bar> \<le> 1" using floor_correct[of z] by linarith
    then show ?thesis by (rule order_trans) simp
  qed
  moreover have "?f x (of_int k) = Some (x * k)" if "\<bar>x * k\<bar> < 2 ^ 52" for x k
  proof -
    have "\<bar>of_int x * of_int k :: rat\<bar> = of_int \<bar>x * k\<bar>" by simp
    also have "\<dots> < of_int (2 ^ 52)" using that by (simp only: of_int_less_iff)
    finally have "\<bar>of_int x * of_int k :: rat\<bar> < 2 ^ 62" by simp
    then show ?thesis unfolding sample_ctx_def by (simp flip: of_int_mult)
  qed
  ultimately show ?thesis by (auto simp: imul_spec_def sample_ctx_def)
qed

lemma sample_wf [simp]: "wf_table []" "wf_table [sample_row st n]"
  by (simp_all add: wf_table_def)

lemma sample_row_simps [simp]:
  "row_of [sample_row st n] ''u1'' = Some (sample_row st n)"
  "Status (sample_row st n) = st" "AttemptCount (sample_row st n) = n"
  "MaxAttempts (sample_row st n) = 100" "locked (sample_ctx now) i = False"
  by (simp_all add: lookup_by_def sample_row_def sample_ctx_def)

lemma sample_valid_text [simp]:
  "valid_text ''order.created''" "valid_text ''k2''"
  by (code_simp)+

definition sample_new :: Outbox where
  "sample_new = \<lparr>ID = ''u2'', EventType = ''order.created'', Payload = Some ''{}'', Metadata = None,
      IdempotencyKey = ''k2'', Status = OutboxStatusEnqueued, ErrorMessage = None, AttemptCount = 1,
      MaxAttempts = 10, NextRetryAt = None, CreatedAt = 7, UpdatedAt = 7\<rparr>"

lemma sample_insert:
  "pgx_Insert sample_repo (sample_ctx 7) sample_params [sample_row st n] =
     (Inr sample_new, [sample_row st n, sample_new])"
  by (simp add: pgx_Insert_def insert_stmt_def text_args_def sample_defs sample_new_def int4_def Let_def)

theorem pgx_Insert_correct_witness:
  "wf_table [sample_row OutboxStatusEnqueued 1, sample_new] \<and>
   inserted (sample_ctx 7) sample_params sample_new \<and> Payload sample_new = Some ''{}'' \<and>
   (\<exists>r. fst (pgx_Insert sample_repo (sample_ctx 7) sample_params [sample_row OutboxStatusEnqueued 1]) = Inr r)"
proof -
  have "storable (sample_ctx 7) sample_params" by (simp add: storable_def sample_defs int4_def)
  then show ?thesis
    using pgx_Insert_correct[OF _ _ sample_insert, of OutboxStatusEnqueued 1]
    by (simp add: sample_insert, simp add: sample_new_def)
qed

theorem pgx_Insert_GetByID_witness:
  "pgx_GetByID sample_repo (sample_ctx 8) ''u2'' [sample_row OutboxStatusEnqueued 1, sample_new] = Inr sample_new"
  using pgx_Insert_GetByID[OF _ sample_insert, of OutboxStatusEnqueued 1 "sample_ctx 8"]
  by (simp add: sample_new_def)

theorem pgx_Insert_again_witness:
  "pgx_Insert sample_repo (sample_ctx 9) sample_params [sample_new] =
     (Inl (Sentinel ErrAlreadyExists), [sample_new])"
  by (rule pgx_Insert_again[OF sample_insert[of OutboxStatusEnqueued 1], of _ sample_new])
    (simp_all add: sample_defs sample_new_def same_event_def)

theorem pgx_Fetch_oldest_witness:
  "\<exists>m rs'. pgx_FetchAndLockToPublishing sample_repo (sample_ctx 9) [sample_row OutboxStatusEnqueued 1]
     = (Inr m, rs') \<and> fetched row_of [sample_row OutboxStatusEnqueued 1] rs' m"
  using pgx_Fetch_oldest[OF sample_wf(2)[of OutboxStatusEnqueued 1] sample_ctx_wf
      sample_ctx_outcome, of 9 sample_repo]
  by (auto simp: available_def split: prod.splits sum.splits)

theorem pgx_RequeueFailed_exact_witness:
  "fst (pgx_RequeueFailed sample_repo (sample_ctx 9)
     [(sample_row OutboxStatusFailed 3)\<lparr>NextRetryAt := Some 8\<rparr>]) = Inr 1"
  using pgx_RequeueFailed_exact[of "sample_ctx 9" sample_repo
      "[(sample_row OutboxStatusFailed 3)\<lparr>NextRetryAt := Some 8\<rparr>]"]
  by (simp add: requeue_due_def sample_defs)

lemma sample_delete:
  "pgx_DeleteOlderThan sample_repo (sample_ctx 9) [OutboxStatusPublished] 1000
     [sample_row OutboxStatusPublished 1, sample_new] = (Inr 1, [sample_new])"
  by (simp add: pgx_DeleteOlderThan_def rows_affected_def sql_delete_def Microseconds_def
      go_quot_def sample_new_def sample_defs)

theorem pgx_DeleteOlderThan_exact_witness:
  "int (length [sample_row OutboxStatusPublished 1, sample_new]) - int (length [sample_new]) = 1 \<and>
   \<not> (Status sample_new = OutboxStatusPublished \<and> UpdatedAt sample_new < 8)"
  using pgx_DeleteOlderThan_exact[OF sample_delete]
  by (simp add: Microseconds_def go_quot_def sample_ctx_def)

lemma sample_stuck: "stuck sample_repo (sample_ctx 400000000) (sample_row OutboxStatusPublishing n)"
proof -
  have "to_int64 (Seconds (300 * second)) = 300" by code_simp
  then show ?thesis by (simp add: stuck_def sample_defs)
qed

theorem pgx_Revive_correct_witness:
  "\<exists>r'. row_of (snd (pgx_ReviveStuckPublishing sample_repo (sample_ctx 400000000)
      [sample_row OutboxStatusPublishing 99])) ''u1'' = Some r' \<and> Status r' = OutboxStatusDead"
proof -
  let ?rs = "[sample_row OutboxStatusPublishing 99]" and ?c = "sample_ctx 400000000"
  obtain res rs' where r: "pgx_ReviveStuckPublishing sample_repo ?c ?rs = (res, rs')" by fastforce
  have "isl res = False"
    using r sample_stuck
    by (auto simp: pgx_ReviveStuckPublishing_def rows_affected_def set_revived_def int4_def sample_row_def
        split: sum.splits)
  with pgx_Revive_correct[OF sample_wf(2) r] sample_stuck[of 99] show ?thesis
    by (auto simp: r option_rel_Some1 revived_def split: sum.splits dest!: spec[of _ "''u1''"])
qed

theorem pg_backoff_bounds_witness:
  "\<exists>d. pg_backoff (sample_ctx 0) (RequeueBackoffBase DefaultConfig) (RequeueBackoffMax DefaultConfig) ''u1'' 3
     = Inr d \<and> 3999998 \<le> d \<and> d \<le> 8000002"
  using pg_backoff_bounds[of "sample_ctx 0" 3 "''u1''"] sample_imul_spec
  by (simp add: sample_ctx_def)


theorem pgx_interleaving_lifecycle_witness:
  "\<exists>rs1 r1 rs2. row_step\<^sup>*\<^sup>* (sample_row OutboxStatusPublished 1) r1 \<and> r1 = sample_row OutboxStatusPublished 1 \<and>
     swept sample_repo ''u1'' r1 rs1 rs2"
proof -
  let ?rs = "[sample_row OutboxStatusPublished 1, sample_new]"
  have step: "(db_step sample_repo)\<^sup>*\<^sup>* ?rs [sample_new]"
    using db_step.cleanup[of "sample_ctx 9" sample_repo ?rs "[OutboxStatusPublished]" 1000] sample_delete by auto
  have row: "row_of ?rs ''u1'' = Some (sample_row OutboxStatusPublished 1)"
    "row_of [sample_new] ''u1'' = None" "wf_table ?rs"
    by (simp_all add: lookup_by_def sample_row_def sample_new_def wf_table_def)
  from pgx_interleaving_lifecycle[OF step row(3,1)] row(2) show ?thesis by auto
qed

end
