(* ===== verification/Sql_Expr.thy ===== *)
theory Sql_Expr
  imports Sql_Table
begin

text \<open>
  The SQL that the GORM repository writes out, as syntax: scalar expressions over the columns
  of the outbox table with the value a PostgreSQL server gives them, and the statements
  \<open>UPDATE ... SET ... WHERE\<close>, \<open>DELETE ... WHERE\<close> and \<open>SELECT ... WHERE\<close> built from them.  An argument
  \<open>?\<close> is a literal; \<open>clock_timestamp()\<close> carries the number of its occurrence in the
  statement, since each occurrence is read anew.  Operators give NULL for a NULL operand,
  \<open>WHERE\<close> keeps the rows whose condition is true, and an error of any row aborts the statement.
\<close>

section \<open>Values and expressions\<close>

datatype sql_value =
    VNull
  | VBool bool
  | VInt int
  | VFloat rat
  | VText string
  | VStatus OutboxStatus
  | VTime time
  | VInterval int

datatype sql_column =
    Col_id | Col_event_type | Col_idempotency_key | Col_status | Col_error_message | Col_attempt_count
  | Col_max_attempts | Col_next_retry_at | Col_created_at | Col_updated_at

datatype sql_expr =
    Lit sql_value
  | Col sql_column
  | Clock_timestamp nat
  | Random
  | Plus sql_expr sql_expr
  | Minus sql_expr sql_expr
  | Times sql_expr sql_expr
  | Power sql_expr sql_expr
  | LeastOf sql_expr sql_expr
  | Less sql_expr sql_expr
  | LessEq sql_expr sql_expr
  | Equal sql_expr sql_expr
  | IsIn sql_expr "sql_value list"
  | IsNotNull sql_expr
  | Conj sql_expr sql_expr
  | CaseWhen sql_expr sql_expr sql_expr

definition undefined_operator :: goerr where
  "undefined_operator = PgError ''42883'' ''operator does not exist''"

section \<open>Evaluation\<close>

definition nullable :: "('a \<Rightarrow> sql_value) \<Rightarrow> 'a option \<Rightarrow> sql_value" where
  "nullable f x = (case x of None \<Rightarrow> VNull | Some y \<Rightarrow> f y)"

fun column_value :: "Outbox \<Rightarrow> sql_column \<Rightarrow> sql_value" where
  "column_value r Col_id = VText (ID r)"
| "column_value r Col_event_type = VText (EventType r)"
| "column_value r Col_idempotency_key = VText (IdempotencyKey r)"
| "column_value r Col_status = VStatus (Status r)"
| "column_value r Col_error_message = nullable VText (ErrorMessage r)"
| "column_value r Col_attempt_count = VInt (AttemptCount r)"
| "column_value r Col_max_attempts = VInt (MaxAttempts r)"
| "column_value r Col_next_retry_at = nullable VTime (NextRetryAt r)"
| "column_value r Col_created_at = VTime (CreatedAt r)"
| "column_value r Col_updated_at = VTime (UpdatedAt r)"

fun plus_value :: "sql_value \<Rightarrow> sql_value \<Rightarrow> goerr + sql_value" where
  "plus_value (VInt x) (VInt y) = map_sum id VInt (int4 (x + y))"
| "plus_value (VFloat x) (VFloat y) = Inr (VFloat (x + y))"
| "plus_value (VTime t) (VInterval d) = Inr (VTime (t + d))"
| "plus_value x y = (if x = VNull \<or> y = VNull then Inr VNull else Inl undefined_operator)"

fun minus_value :: "sql_value \<Rightarrow> sql_value \<Rightarrow> goerr + sql_value" where
  "minus_value (VTime t) (VInterval d) = Inr (VTime (t - d))"
| "minus_value x y = (if x = VNull \<or> y = VNull then Inr VNull else Inl undefined_operator)"

definition interval_product :: "pg_ctx \<Rightarrow> int \<Rightarrow> rat \<Rightarrow> goerr + sql_value" where
  "interval_product c d x = (case imul c d x of None \<Rightarrow> Inl interval_out_of_range | Some d' \<Rightarrow> Inr (VInterval d'))"

fun times_value :: "pg_ctx \<Rightarrow> sql_value \<Rightarrow> sql_value \<Rightarrow> goerr + sql_value" where
  "times_value c (VFloat x) (VFloat y) = Inr (VFloat (x * y))"
| "times_value c (VFloat x) (VInterval d) = interval_product c d x"
| "times_value c (VInterval d) (VFloat x) = interval_product c d x"
| "times_value c x y = (if x = VNull \<or> y = VNull then Inr VNull else Inl undefined_operator)"

fun power_value :: "sql_value \<Rightarrow> sql_value \<Rightarrow> goerr + sql_value" where
  "power_value (VFloat x) (VInt n) = Inr (VFloat (x powi n))"
| "power_value x y = (if x = VNull \<or> y = VNull then Inr VNull else Inl undefined_operator)"

fun least_value :: "sql_value \<Rightarrow> sql_value \<Rightarrow> goerr + sql_value" where
  "least_value (VInt x) (VInt y) = Inr (VInt (min x y))"
| "least_value (VInterval x) (VInterval y) = Inr (VInterval (min x y))"
| "least_value x y = (if x = VNull then Inr y else if y = VNull then Inr x else Inl undefined_operator)"

fun less_value :: "sql_value \<Rightarrow> sql_value \<Rightarrow> goerr + sql_value" where
  "less_value (VInt x) (VInt y) = Inr (VBool (x < y))"
| "less_value (VTime x) (VTime y) = Inr (VBool (x < y))"
| "less_value x y = (if x = VNull \<or> y = VNull then Inr VNull else Inl undefined_operator)"

fun lesseq_value :: "sql_value \<Rightarrow> sql_value \<Rightarrow> goerr + sql_value" where
  "lesseq_value (VInt x) (VInt y) = Inr (VBool (x \<le> y))"
| "lesseq_value (VTime x) (VTime y) = Inr (VBool (x \<le> y))"
| "lesseq_value x y = (if x = VNull \<or> y = VNull then Inr VNull else Inl undefined_operator)"

definition equal_value :: "sql_value \<Rightarrow> sql_value \<Rightarrow> goerr + sql_value" where
  "equal_value x y = Inr (if x = VNull \<or> y = VNull then VNull else VBool (x = y))"

text \<open>Three-valued conjunction.\<close>

fun conj_value :: "sql_value \<Rightarrow> sql_value \<Rightarrow> goerr + sql_value" where
  "conj_value (VBool x) (VBool y) = Inr (VBool (x \<and> y))"
| "conj_value (VBool x) VNull = Inr (if x then VNull else VBool False)"
| "conj_value VNull (VBool y) = Inr (if y then VNull else VBool False)"
| "conj_value VNull VNull = Inr VNull"
| "conj_value x y = Inl undefined_operator"

definition value2 ::
  "(sql_value \<Rightarrow> sql_value \<Rightarrow> goerr + sql_value) \<Rightarrow> goerr + sql_value \<Rightarrow> goerr + sql_value \<Rightarrow> goerr + sql_value" where
  "value2 f x y = (case x of Inl e \<Rightarrow> Inl e | Inr u \<Rightarrow> (case y of Inl e \<Rightarrow> Inl e | Inr v \<Rightarrow> f u v))"

fun eval :: "pg_ctx \<Rightarrow> Outbox \<Rightarrow> sql_expr \<Rightarrow> goerr + sql_value" where
  "eval c r (Lit v) = Inr v"
| "eval c r (Col k) = Inr (column_value r k)"
| "eval c r (Clock_timestamp n) = Inr (VTime (clock c (ID r) n))"
| "eval c r Random = Inr (VFloat (rnd c (ID r)))"
| "eval c r (Plus x y) = value2 plus_value (eval c r x) (eval c r y)"
| "eval c r (Minus x y) = value2 minus_value (eval c r x) (eval c r y)"
| "eval c r (Times x y) = value2 (times_value c) (eval c r x) (eval c r y)"
| "eval c r (Power x y) = value2 power_value (eval c r x) (eval c r y)"
| "eval c r (LeastOf x y) = value2 least_value (eval c r x) (eval c r y)"
| "eval c r (Less x y) = value2 less_value (eval c r x) (eval c r y)"
| "eval c r (LessEq x y) = value2 lesseq_value (eval c r x) (eval c r y)"
| "eval c r (Equal x y) = value2 equal_value (eval c r x) (eval c r y)"
| "eval c r (IsIn x vs) = map_sum id (\<lambda>v. if v = VNull then VNull else VBool (v \<in> set vs)) (eval c r x)"
| "eval c r (IsNotNull x) = map_sum id (\<lambda>v. VBool (v \<noteq> VNull)) (eval c r x)"
| "eval c r (Conj x y) = value2 conj_value (eval c r x) (eval c r y)"
| "eval c r (CaseWhen b x y) =
     (case eval c r b of Inl e \<Rightarrow> Inl e | Inr v \<Rightarrow> if v = VBool True then eval c r x else eval c r y)"

section \<open>Statements\<close>

fun set_column :: "sql_column \<Rightarrow> sql_value \<Rightarrow> Outbox \<Rightarrow> goerr + Outbox" where
  "set_column Col_status (VStatus x) r = Inr (r\<lparr>Status := x\<rparr>)"
| "set_column Col_error_message (VText x) r = Inr (r\<lparr>ErrorMessage := Some x\<rparr>)"
| "set_column Col_error_message VNull r = Inr (r\<lparr>ErrorMessage := None\<rparr>)"
| "set_column Col_attempt_count (VInt x) r = Inr (r\<lparr>AttemptCount := x\<rparr>)"
| "set_column Col_next_retry_at (VTime x) r = Inr (r\<lparr>NextRetryAt := Some x\<rparr>)"
| "set_column Col_next_retry_at VNull r = Inr (r\<lparr>NextRetryAt := None\<rparr>)"
| "set_column Col_updated_at (VTime x) r = Inr (r\<lparr>UpdatedAt := x\<rparr>)"
| "set_column k v r = Inl (if v = VNull then not_null_violation else undefined_operator)"

text \<open>\<open>SET\<close>: every right-hand side reads the old row.\<close>

fun assign :: "pg_ctx \<Rightarrow> Outbox \<Rightarrow> (sql_column \<times> sql_expr) list \<Rightarrow> Outbox \<Rightarrow> goerr + Outbox" where
  "assign c old [] r = Inr r"
| "assign c old ((k, x) # xs) r =
     (case eval c old x of
        Inl e \<Rightarrow> Inl e
      | Inr v \<Rightarrow> (case set_column k v r of Inl e \<Rightarrow> Inl e | Inr r' \<Rightarrow> assign c old xs r'))"

definition update_where ::
  "pg_ctx \<Rightarrow> sql_expr \<Rightarrow> (sql_column \<times> sql_expr) list \<Rightarrow> Outbox list \<Rightarrow> goerr + Outbox list \<times> nat" where
  "update_where c cond xs =
     sql_update (\<lambda>r. case eval c r cond of Inl e \<Rightarrow> True | Inr v \<Rightarrow> v = VBool True)
       (\<lambda>r. case eval c r cond of Inl e \<Rightarrow> Inl e | Inr v \<Rightarrow> assign c r xs r)"

definition rows_where :: "pg_ctx \<Rightarrow> sql_expr \<Rightarrow> Outbox list \<Rightarrow> goerr + Outbox list" where
  "rows_where c cond rs =
     (case find (\<lambda>r. isl (eval c r cond)) rs of
        Some r \<Rightarrow> Inl (projl (eval c r cond))
      | None \<Rightarrow> Inr (filter (\<lambda>r. eval c r cond = Inr (VBool True)) rs))"

definition delete_where :: "pg_ctx \<Rightarrow> sql_expr \<Rightarrow> Outbox list \<Rightarrow> goerr + Outbox list \<times> nat" where
  "delete_where c cond rs =
     (case rows_where c cond rs of
        Inl e \<Rightarrow> Inl e
      | Inr _ \<Rightarrow> sql_delete (\<lambda>r. eval c r cond = Inr (VBool True)) rs)"

section \<open>Conditions that cannot fail\<close>

lemma sql_update_cong:
  assumes "\<And>r. P r = Q r" "\<And>r. Q r \<Longrightarrow> f r = g r"
  shows "sql_update P f rs = sql_update Q g rs"
  by (induction rs) (use assms in \<open>simp_all split: sum.splits\<close>)

lemma update_where_eq:
  assumes "\<And>r. eval c r cond = Inr (VBool (Q r)) \<or> eval c r cond = Inr VNull \<and> \<not> Q r" "\<And>r. Q r \<Longrightarrow> assign c r xs r = g r"
  shows "update_where c cond xs rs = sql_update Q g rs"
  unfolding update_where_def
proof (rule sql_update_cong)
  show "(case eval c r cond of Inl e \<Rightarrow> True | Inr v \<Rightarrow> v = VBool True) = Q r" for r
    using assms(1)[of r] by auto
  show "Q r \<Longrightarrow> (case eval c r cond of Inl e \<Rightarrow> Inl e | Inr v \<Rightarrow> assign c r xs r) = g r" for r
    using assms(1)[of r] assms(2)[of r] by auto
qed

lemma rows_where_eq:
  assumes "\<And>r. eval c r cond = Inr (VBool (Q r))"
  shows "rows_where c cond rs = Inr (filter Q rs)"
  using assms by (auto simp: rows_where_def find_None_iff split: option.splits dest!: find_Some_in_set)

lemma delete_where_eq:
  assumes "\<And>r. eval c r cond = Inr (VBool (Q r))"
  shows "delete_where c cond rs = sql_delete Q rs"
  using assms by (simp add: delete_where_def rows_where_eq[OF assms])

end
