(* ===== verification/Gorm_Repo.thy ===== *)
theory Gorm_Repo
  imports Pgx_Correct Sql_Expr "HOL-Library.List_Lexorder" "HOL-Library.Char_ord"
begin

text \<open>
  \<open>src/contrib/gorm/config.go\<close> and \<open>src/contrib/gorm/repo.go\<close>: the GORM implementation of the
  outbox repository.  Its statements are written down as the source writes them, the
  conditions, \<open>SET\<close> lists and sub-queries as SQL expressions (\<open>Sql_Expr\<close>), and only then related
  to the pgx repository; the insert goes through the model struct and its tags, the reads
  through \<open>First\<close>, which orders by the primary key.  A call carries a \<open>pg_ctx\<close> and, for the insert,
  the application's clock rounded to the microseconds the table keeps.
\<close>

section \<open>Configuration\<close>

record gorm_Config =
  g_OutboxTableName :: string
  g_InboxTableName :: string
  g_RequeueBackoffBase :: duration
  g_RequeueBackoffMax :: duration
  g_StuckPublishingThreshold :: duration

datatype gorm_Option =
    Gorm_WithOutboxTableName string
  | Gorm_WithInboxTableName string
  | Gorm_WithStuckPublishingThreshold duration

definition gorm_DefaultConfig :: gorm_Config where
  "gorm_DefaultConfig =
     \<lparr>g_OutboxTableName = ''outbox'', g_InboxTableName = ''consumer_inbox'',
      g_RequeueBackoffBase = 1 * second, g_RequeueBackoffMax = 3600 * second,
      g_StuckPublishingThreshold = 300 * second\<rparr>"

fun gorm_apply_option :: "gorm_Option \<Rightarrow> gorm_Config \<Rightarrow> goerr + gorm_Config" where
  "gorm_apply_option (Gorm_WithOutboxTableName name) c =
     (case ValidateTableName name of Some err \<Rightarrow> Inl err | None \<Rightarrow> Inr (c\<lparr>g_OutboxTableName := name\<rparr>))"
| "gorm_apply_option (Gorm_WithInboxTableName name) c =
     (case ValidateTableName name of Some err \<Rightarrow> Inl err | None \<Rightarrow> Inr (c\<lparr>g_InboxTableName := name\<rparr>))"
| "gorm_apply_option (Gorm_WithStuckPublishingThreshold threshold) c =
     Inr (c\<lparr>g_StuckPublishingThreshold := threshold\<rparr>)"

fun gorm_apply_opts :: "gorm_Option list \<Rightarrow> gorm_Config \<Rightarrow> goerr + gorm_Config" where
  "gorm_apply_opts [] c = Inr c"
| "gorm_apply_opts (opt # opts) c =
     (case gorm_apply_option opt c of Inl e \<Rightarrow> Inl e | Inr c' \<Rightarrow> gorm_apply_opts opts c')"

definition gorm_applyOptions :: "gorm_Option list \<Rightarrow> goerr + gorm_Config" where
  "gorm_applyOptions opts = gorm_apply_opts opts gorm_DefaultConfig"

record gorm_repo =
  g_tableName :: string
  g_backoffBase :: duration
  g_backoffMax :: duration
  g_stuckPublishingThreshold :: duration

definition gorm_NewOutboxRepository :: "gorm_Option list \<Rightarrow> goerr + gorm_repo" where
  "gorm_NewOutboxRepository opts =
     (case gorm_applyOptions opts of
        Inl e \<Rightarrow> Inl e
      | Inr cfg \<Rightarrow>
          (case ValidateTableName (g_OutboxTableName cfg) of
             Some err \<Rightarrow>
               Inl (WrapError (''invalid outbox table name '' @ CHR 0x22 # g_OutboxTableName cfg @ CHR 0x22 # '': '') err [])
           | None \<Rightarrow>
               Inr \<lparr>g_tableName = g_OutboxTableName cfg, g_backoffBase = g_RequeueBackoffBase cfg,
                    g_backoffMax = g_RequeueBackoffMax cfg,
                    g_stuckPublishingThreshold = g_StuckPublishingThreshold cfg\<rparr>))"

section \<open>The model struct\<close>

record outboxModel =
  m_ID :: string
  m_EventType :: string
  m_Payload :: go_bytes
  m_Metadata :: go_bytes
  m_IdempotencyKey :: string
  m_Status :: OutboxStatus
  m_ErrorMessage :: "string option"
  m_AttemptCount :: int
  m_MaxAttempts :: int
  m_NextRetryAt :: "time option"
  m_CreatedAt :: time
  m_UpdatedAt :: time

definition modelToCore :: "outboxModel \<Rightarrow> Outbox" where
  "modelToCore m =
     \<lparr>ID = m_ID m, EventType = m_EventType m, Payload = m_Payload m, Metadata = m_Metadata m,
      IdempotencyKey = m_IdempotencyKey m, Status = m_Status m, ErrorMessage = m_ErrorMessage m,
      AttemptCount = m_AttemptCount m, MaxAttempts = m_MaxAttempts m,
      NextRetryAt = m_NextRetryAt m, CreatedAt = m_CreatedAt m, UpdatedAt = m_UpdatedAt m\<rparr>"

definition scan_model :: "Outbox \<Rightarrow> outboxModel" where
  "scan_model r =
     \<lparr>m_ID = ID r, m_EventType = EventType r, m_Payload = Payload r, m_Metadata = Metadata r,
      m_IdempotencyKey = IdempotencyKey r, m_Status = Status r, m_ErrorMessage = ErrorMessage r,
      m_AttemptCount = AttemptCount r, m_MaxAttempts = MaxAttempts r,
      m_NextRetryAt = NextRetryAt r, m_CreatedAt = CreatedAt r, m_UpdatedAt = UpdatedAt r\<rparr>"

text \<open>
  What the struct tags make of a model before it is written: a zero field with a \<open>default\<close>
  tag takes the default, zero creation and update times take the application's clock.
\<close>

definition tag_defaults :: "time \<Rightarrow> outboxModel \<Rightarrow> outboxModel" where
  "tag_defaults now m =
     m\<lparr>m_AttemptCount := if m_AttemptCount m = 0 then 1 else m_AttemptCount m,
       m_MaxAttempts := if m_MaxAttempts m = 0 then 10 else m_MaxAttempts m,
       m_CreatedAt := if m_CreatedAt m = 0 then now else m_CreatedAt m,
       m_UpdatedAt := if m_UpdatedAt m = 0 then now else m_UpdatedAt m\<rparr>"

section \<open>The operations\<close>

definition as_pgx :: "gorm_repo \<Rightarrow> pgx_repo" where
  "as_pgx rp =
     \<lparr>tableName = g_tableName rp, backoffBase = g_backoffBase rp, backoffMax = g_backoffMax rp,
      stuckPublishingThreshold = g_stuckPublishingThreshold rp\<rparr>"

definition create_stmt ::
  "pg_ctx \<Rightarrow> outboxModel \<Rightarrow> Outbox list \<Rightarrow> goerr + Outbox list \<times> outboxModel" where
  "create_stmt c m rs =
     (case int4 (m_MaxAttempts m) of
        Inl e \<Rightarrow> Inl e
      | Inr maxA \<Rightarrow>
     (case jsonb c (m_Payload m) of
        Inl e \<Rightarrow> Inl e
      | Inr None \<Rightarrow> Inl not_null_violation
      | Inr (Some payload) \<Rightarrow>
     (case jsonb c (m_Metadata m) of
        Inl e \<Rightarrow> Inl e
      | Inr metadata \<Rightarrow>
          let r = modelToCore (m\<lparr>m_Payload := Some payload, m_Metadata := metadata\<rparr>)
          in if ID r \<in> ID ` set rs \<or>
               (EventType r, IdempotencyKey r) \<in> (\<lambda>x. (EventType x, IdempotencyKey x)) ` set rs
             then Inl unique_violation
             else Inr (rs @ [r], m))))"

definition gorm_Insert ::
  "gorm_repo \<Rightarrow> time \<Rightarrow> pg_ctx \<Rightarrow> OutboxInsertParams \<Rightarrow> Outbox list \<Rightarrow> (goerr + Outbox) \<times> Outbox list" where
  "gorm_Insert rp now c params rs =
     (let model =
        \<lparr>m_ID = new_uuid c, m_EventType = p_EventType params, m_Payload = p_Payload params,
         m_Metadata = p_Metadata params, m_IdempotencyKey = p_IdempotencyKey params,
         m_Status = OutboxStatusEnqueued, m_ErrorMessage = None, m_AttemptCount = 0,
         m_MaxAttempts = p_MaxAttempts params, m_NextRetryAt = None, m_CreatedAt = 0, m_UpdatedAt = 0\<rparr>
      in case run_statement (outcome c)
           (text_args [p_EventType params, p_IdempotencyKey params]
             (create_stmt c (tag_defaults now model))) rs of
           (Inl e, rs') \<Rightarrow>
             (if errors_As_PgError e = Some ''23505'' then Inl (Sentinel ErrAlreadyExists) else Inl e, rs')
         | (Inr m, rs') \<Rightarrow> (Inr (modelToCore m), rs'))"

text \<open>The sub-query \<open>locked\<close> and the update of the rows it selected, with its \<open>RETURNING\<close> list (all but \<open>next_retry_at\<close>).\<close>

definition gorm_fetchable :: sql_expr where
  "gorm_fetchable = Equal (Col Col_status) (Lit (VStatus OutboxStatusEnqueued))"

definition gorm_locked :: "pg_ctx \<Rightarrow> nat \<Rightarrow> Outbox list \<Rightarrow> goerr + string list" where
  "gorm_locked c n rs =
     (case rows_where c gorm_fetchable rs of
        Inl e \<Rightarrow> Inl e
      | Inr xs \<Rightarrow> Inr (map ID (take n (sort_key CreatedAt (filter (\<lambda>r. \<not> locked c (ID r)) xs)))))"

definition gorm_returned :: "Outbox \<Rightarrow> Outbox" where
  "gorm_returned r =
     \<lparr>ID = ID r, EventType = EventType r, Payload = Payload r, Metadata = Metadata r,
      IdempotencyKey = IdempotencyKey r, Status = Status r, ErrorMessage = ErrorMessage r,
      AttemptCount = AttemptCount r, MaxAttempts = MaxAttempts r, NextRetryAt = None,
      CreatedAt = CreatedAt r, UpdatedAt = UpdatedAt r\<rparr>"

definition gorm_fetch_set :: "(sql_column \<times> sql_expr) list" where
  "gorm_fetch_set = [(Col_status, Lit (VStatus OutboxStatusPublishing)), (Col_updated_at, Clock_timestamp 0)]"

definition gorm_fetch_stmt ::
  "pg_ctx \<Rightarrow> int \<Rightarrow> Outbox list \<Rightarrow> goerr + Outbox list \<times> outboxModel list" where
  "gorm_fetch_stmt c limit rs =
     (if limit < 0 then Inl negative_limit
      else
        (case gorm_locked c (nat limit) rs of
           Inl e \<Rightarrow> Inl e
         | Inr ids \<Rightarrow>
             (case update_where c (IsIn (Col Col_id) (map VText ids)) gorm_fetch_set rs of
                Inl e \<Rightarrow> Inl e
              | Inr (rs', n) \<Rightarrow>
                  Inr (rs', map scan_model (returning c (map gorm_returned (filter (\<lambda>r. ID r \<in> set ids) rs')))))))"

definition gorm_FetchAndLockToPublishing ::
  "gorm_repo \<Rightarrow> pg_ctx \<Rightarrow> Outbox list \<Rightarrow> (goerr + Outbox) \<times> Outbox list" where
  "gorm_FetchAndLockToPublishing rp c rs =
     (case run_statement (outcome c) (gorm_fetch_stmt c 1) rs of
        (Inl e, rs') \<Rightarrow> (Inl e, rs')
      | (Inr [], rs') \<Rightarrow> (Inl (Sentinel ErrNoMessage), rs')
      | (Inr (model # _), rs') \<Rightarrow> (Inr (modelToCore model), rs'))"

definition gorm_expect_updated :: "string \<Rightarrow> (goerr + nat) \<times> 's \<Rightarrow> goerr option \<times> 's" where
  "gorm_expect_updated i result =
     (case result of
        (Inl e, s) \<Rightarrow> (Some e, s)
      | (Inr n, s) \<Rightarrow>
          if n = 0
          then (Some (WrapError [] (Sentinel ErrInvalidStatus)
                  ('': expected PUBLISHING status for message '' @ i)), s)
          else (None, s))"

definition gorm_count :: "(goerr + nat) \<times> 's \<Rightarrow> (goerr + int) \<times> 's" where
  "gorm_count result = (case result of (Inl e, s) \<Rightarrow> (Inl e, s) | (Inr n, s) \<Rightarrow> (Inr (int n), s))"

definition gorm_publishing :: "string \<Rightarrow> sql_expr" where
  "gorm_publishing i =
     Conj (Equal (Col Col_id) (Lit (VText i))) (Equal (Col Col_status) (Lit (VStatus OutboxStatusPublishing)))"

definition gorm_published_set :: "(sql_column \<times> sql_expr) list" where
  "gorm_published_set = [(Col_status, Lit (VStatus OutboxStatusPublished)), (Col_updated_at, Clock_timestamp 0)]"

definition gorm_UpdateToPublished ::
  "gorm_repo \<Rightarrow> pg_ctx \<Rightarrow> string \<Rightarrow> Outbox list \<Rightarrow> goerr option \<times> Outbox list" where
  "gorm_UpdateToPublished rp c i rs =
     gorm_expect_updated i
       (run_statement (outcome c) (update_where c (gorm_publishing i) gorm_published_set) rs)"

definition gorm_failed_set :: "gorm_repo \<Rightarrow> string \<Rightarrow> (sql_column \<times> sql_expr) list" where
  "gorm_failed_set rp errMsg =
     [(Col_status, Lit (VStatus OutboxStatusFailed)),
      (Col_error_message, Lit (VText errMsg)),
      (Col_attempt_count, Plus (Col Col_attempt_count) (Lit (VInt 1))),
      (Col_next_retry_at,
        Plus (Clock_timestamp 0)
          (Times
            (LeastOf
              (Times (Times (Lit (VFloat (Seconds (g_backoffBase rp)))) (Lit (VInterval 1000000)))
                     (Power (Lit (VFloat 2)) (Col Col_attempt_count)))
              (Times (Lit (VFloat (Seconds (g_backoffMax rp)))) (Lit (VInterval 1000000))))
            (Plus (Lit (VFloat (1 / 2))) (Times Random (Lit (VFloat (1 / 2))))))),
      (Col_updated_at, Clock_timestamp 1)]"

definition gorm_UpdateToFailed ::
  "gorm_repo \<Rightarrow> pg_ctx \<Rightarrow> string \<Rightarrow> string \<Rightarrow> Outbox list \<Rightarrow> goerr option \<times> Outbox list" where
  "gorm_UpdateToFailed rp c i errMsg rs =
     gorm_expect_updated i
       (run_statement (outcome c)
         (text_args [errMsg] (update_where c (gorm_publishing i) (gorm_failed_set rp errMsg))) rs)"

definition gorm_dead_set :: "string \<Rightarrow> (sql_column \<times> sql_expr) list" where
  "gorm_dead_set errMsg =
     [(Col_status, Lit (VStatus OutboxStatusDead)),
      (Col_error_message, Lit (VText errMsg)),
      (Col_attempt_count, LeastOf (Plus (Col Col_attempt_count) (Lit (VInt 1))) (Col Col_max_attempts)),
      (Col_updated_at, Clock_timestamp 0)]"

definition gorm_UpdateToDead ::
  "gorm_repo \<Rightarrow> pg_ctx \<Rightarrow> string \<Rightarrow> string \<Rightarrow> Outbox list \<Rightarrow> goerr option \<times> Outbox list" where
  "gorm_UpdateToDead rp c i errMsg rs =
     gorm_expect_updated i
       (run_statement (outcome c)
         (text_args [errMsg] (update_where c (gorm_publishing i) (gorm_dead_set errMsg))) rs)"

definition gorm_requeue_due :: sql_expr where
  "gorm_requeue_due =
     Conj (Conj (Conj (Equal (Col Col_status) (Lit (VStatus OutboxStatusFailed)))
                      (Less (Col Col_attempt_count) (Col Col_max_attempts)))
                (IsNotNull (Col Col_next_retry_at)))
          (LessEq (Col Col_next_retry_at) (Clock_timestamp 1))"

definition gorm_enqueued_set :: "(sql_column \<times> sql_expr) list" where
  "gorm_enqueued_set = [(Col_status, Lit (VStatus OutboxStatusEnqueued)), (Col_updated_at, Clock_timestamp 0)]"

definition gorm_RequeueFailed :: "gorm_repo \<Rightarrow> pg_ctx \<Rightarrow> Outbox list \<Rightarrow> (goerr + int) \<times> Outbox list" where
  "gorm_RequeueFailed rp c rs =
     gorm_count (run_statement (outcome c) (update_where c gorm_requeue_due gorm_enqueued_set) rs)"

text \<open>\<open>Where(...).First(&model)\<close>: the matching row with the least primary key.\<close>

definition First :: "pg_ctx \<Rightarrow> sql_expr \<Rightarrow> Outbox list \<Rightarrow> goerr + outboxModel" where
  "First c cond rs =
     (case rows_where c cond rs of
        Inl e \<Rightarrow> Inl e
      | Inr xs \<Rightarrow>
          (case sort_key ID xs of
             [] \<Rightarrow> Inl (Sentinel GormErrRecordNotFound)
           | r # _ \<Rightarrow> Inr (scan_model r)))"

definition gorm_GetByID :: "gorm_repo \<Rightarrow> pg_ctx \<Rightarrow> string \<Rightarrow> Outbox list \<Rightarrow> goerr + Outbox" where
  "gorm_GetByID rp c i rs =
     (case run_query (outcome c) (First c (Equal (Col Col_id) (Lit (VText i))) rs) of
        Inl e \<Rightarrow> if errors_Is e GormErrRecordNotFound then Inl (Sentinel ErrNotFound) else Inl e
      | Inr model \<Rightarrow> Inr (modelToCore model))"

definition gorm_GetByIdempotencyKey ::
  "gorm_repo \<Rightarrow> pg_ctx \<Rightarrow> string \<Rightarrow> string \<Rightarrow> Outbox list \<Rightarrow> goerr + Outbox" where
  "gorm_GetByIdempotencyKey rp c eventType idempotencyKey rs =
     (case run_query (outcome c)
        (text_args [eventType, idempotencyKey]
           (First c (Conj (Equal (Col Col_event_type) (Lit (VText eventType)))
                          (Equal (Col Col_idempotency_key) (Lit (VText idempotencyKey))))) rs) of
        Inl e \<Rightarrow> if errors_Is e GormErrRecordNotFound then Inl (Sentinel ErrNotFound) else Inl e
      | Inr model \<Rightarrow> Inr (modelToCore model))"

definition gorm_InsertOutboxJSONWithMetadata ::
  "('p \<Rightarrow> goerr + string) \<Rightarrow> gorm_repo \<Rightarrow> time \<Rightarrow> pg_ctx \<Rightarrow> string \<Rightarrow> 'p \<Rightarrow> 'p option \<Rightarrow> string \<Rightarrow> int \<Rightarrow>
   Outbox list \<Rightarrow> (goerr + Outbox) \<times> Outbox list" where
  "gorm_InsertOutboxJSONWithMetadata marshal rp now c eventType payload metadata idempotencyKey maxRetries rs =
     (case marshal payload of
        Inl err \<Rightarrow> (Inl err, rs)
      | Inr data \<Rightarrow>
          (case (case metadata of None \<Rightarrow> Inr None | Some m \<Rightarrow>
                   (case marshal m of Inl err \<Rightarrow> Inl err | Inr b \<Rightarrow> Inr (Some b))) of
             Inl err \<Rightarrow> (Inl err, rs)
           | Inr metadataBytes \<Rightarrow>
               gorm_Insert rp now c \<lparr>p_EventType = eventType, p_Payload = Some data,
                 p_Metadata = metadataBytes, p_IdempotencyKey = idempotencyKey,
                 p_MaxAttempts = maxRetries\<rparr> rs))"

definition gorm_InsertOutboxJSON ::
  "('p \<Rightarrow> goerr + string) \<Rightarrow> gorm_repo \<Rightarrow> time \<Rightarrow> pg_ctx \<Rightarrow> string \<Rightarrow> 'p \<Rightarrow> string \<Rightarrow> int \<Rightarrow>
   Outbox list \<Rightarrow> (goerr + Outbox) \<times> Outbox list" where
  "gorm_InsertOutboxJSON marshal rp now c eventType payload idempotencyKey maxRetries rs =
     gorm_InsertOutboxJSONWithMetadata marshal rp now c eventType payload None idempotencyKey maxRetries rs"

text \<open>\<open>attempt_count + 1 >= max_attempts\<close>, the condition of the three \<open>CASE\<close> expressions.\<close>

definition gorm_last_attempt :: sql_expr where
  "gorm_last_attempt = LessEq (Col Col_max_attempts) (Plus (Col Col_attempt_count) (Lit (VInt 1)))"

definition gorm_revive_set :: "gorm_repo \<Rightarrow> (sql_column \<times> sql_expr) list" where
  "gorm_revive_set rp =
     [(Col_status,
        CaseWhen gorm_last_attempt (Lit (VStatus OutboxStatusDead)) (Lit (VStatus OutboxStatusFailed))),
      (Col_error_message,
        CaseWhen gorm_last_attempt
          (Lit (VText ''revived from PUBLISHING (crash recovery) - max attempts reached''))
          (Lit (VText ''revived from PUBLISHING (crash recovery)''))),
      (Col_attempt_count, LeastOf (Plus (Col Col_attempt_count) (Lit (VInt 1))) (Col Col_max_attempts)),
      (Col_next_retry_at,
        CaseWhen gorm_last_attempt (Lit VNull)
          (Plus (Clock_timestamp 0)
            (Times
              (LeastOf
                (Times (Times (Lit (VFloat (Seconds (g_backoffBase rp)))) (Lit (VInterval 1000000)))
                       (Power (Lit (VFloat 2)) (Col Col_attempt_count)))
                (Times (Lit (VFloat (Seconds (g_backoffMax rp)))) (Lit (VInterval 1000000))))
              (Plus (Lit (VFloat (1 / 2))) (Times Random (Lit (VFloat (1 / 2)))))))),
      (Col_updated_at, Clock_timestamp 1)]"

text \<open>The interval text counts whole seconds.\<close>

definition gorm_stuck :: "gorm_repo \<Rightarrow> sql_expr" where
  "gorm_stuck rp =
     Conj (Equal (Col Col_status) (Lit (VStatus OutboxStatusPublishing)))
       (Less (Col Col_updated_at)
         (Minus (Clock_timestamp 2) (Lit (VInterval (to_int64 (Seconds (g_stuckPublishingThreshold rp)) * 1000000)))))"

definition gorm_ReviveStuckPublishing ::
  "gorm_repo \<Rightarrow> pg_ctx \<Rightarrow> Outbox list \<Rightarrow> (goerr + int) \<times> Outbox list" where
  "gorm_ReviveStuckPublishing rp c rs =
     gorm_count (run_statement (outcome c) (update_where c (gorm_stuck rp) (gorm_revive_set rp)) rs)"

definition gorm_FetchLockAndMarkPublishing ::
  "gorm_repo \<Rightarrow> pg_ctx \<Rightarrow> int \<Rightarrow> Outbox list \<Rightarrow> (goerr + Outbox list) \<times> Outbox list" where
  "gorm_FetchLockAndMarkPublishing rp c limit rs =
     (case run_statement (outcome c) (gorm_fetch_stmt c limit) rs of
        (Inl e, rs') \<Rightarrow> (Inl e, rs')
      | (Inr models, rs') \<Rightarrow> (Inr (map modelToCore models), rs'))"

definition gorm_UpdateBatchToPublished ::
  "gorm_repo \<Rightarrow> pg_ctx \<Rightarrow> string list \<Rightarrow> Outbox list \<Rightarrow> (goerr + int) \<times> Outbox list" where
  "gorm_UpdateBatchToPublished rp c ids rs =
     (if ids = [] then (Inr 0, rs)
      else gorm_count (run_statement (outcome c)
             (update_where c
               (Conj (IsIn (Col Col_id) (map VText ids)) (Equal (Col Col_status) (Lit (VStatus OutboxStatusPublishing))))
               gorm_published_set) rs))"

definition gorm_DeleteOlderThan ::
  "gorm_repo \<Rightarrow> pg_ctx \<Rightarrow> OutboxStatus list \<Rightarrow> duration \<Rightarrow> Outbox list \<Rightarrow> (goerr + int) \<times> Outbox list" where
  "gorm_DeleteOlderThan rp c statuses olderThan rs =
     (if statuses = [] then (Inl (ErrorString ''at least one status must be specified''), rs)
      else gorm_count (run_statement (outcome c)
             (delete_where c
               (Conj (IsIn (Col Col_status) (map VStatus statuses))
                 (Less (Col Col_updated_at)
                   (Minus (Clock_timestamp 0) (Lit (VInterval (Microseconds olderThan))))))) rs))"

definition gorm_repository :: "gorm_repo \<Rightarrow> time \<Rightarrow> (pg_ctx, Outbox list) BatchOutboxRepository" where
  "gorm_repository rp now =
     \<lparr>Insert = gorm_Insert rp now, FetchAndLockToPublishing = gorm_FetchAndLockToPublishing rp,
      UpdateToPublished = gorm_UpdateToPublished rp, UpdateToFailed = gorm_UpdateToFailed rp,
      UpdateToDead = gorm_UpdateToDead rp, RequeueFailed = gorm_RequeueFailed rp,
      GetByID = gorm_GetByID rp, GetByIdempotencyKey = gorm_GetByIdempotencyKey rp,
      FetchLockAndMarkPublishing = gorm_FetchLockAndMarkPublishing rp,
      UpdateBatchToPublished = gorm_UpdateBatchToPublished rp\<rparr>"

section \<open>Agreement with the pgx repository\<close>

lemma modelToCore_scan [simp]: "modelToCore (scan_model r) = r"
  by (simp add: modelToCore_def scan_model_def)

lemma modelToCore_scan_id [simp]: "modelToCore \<circ> scan_model = id"
  by (simp add: fun_eq_iff)

lemma gorm_result [simp]: "gorm_expect_updated = expect_affected" "gorm_count = rows_affected"
  by (auto simp: fun_eq_iff gorm_expect_updated_def expect_affected_def gorm_count_def rows_affected_def
      split: prod.splits sum.splits)

text \<open>What the conditions of the statements say of a row.\<close>

lemmas eval_simps = value2_def equal_value_def nullable_def interval_product_def

lemma gorm_conditions:
  "eval c r gorm_fetchable = Inr (VBool (Status r = OutboxStatusEnqueued))"
  "eval c r (gorm_publishing i) = Inr (VBool (publishing_row i r))"
  "eval c r (gorm_stuck rp) = Inr (VBool (stuck (as_pgx rp) c r))"
  "eval c r gorm_requeue_due = Inr (VBool (requeue_due c r)) \<or> eval c r gorm_requeue_due = Inr VNull \<and> \<not> requeue_due c r"
  by (auto simp: eval_simps gorm_fetchable_def gorm_publishing_def gorm_stuck_def gorm_requeue_due_def stuck_def
      as_pgx_def requeue_due_def split: option.splits)

text \<open>What the \<open>SET\<close> lists make of a row.\<close>

lemma gorm_assignments:
  "assign c r gorm_fetch_set r = Inr (mark_publishing c r)"
  "assign c r gorm_published_set r = set_published c r"
  "assign c r gorm_enqueued_set r = set_enqueued c r"
  by (simp_all add: gorm_fetch_set_def mark_publishing_def gorm_published_set_def set_published_def gorm_enqueued_set_def
      set_enqueued_def)

lemma gorm_dead_assignment: "assign c r (gorm_dead_set errMsg) r = set_dead c errMsg r"
  by (cases "int4 (AttemptCount r + 1)")
    (simp_all add: gorm_dead_set_def set_dead_def eval_simps del: int4_Inr)

text \<open>The retry time both \<open>UPDATE\<close> statements compute.\<close>

lemma eval_retry:
  "eval c r (Plus (Clock_timestamp n)
      (Times
        (LeastOf
          (Times (Times (Lit (VFloat (Seconds base))) (Lit (VInterval 1000000)))
                 (Power (Lit (VFloat 2)) (Col Col_attempt_count)))
          (Times (Lit (VFloat (Seconds mx))) (Lit (VInterval 1000000))))
        (Plus (Lit (VFloat (1 / 2))) (Times Random (Lit (VFloat (1 / 2))))))) =
   map_sum id (\<lambda>d. VTime (clock c (ID r) n + d)) (pg_backoff c base mx (ID r) (AttemptCount r))"
  by (simp add: pg_backoff_def eval_simps split: option.splits)

lemma assign_failed:
  assumes "eval c r retry = map_sum id (\<lambda>d. VTime (clock c (ID r) 0 + d))
      (pg_backoff c (g_backoffBase rp) (g_backoffMax rp) (ID r) (AttemptCount r))"
  shows "assign c r
     [(Col_status, Lit (VStatus OutboxStatusFailed)), (Col_error_message, Lit (VText errMsg)),
      (Col_attempt_count, Plus (Col Col_attempt_count) (Lit (VInt 1))), (Col_next_retry_at, retry),
      (Col_updated_at, Clock_timestamp 1)] r = set_failed (as_pgx rp) c errMsg r"
  using assms
  by (cases "int4 (AttemptCount r + 1)"; cases "pg_backoff c (g_backoffBase rp) (g_backoffMax rp) (ID r) (AttemptCount r)")
    (simp_all add: set_failed_def as_pgx_def value2_def del: int4_Inr)

lemma gorm_failed_assignment: "assign c r (gorm_failed_set rp errMsg) r = set_failed (as_pgx rp) c errMsg r"
  unfolding gorm_failed_set_def by (rule assign_failed[OF eval_retry])

lemma eval_last_attempt:
  "int4 (AttemptCount r + 1) = Inl e \<Longrightarrow> eval c r gorm_last_attempt = Inl e"
  "int4 (AttemptCount r + 1) = Inr a \<Longrightarrow> eval c r gorm_last_attempt = Inr (VBool (MaxAttempts r \<le> a))"
  by (simp_all add: gorm_last_attempt_def value2_def del: int4_Inr)

lemma assign_revived:
  assumes "eval c r retry = map_sum id (\<lambda>d. VTime (clock c (ID r) 0 + d))
      (pg_backoff c (g_backoffBase rp) (g_backoffMax rp) (ID r) (AttemptCount r))"
  shows "assign c r
     [(Col_status, CaseWhen gorm_last_attempt (Lit (VStatus OutboxStatusDead)) (Lit (VStatus OutboxStatusFailed))),
      (Col_error_message, CaseWhen gorm_last_attempt
        (Lit (VText ''revived from PUBLISHING (crash recovery) - max attempts reached''))
        (Lit (VText ''revived from PUBLISHING (crash recovery)''))),
      (Col_attempt_count, LeastOf (Plus (Col Col_attempt_count) (Lit (VInt 1))) (Col Col_max_attempts)),
      (Col_next_retry_at, CaseWhen gorm_last_attempt (Lit VNull) retry),
      (Col_updated_at, Clock_timestamp 1)] r = set_revived (as_pgx rp) c r"
proof (cases "int4 (AttemptCount r + 1)")
  case (Inl e)
  then show ?thesis by (simp add: eval_last_attempt(1)[OF Inl] set_revived_def)
next
  case (Inr a)
  then show ?thesis
    using assms eval_last_attempt(2)[OF Inr, of c]
    by (cases "MaxAttempts r \<le> a"; cases "pg_backoff c (g_backoffBase rp) (g_backoffMax rp) (ID r) (AttemptCount r)")
      (simp_all add: set_revived_def revived_text_def as_pgx_def value2_def del: int4_Inr)
qed

lemma gorm_revive_assignment: "assign c r (gorm_revive_set rp) r = set_revived (as_pgx rp) c r"
  unfolding gorm_revive_set_def by (rule assign_revived[OF eval_retry])

lemma gorm_updates:
  "update_where c (gorm_publishing i) gorm_published_set = sql_update (publishing_row i) (set_published c)"
  "update_where c (gorm_publishing i) (gorm_failed_set rp em) =
     sql_update (publishing_row i) (set_failed (as_pgx rp) c em)"
  "update_where c (gorm_publishing i) (gorm_dead_set em) = sql_update (publishing_row i) (set_dead c em)"
  "update_where c gorm_requeue_due gorm_enqueued_set = sql_update (requeue_due c) (set_enqueued c)"
  "update_where c (gorm_stuck rp) (gorm_revive_set rp) = sql_update (stuck (as_pgx rp) c) (set_revived (as_pgx rp) c)"
  by (rule ext, rule update_where_eq,
      simp_all add: gorm_conditions gorm_assignments gorm_dead_assignment gorm_failed_assignment gorm_revive_assignment)+

lemma gorm_batch_update:
  "update_where c (Conj (IsIn (Col Col_id) (map VText ids)) (Equal (Col Col_status) (Lit (VStatus OutboxStatusPublishing))))
     gorm_published_set =
   sql_update (\<lambda>r. ID r \<in> set ids \<and> Status r = OutboxStatusPublishing) (set_published c)"
  by (rule ext, rule update_where_eq) (auto simp: gorm_assignments eval_simps)

lemma gorm_delete:
  "delete_where c (Conj (IsIn (Col Col_status) (map VStatus sts))
       (Less (Col Col_updated_at) (Minus (Clock_timestamp 0) (Lit (VInterval d))))) =
   sql_delete (\<lambda>r. Status r \<in> set sts \<and> UpdatedAt r < clock c (ID r) 0 - d)"
  by (rule ext, rule delete_where_eq) (auto simp: eval_simps)

lemma gorm_fetch_update:
  "update_where c (IsIn (Col Col_id) (map VText ids)) gorm_fetch_set rs =
     Inr (map (\<lambda>r. if ID r \<in> set ids then mark_publishing c r else r) rs,
          length (filter (\<lambda>r. ID r \<in> set ids) rs))"
proof -
  have "update_where c (IsIn (Col Col_id) (map VText ids)) gorm_fetch_set rs =
      sql_update (\<lambda>r. ID r \<in> set ids) (\<lambda>r. Inr (mark_publishing c r)) rs"
    by (rule update_where_eq) (auto simp: gorm_assignments)
  then show ?thesis by (simp add: sql_update_map)
qed

lemma gorm_fetch_stmt_eq:
  "gorm_fetch_stmt c n rs = map_sum id (map_prod id (map scan_model)) (fetch_stmt c n rs)"
proof -
  have sel: "gorm_locked c (nat n) rs = Inr (fetch_candidates c (nat n) rs)"
    by (simp add: gorm_locked_def rows_where_eq[OF gorm_conditions(1)] fetch_candidates_def conj_commute)
  have ret: "map gorm_returned (filter (\<lambda>r. ID r \<in> S)
        (map (\<lambda>r. if ID r \<in> S then mark_publishing c r else r) rs)) =
      map (\<lambda>r. (mark_publishing c r)\<lparr>NextRetryAt := None\<rparr>) (filter (\<lambda>r. ID r \<in> S) rs)" for S
    by (induction rs) (auto simp: mark_publishing_def gorm_returned_def)
  show ?thesis
    by (simp add: gorm_fetch_stmt_def fetch_stmt_def sel gorm_fetch_update sql_update_map ret Let_def)
qed

lemma run_statement_map:
  "run_statement oc (\<lambda>s. map_sum id (map_prod id f) (stmt s)) s =
     map_prod (map_sum id f) id (run_statement oc stmt s)"
  by (cases oc; cases "stmt s") auto

lemma gorm_run_fetch:
  "run_statement oc (gorm_fetch_stmt c n) rs = map_prod (map_sum id (map scan_model)) id (run_statement oc (fetch_stmt c n) rs)"
  by (simp add: gorm_fetch_stmt_eq[abs_def] run_statement_map)

lemma gorm_fetch_eq:
  assumes "wf_ctx c"
  shows "gorm_FetchAndLockToPublishing rp c rs = pgx_FetchAndLockToPublishing (as_pgx rp) c rs"
proof (cases rule: run_statement_cases[of "fetch_stmt c 1" rs "outcome c"])
  case (failed e)
  then show ?thesis using fetch_stmt_error[of c 1 rs e]
    by (simp add: gorm_FetchAndLockToPublishing_def pgx_FetchAndLockToPublishing_def gorm_run_fetch pg_error_defs)
qed (use wf_ctx_outcome[OF assms] in \<open>auto simp: gorm_FetchAndLockToPublishing_def
    pgx_FetchAndLockToPublishing_def gorm_run_fetch foreign_not_Is split: list.splits\<close>)

lemma gorm_batch_fetch_eq:
  "gorm_FetchLockAndMarkPublishing rp c n rs = pgx_FetchLockAndMarkPublishing (as_pgx rp) c n rs"
  by (cases "run_statement (outcome c) (fetch_stmt c n) rs"; cases "fst (run_statement (outcome c) (fetch_stmt c n) rs)")
    (auto simp: gorm_FetchLockAndMarkPublishing_def pgx_FetchLockAndMarkPublishing_def gorm_run_fetch)

lemma gorm_update_eqs:
  "gorm_UpdateToPublished rp c i rs = pgx_UpdateToPublished (as_pgx rp) c i rs"
  "gorm_UpdateToFailed rp c i em rs = pgx_UpdateToFailed (as_pgx rp) c i em rs"
  "gorm_UpdateToDead rp c i em rs = pgx_UpdateToDead (as_pgx rp) c i em rs"
  "gorm_RequeueFailed rp c rs = pgx_RequeueFailed (as_pgx rp) c rs"
  "gorm_ReviveStuckPublishing rp c rs = pgx_ReviveStuckPublishing (as_pgx rp) c rs"
  "gorm_UpdateBatchToPublished rp c ids rs = pgx_UpdateBatchToPublished (as_pgx rp) c ids rs"
  "gorm_DeleteOlderThan rp c sts age rs = pgx_DeleteOlderThan (as_pgx rp) c sts age rs"
  by (simp_all add: gorm_UpdateToPublished_def pgx_UpdateToPublished_def gorm_UpdateToFailed_def pgx_UpdateToFailed_def
      gorm_UpdateToDead_def pgx_UpdateToDead_def gorm_RequeueFailed_def pgx_RequeueFailed_def
      gorm_ReviveStuckPublishing_def pgx_ReviveStuckPublishing_def gorm_UpdateBatchToPublished_def
      pgx_UpdateBatchToPublished_def gorm_DeleteOlderThan_def pgx_DeleteOlderThan_def
      gorm_updates gorm_batch_update gorm_delete)

lemma First_unique:
  assumes "\<And>x y. x \<in> set rs \<Longrightarrow> y \<in> set rs \<Longrightarrow> P x \<Longrightarrow> P y \<Longrightarrow> x = y"
    and cond: "\<And>r. eval c r cond = Inr (VBool (P r))"
  shows "First c cond rs = (case find P rs of None \<Rightarrow> Inl (Sentinel GormErrRecordNotFound) | Some r \<Rightarrow> Inr (scan_model r))"
proof (cases "find P rs")
  case None
  then have "filter P rs = []" by (auto simp: find_None_iff filter_empty_conv)
  with None show ?thesis by (simp add: First_def rows_where_eq[OF cond])
next
  case (Some r)
  then have r: "r \<in> set rs" "P r" by (auto dest!: find_Some_in_set)
  then have "set (sort_key ID (filter P rs)) = {r}" using assms by auto
  then obtain xs where "sort_key ID (filter P rs) = r # xs"
    by (metis list.exhaust list.set_intros(1) set_empty2 singletonD insert_not_empty)
  with Some show ?thesis by (simp add: First_def rows_where_eq[OF cond])
qed

lemma wf_table_unique:
  assumes "wf_table rs" "x \<in> set rs" "y \<in> set rs"
  shows "ID x = ID y \<Longrightarrow> x = y"
    "EventType x = EventType y \<Longrightarrow> IdempotencyKey x = IdempotencyKey y \<Longrightarrow> x = y"
  using assms by (auto simp: wf_table_def distinct_map dest: inj_onD)

lemma gorm_get_eq:
  assumes wf: "wf_table rs" and c: "wf_ctx c"
  shows "gorm_GetByID rp c i rs = pgx_GetByID (as_pgx rp) c i rs"
    "gorm_GetByIdempotencyKey rp c et ik rs = pgx_GetByIdempotencyKey (as_pgx rp) c et ik rs"
proof -
  have out: "\<not> errors_Is e t" if "outcome c = Refused e \<or> outcome c = ReplyLost e" for e t
    using wf_ctx_outcome[OF c] that by (auto simp: foreign_not_Is)
  have 1: "First c (Equal (Col Col_id) (Lit (VText i))) rs = (case find (\<lambda>r. ID r = i) rs of
      None \<Rightarrow> Inl (Sentinel GormErrRecordNotFound) | Some r \<Rightarrow> Inr (scan_model r))"
    by (rule First_unique) (metis wf_table_unique(1)[OF wf], simp add: eval_simps)
  have 2: "First c (Conj (Equal (Col Col_event_type) (Lit (VText et))) (Equal (Col Col_idempotency_key) (Lit (VText ik)))) rs =
      (case find (\<lambda>r. EventType r = et \<and> IdempotencyKey r = ik) rs of
      None \<Rightarrow> Inl (Sentinel GormErrRecordNotFound) | Some r \<Rightarrow> Inr (scan_model r))"
    by (rule First_unique) (metis wf_table_unique(2)[OF wf], simp add: eval_simps)
  show "gorm_GetByID rp c i rs = pgx_GetByID (as_pgx rp) c i rs"
    using out by (cases "outcome c") (auto simp: gorm_GetByID_def pgx_GetByID_def 1 split: option.splits)
  show "gorm_GetByIdempotencyKey rp c et ik rs = pgx_GetByIdempotencyKey (as_pgx rp) c et ik rs"
    using out by (cases "outcome c")
      (auto simp: gorm_GetByIdempotencyKey_def pgx_GetByIdempotencyKey_def 2 text_args_def pg_error_defs
        split: option.splits)
qed

lemma gorm_fields:
  "FetchAndLockToPublishing (gorm_repository rp now) = gorm_FetchAndLockToPublishing rp"
  "UpdateToPublished (gorm_repository rp now) = UpdateToPublished (pgx_repository (as_pgx rp))"
  "UpdateToFailed (gorm_repository rp now) = UpdateToFailed (pgx_repository (as_pgx rp))"
  "UpdateToDead (gorm_repository rp now) = UpdateToDead (pgx_repository (as_pgx rp))"
  "RequeueFailed (gorm_repository rp now) = RequeueFailed (pgx_repository (as_pgx rp))"
  "FetchLockAndMarkPublishing (gorm_repository rp now) =
     FetchLockAndMarkPublishing (pgx_repository (as_pgx rp))"
  "UpdateBatchToPublished (gorm_repository rp now) = UpdateBatchToPublished (pgx_repository (as_pgx rp))"
  by (simp_all add: gorm_repository_def pgx_repository_def gorm_update_eqs gorm_batch_fetch_eq fun_eq_iff)

lemma gorm_fetch_field:
  "wf_ctx c \<Longrightarrow> FetchAndLockToPublishing (gorm_repository rp now) c s =
     FetchAndLockToPublishing (pgx_repository (as_pgx rp)) c s"
  by (simp add: gorm_repository_def pgx_repository_def gorm_fetch_eq)

lemmas pgx_laws = pgx.fetch_inv pgx.fetch_ok pgx.fetch_no_message
  pgx.fetch_err pgx.published_inv pgx.published pgx.failed_inv pgx.failed pgx.dead_inv pgx.dead
  pgx.requeue_inv pgx.requeue_rows pgx.batch_fetch_inv pgx.batch_fetch_ok pgx.batch_fetch_err
  pgx.batch_published_inv pgx.batch_published_ok pgx.batch_published_err

interpretation gorm: batch_outbox_repository "gorm_repository rp now" row_of wf_table wf_ctx for rp now
  by (unfold_locales, unfold gorm_fields(2-), simp_all only: gorm_fetch_field) (fact pgx_laws)+

text \<open>
  C26: on a table with unique keys, every read, fetch, update, requeue, recovery and clean-up of
  the GORM repository, evaluated from the SQL conditions, \<open>SET\<close> lists and sub-queries GORM's source
  writes, gives the same answer and the same table as the pgx repository with the same settings
  (inserts are compared in \<open>gorm_Insert_vs_pgx\<close>).
\<close>

theorem gorm_agrees_with_pgx:
  assumes "wf_table rs" "wf_ctx c"
  shows "gorm_FetchAndLockToPublishing rp c rs = pgx_FetchAndLockToPublishing (as_pgx rp) c rs \<and>
    gorm_FetchLockAndMarkPublishing rp c n rs = pgx_FetchLockAndMarkPublishing (as_pgx rp) c n rs \<and>
    gorm_UpdateToPublished rp c i rs = pgx_UpdateToPublished (as_pgx rp) c i rs \<and>
    gorm_UpdateBatchToPublished rp c ids rs = pgx_UpdateBatchToPublished (as_pgx rp) c ids rs \<and>
    gorm_UpdateToFailed rp c i em rs = pgx_UpdateToFailed (as_pgx rp) c i em rs \<and>
    gorm_UpdateToDead rp c i em rs = pgx_UpdateToDead (as_pgx rp) c i em rs \<and>
    gorm_RequeueFailed rp c rs = pgx_RequeueFailed (as_pgx rp) c rs \<and>
    gorm_ReviveStuckPublishing rp c rs = pgx_ReviveStuckPublishing (as_pgx rp) c rs \<and>
    gorm_DeleteOlderThan rp c sts age rs = pgx_DeleteOlderThan (as_pgx rp) c sts age rs \<and>
    gorm_GetByID rp c i rs = pgx_GetByID (as_pgx rp) c i rs \<and>
    gorm_GetByIdempotencyKey rp c et ik rs = pgx_GetByIdempotencyKey (as_pgx rp) c et ik rs"
  using assms by (simp add: gorm_fetch_eq gorm_batch_fetch_eq gorm_update_eqs gorm_get_eq)

text \<open>
  When the two clocks agree and \<open>jsonb\<close> keeps the bytes, a GORM insert is the pgx insert
  except for one case: a zero \<open>MaxAttempts\<close>, which pgx stores as zero, becomes the tag's default of 10.
\<close>

theorem gorm_Insert_vs_pgx:
  assumes "now \<noteq> 0" "\<And>i n. clock c i n = now" "\<And>b. jsonb c b = Inr b"
  shows "gorm_Insert rp now c params rs =
    pgx_Insert (as_pgx rp) c
      (params\<lparr>p_MaxAttempts := if p_MaxAttempts params = 0 then 10 else p_MaxAttempts params\<rparr>) rs"
proof -
  define M where "M = (if p_MaxAttempts params = 0 then 10 else p_MaxAttempts params)"
  define m where "m = tag_defaults now \<lparr>m_ID = new_uuid c, m_EventType = p_EventType params,
      m_Payload = p_Payload params, m_Metadata = p_Metadata params,
      m_IdempotencyKey = p_IdempotencyKey params, m_Status = OutboxStatusEnqueued, m_ErrorMessage = None,
      m_AttemptCount = 0, m_MaxAttempts = p_MaxAttempts params, m_NextRetryAt = None,
      m_CreatedAt = 0, m_UpdatedAt = 0\<rparr>"
  have m: "m = \<lparr>m_ID = new_uuid c, m_EventType = p_EventType params,
      m_Payload = p_Payload params, m_Metadata = p_Metadata params,
      m_IdempotencyKey = p_IdempotencyKey params, m_Status = OutboxStatusEnqueued, m_ErrorMessage = None,
      m_AttemptCount = 1, m_MaxAttempts = M, m_NextRetryAt = None, m_CreatedAt = now, m_UpdatedAt = now\<rparr>"
    using assms(1) by (simp add: m_def M_def tag_defaults_def)
  have "insert_stmt c (params\<lparr>p_MaxAttempts := M\<rparr>) rs =
      map_sum id (\<lambda>(rs', m). (rs', modelToCore m)) (create_stmt c m rs)"
    using assms(2,3)
    by (cases "- (2 ^ 31) \<le> M \<and> M < 2 ^ 31"; cases "p_Payload params")
      (simp_all add: insert_stmt_def create_stmt_def modelToCore_def m Let_def int4_def)
  then show ?thesis
    unfolding gorm_Insert_def pgx_Insert_def Let_def m_def[symmetric] M_def[symmetric]
    by (cases "outcome c"; cases "create_stmt c m rs")
      (auto simp: text_args_def split: sum.splits)
qed

definition sample_gorm :: gorm_repo where
  "sample_gorm = \<lparr>g_tableName = ''outbox'', g_backoffBase = 1 * second, g_backoffMax = 3600 * second,
     g_stuckPublishingThreshold = 300 * second\<rparr>"

theorem gorm_agrees_with_pgx_witness:
  "gorm_GetByID sample_gorm (sample_ctx 9) ''u1'' [sample_row OutboxStatusFailed 2]
     = Inr (sample_row OutboxStatusFailed 2) \<and>
   gorm_ReviveStuckPublishing sample_gorm (sample_ctx 400000000) [sample_row OutboxStatusFailed 2] =
     (Inr 0, [sample_row OutboxStatusFailed 2])"
proof -
  have "pgx_ReviveStuckPublishing (as_pgx sample_gorm) (sample_ctx 400000000) [sample_row OutboxStatusFailed 2] =
     (Inr 0, [sample_row OutboxStatusFailed 2])"
    by (simp add: pgx_ReviveStuckPublishing_def rows_affected_def stuck_def)
  moreover  have "pgx_GetByID (as_pgx sample_gorm) (sample_ctx 9) ''u1'' [sample_row OutboxStatusFailed 2]
      = Inr (sample_row OutboxStatusFailed 2)"
    by (simp add: pgx_GetByID_def sample_row_def)
  ultimately show ?thesis
    using gorm_agrees_with_pgx[OF sample_wf(2)[of OutboxStatusFailed 2] sample_ctx_wf[of 9], of sample_gorm _ "''u1''"]
      gorm_agrees_with_pgx[OF sample_wf(2)[of OutboxStatusFailed 2] sample_ctx_wf[of 400000000], of sample_gorm _ "''u1''"]
    by simp
qed

theorem gorm_Insert_vs_pgx_witness:
  "gorm_Insert sample_gorm 7 (sample_ctx 7) (sample_params\<lparr>p_MaxAttempts := 0\<rparr>)
     [sample_row OutboxStatusFailed 2] = (Inr sample_new, [sample_row OutboxStatusFailed 2, sample_new])"
proof -
  have "as_pgx sample_gorm = sample_repo"
    by (simp add: as_pgx_def sample_gorm_def sample_repo_def)
  moreover have "sample_params\<lparr>p_MaxAttempts := 0, p_MaxAttempts := 10\<rparr> = sample_params"
    by (simp add: sample_params_def)
  ultimately show ?thesis
    using gorm_Insert_vs_pgx[of 7 "sample_ctx 7" sample_gorm "sample_params\<lparr>p_MaxAttempts := 0\<rparr>"
        "[sample_row OutboxStatusFailed 2]"] sample_insert[of OutboxStatusFailed 2]
    by (simp add: sample_ctx_def)
qed

end
