(* ===== verification/Hooks.thy ===== *)
theory Hooks
  imports Outbox_Repository
begin

text \<open>
  \<open>src/core/hooks.go\<close>: the observability callbacks.  A hook is application code: a parameter
  that either returns or panics.  Calling one yields what becomes visible outside: the hook's
  run and, after a panic, the log entry of the recovery; the caller continues in every case.
\<close>

datatype hook_outcome = Returned | Panicked string

record Hooks =
  OnPublishStart :: "(Outbox \<Rightarrow> hook_outcome) option"
  OnPublishSuccess :: "(Outbox \<Rightarrow> duration \<Rightarrow> hook_outcome) option"
  OnPublishFailure :: "(Outbox \<Rightarrow> goerr \<Rightarrow> duration \<Rightarrow> bool \<Rightarrow> hook_outcome) option"
  OnMessageDead :: "(Outbox \<Rightarrow> goerr \<Rightarrow> hook_outcome) option"
  OnBatchPublishStart :: "(Outbox list \<Rightarrow> hook_outcome) option"
  OnBatchPublishComplete :: "(int \<Rightarrow> int \<Rightarrow> duration \<Rightarrow> hook_outcome) option"
  OnPartialBatchSuccess :: "(int \<Rightarrow> int \<Rightarrow> duration \<Rightarrow> hook_outcome) option"

datatype event =
    RanPublishStart Outbox
  | RanPublishSuccess Outbox duration
  | RanPublishFailure Outbox goerr duration bool
  | RanMessageDead Outbox goerr
  | RanBatchPublishStart "Outbox list"
  | RanBatchPublishComplete int int duration
  | RanPartialBatchSuccess int int duration
  | PanicRecovered string string "string list"

definition guarded :: "string \<Rightarrow> string list \<Rightarrow> event \<Rightarrow> hook_outcome \<Rightarrow> event list" where
  "guarded hook attrs ev res =
     (case res of Returned \<Rightarrow> [ev] | Panicked r \<Rightarrow> [ev, PanicRecovered hook r attrs])"

definition callOnPublishStart :: "Hooks option \<Rightarrow> Outbox \<Rightarrow> event list" where
  "callOnPublishStart h msg =
     (case Option.bind h OnPublishStart of
        None \<Rightarrow> []
      | Some f \<Rightarrow> guarded ''OnPublishStart'' [ID msg, EventType msg] (RanPublishStart msg) (f msg))"

definition callOnPublishSuccess :: "Hooks option \<Rightarrow> Outbox \<Rightarrow> duration \<Rightarrow> event list" where
  "callOnPublishSuccess h msg d =
     (case Option.bind h OnPublishSuccess of
        None \<Rightarrow> []
      | Some f \<Rightarrow> guarded ''OnPublishSuccess'' [ID msg, EventType msg] (RanPublishSuccess msg d) (f msg d))"

definition callOnPublishFailure ::
  "Hooks option \<Rightarrow> Outbox \<Rightarrow> goerr \<Rightarrow> duration \<Rightarrow> bool \<Rightarrow> event list" where
  "callOnPublishFailure h msg err d retryable =
     (case Option.bind h OnPublishFailure of
        None \<Rightarrow> []
      | Some f \<Rightarrow> guarded ''OnPublishFailure'' [ID msg, EventType msg]
          (RanPublishFailure msg err d retryable) (f msg err d retryable))"

definition callOnMessageDead :: "Hooks option \<Rightarrow> Outbox \<Rightarrow> goerr \<Rightarrow> event list" where
  "callOnMessageDead h msg err =
     (case Option.bind h OnMessageDead of
        None \<Rightarrow> []
      | Some f \<Rightarrow> guarded ''OnMessageDead'' [ID msg, EventType msg] (RanMessageDead msg err) (f msg err))"

definition callOnBatchPublishStart :: "Hooks option \<Rightarrow> Outbox list \<Rightarrow> event list" where
  "callOnBatchPublishStart h msgs =
     (case Option.bind h OnBatchPublishStart of
        None \<Rightarrow> []
      | Some f \<Rightarrow> guarded ''OnBatchPublishStart'' (map ID msgs) (RanBatchPublishStart msgs) (f msgs))"

definition callOnBatchPublishComplete :: "Hooks option \<Rightarrow> int \<Rightarrow> int \<Rightarrow> duration \<Rightarrow> event list" where
  "callOnBatchPublishComplete h successCount failureCount d =
     (case Option.bind h OnBatchPublishComplete of
        None \<Rightarrow> []
      | Some f \<Rightarrow> guarded ''OnBatchPublishComplete'' []
          (RanBatchPublishComplete successCount failureCount d) (f successCount failureCount d))"

definition callOnPartialBatchSuccess :: "Hooks option \<Rightarrow> int \<Rightarrow> int \<Rightarrow> duration \<Rightarrow> event list" where
  "callOnPartialBatchSuccess h expectedCount actualCount d =
     (case Option.bind h OnPartialBatchSuccess of
        None \<Rightarrow> []
      | Some f \<Rightarrow> guarded ''OnPartialBatchSuccess'' []
          (RanPartialBatchSuccess expectedCount actualCount d) (f expectedCount actualCount d))"

text \<open>A missing or nil set of hooks has no effect at all.\<close>

lemma call_None [simp]:
  "callOnPublishStart None m = []" "callOnPublishSuccess None m d = []"
  "callOnPublishFailure None m e d b = []" "callOnMessageDead None m e = []"
  "callOnBatchPublishStart None ms = []" "callOnBatchPublishComplete None x y d = []"
  "callOnPartialBatchSuccess None x y d = []"
  by (simp_all add: callOnPublishStart_def callOnPublishSuccess_def callOnPublishFailure_def
      callOnMessageDead_def callOnBatchPublishStart_def callOnBatchPublishComplete_def
      callOnPartialBatchSuccess_def)

end
