(* ===== verification/Publisher.thy ===== *)
theory Publisher
  imports Hooks
begin

text \<open>
  \<open>src/core/publisher.go\<close>: the publisher interfaces, over a state \<open>'w\<close> of the world behind them
  (the message broker and the network), and the contract the dispatchers rely on: a publish
  that reports success has been accepted by the broker, what was accepted stays accepted,
  and a batch answers with one result per message, in order, with an error for each failure.
\<close>

record 'w Publisher =
  Publish :: "Outbox \<Rightarrow> 'w \<Rightarrow> goerr option \<times> 'w"

record PublishResult =
  OutboxID :: string
  MessageID :: string
  Success :: bool
  ResultError :: "goerr option"

record 'w BatchPublisher = "'w Publisher" +
  PublishBatch :: "Outbox list \<Rightarrow> 'w \<Rightarrow> PublishResult list \<times> 'w"
  MaxBatchSize :: int

locale publisher =
  fixes P :: "('w, 'm) Publisher_scheme"
    and accepted :: "'w \<Rightarrow> Outbox \<Rightarrow> bool"
  assumes publish_ok: "Publish P m w = (None, w') \<Longrightarrow> accepted w' m"
    and publish_keeps: "accepted w x \<Longrightarrow> accepted (snd (Publish P m w)) x"

locale batch_publisher = publisher P accepted
  for P :: "('w, 'm) BatchPublisher_scheme"
    and accepted :: "'w \<Rightarrow> Outbox \<Rightarrow> bool" +
  assumes batch_results: "PublishBatch P ms w = (rs, w') \<Longrightarrow> distinct (map ID ms) \<Longrightarrow>
      length rs = length ms \<and> (\<forall>i < length rs. if Success (rs ! i) then accepted w' (ms ! i)
        else ResultError (rs ! i) \<noteq> None)"
    and batch_keeps: "accepted w x \<Longrightarrow> accepted (snd (PublishBatch P ms w)) x"

end
