(* ===== verification/Queue_Router.thy ===== *)
theory Queue_Router
  imports O4x_Prelude "HOL-Library.Sublist"
begin

text \<open>
  The router of \<open>src/contrib/sqs/publisher.go\<close>: \<open>EventTypeQueueMap\<close>, a map of exact event types
  and a slice of prefixes kept sorted by length, longest first.  The slice is edited in place
  by the two loops of \<open>RegisterPrefix\<close>; the mutex makes each method one step.
\<close>

record prefixRoute =
  pr_prefix :: string
  pr_queueURL :: string

record EventTypeQueueMap =
  routes :: "string \<rightharpoonup> string"
  prefixes :: "prefixRoute list"
  defaultQueue :: string

definition NewEventTypeQueueMap :: "string \<Rightarrow> EventTypeQueueMap" where
  "NewEventTypeQueueMap defaultQ = \<lparr>routes = Map.empty, prefixes = [], defaultQueue = defaultQ\<rparr>"

definition Register :: "string \<Rightarrow> string \<Rightarrow> EventTypeQueueMap \<Rightarrow> EventTypeQueueMap" where
  "Register eventType queueURL m = m\<lparr>routes := (routes m)(eventType \<mapsto> queueURL)\<rparr>"

fun remove_prefix :: "string \<Rightarrow> prefixRoute list \<Rightarrow> prefixRoute list" where
  "remove_prefix pfx [] = []"
| "remove_prefix pfx (p # ps) = (if pr_prefix p = pfx then ps else p # remove_prefix pfx ps)"

fun insert_route :: "prefixRoute \<Rightarrow> prefixRoute list \<Rightarrow> prefixRoute list" where
  "insert_route route [] = [route]"
| "insert_route route (p # ps) =
     (if length (pr_prefix route) > length (pr_prefix p) then route # p # ps
      else p # insert_route route ps)"

definition RegisterPrefix :: "string \<Rightarrow> string \<Rightarrow> EventTypeQueueMap \<Rightarrow> EventTypeQueueMap" where
  "RegisterPrefix pfx queueURL m =
     m\<lparr>prefixes := insert_route \<lparr>pr_prefix = pfx, pr_queueURL = queueURL\<rparr> (remove_prefix pfx (prefixes m))\<rparr>"

definition matches_prefix :: "string \<Rightarrow> prefixRoute \<Rightarrow> bool" where
  "matches_prefix eventType p \<longleftrightarrow>
     length eventType \<ge> length (pr_prefix p) \<and> take (length (pr_prefix p)) eventType = pr_prefix p"

definition QueueURL :: "EventTypeQueueMap \<Rightarrow> string \<Rightarrow> string" where
  "QueueURL m eventType =
     (case routes m eventType of
        Some url \<Rightarrow> url
      | None \<Rightarrow>
          (case find (matches_prefix eventType) (prefixes m) of
             Some p \<Rightarrow> pr_queueURL p
           | None \<Rightarrow> defaultQueue m))"

section \<open>The invariant of the prefix slice\<close>

definition wf_router :: "EventTypeQueueMap \<Rightarrow> bool" where
  "wf_router m \<longleftrightarrow>
     sorted_wrt (\<lambda>p q. length (pr_prefix p) \<ge> length (pr_prefix q)) (prefixes m) \<and>
     distinct (map pr_prefix (prefixes m))"

lemma set_remove_prefix_subset: "set (remove_prefix pfx ps) \<subseteq> set ps"
  by (induction ps) auto

lemma remove_prefix_filter:
  "distinct (map pr_prefix ps) \<Longrightarrow> remove_prefix pfx ps = filter (\<lambda>p. pr_prefix p \<noteq> pfx) ps"
proof (induction ps)
  case (Cons p ps)
  then show ?case by (auto simp: filter_id_conv intro!: sym[of "filter _ ps"]) (metis imageI)
qed simp

lemma set_insert_route [simp]: "set (insert_route r ps) = insert r (set ps)"
  by (induction ps) auto

lemma mset_insert_route: "length (insert_route r ps) = Suc (length ps)"
  by (induction ps) auto

lemma sorted_insert_route:
  "sorted_wrt (\<lambda>p q. length (pr_prefix p) \<ge> length (pr_prefix q)) ps \<Longrightarrow>
   sorted_wrt (\<lambda>p q. length (pr_prefix p) \<ge> length (pr_prefix q)) (insert_route r ps)"
  by (induction ps) (auto simp: not_less)

lemma distinct_insert_route:
  "distinct (map pr_prefix ps) \<Longrightarrow> pr_prefix r \<notin> pr_prefix ` set ps \<Longrightarrow>
   distinct (map pr_prefix (insert_route r ps))"
  by (induction ps) auto

lemma wf_NewEventTypeQueueMap [simp]: "wf_router (NewEventTypeQueueMap d)"
  by (simp add: wf_router_def NewEventTypeQueueMap_def)

lemma wf_Register [simp]: "wf_router m \<Longrightarrow> wf_router (Register e q m)"
  by (simp add: wf_router_def Register_def)

lemma wf_RegisterPrefix [simp]:
  assumes "wf_router m"
  shows "wf_router (RegisterPrefix pfx q m)"
proof -
  from assms have d: "distinct (map pr_prefix (prefixes m))"
    and s: "sorted_wrt (\<lambda>p q. length (pr_prefix p) \<ge> length (pr_prefix q)) (prefixes m)"
    by (simp_all add: wf_router_def)
  show ?thesis
    unfolding wf_router_def RegisterPrefix_def remove_prefix_filter[OF d]
    using d s
    by (auto intro!: sorted_insert_route distinct_insert_route sorted_wrt_filter distinct_map_filter)
qed

section \<open>What the router promises\<close>

lemma matches_prefix_iff: "matches_prefix e p \<longleftrightarrow> prefix (pr_prefix p) e"
  by (auto simp: matches_prefix_def prefix_def) (metis append_take_drop_id)

text \<open>The registrations of prefixes, as a function from prefixes to queues.\<close>

definition prefix_queue :: "EventTypeQueueMap \<Rightarrow> string \<Rightarrow> string option" where
  "prefix_queue m pfx = map_option pr_queueURL (find (\<lambda>p. pr_prefix p = pfx) (prefixes m))"

lemma prefix_queue_Some:
  "wf_router m \<Longrightarrow> prefix_queue m pfx = Some q \<longleftrightarrow> \<lparr>pr_prefix = pfx, pr_queueURL = q\<rparr> \<in> set (prefixes m)"
proof
  assume "wf_router m" "\<lparr>pr_prefix = pfx, pr_queueURL = q\<rparr> \<in> set (prefixes m)"
  then show "prefix_queue m pfx = Some q"
    using find_map_fst_unique[of pr_prefix "prefixes m" "\<lparr>pr_prefix = pfx, pr_queueURL = q\<rparr>"]
    by (simp add: wf_router_def prefix_queue_def)
next
  assume "prefix_queue m pfx = Some q"
  then obtain p where "p \<in> set (prefixes m)" "pr_prefix p = pfx" "pr_queueURL p = q"
    by (auto simp: prefix_queue_def dest!: find_Some_in_set)
  then show "\<lparr>pr_prefix = pfx, pr_queueURL = q\<rparr> \<in> set (prefixes m)"
    by (metis prefixRoute.surjective old.unit.exhaust)
qed

lemma prefix_queue_RegisterPrefix:
  assumes "wf_router m"
  shows "prefix_queue (RegisterPrefix pfx q m) = (prefix_queue m)(pfx \<mapsto> q)"
proof -
  have d: "distinct (map pr_prefix (prefixes m))" using assms by (simp add: wf_router_def)
  have "prefix_queue (RegisterPrefix pfx q m) x = Some y \<longleftrightarrow> ((prefix_queue m)(pfx \<mapsto> q)) x = Some y" for x y
    using prefix_queue_Some[OF assms] prefix_queue_Some[OF wf_RegisterPrefix[OF assms]]
    by (auto simp: RegisterPrefix_def remove_prefix_filter[OF d])
  then have "prefix_queue (RegisterPrefix pfx q m) x = ((prefix_queue m)(pfx \<mapsto> q)) x" for x
    by (cases "((prefix_queue m)(pfx \<mapsto> q)) x") (metis not_None_eq)+
  then show ?thesis by blast
qed

lemma find_first_sorted:
  assumes "find P xs = Some x" "sorted_wrt R xs" "y \<in> set xs" "P y"
  shows "y = x \<or> R x y"
  using assms by (induction xs) (auto split: if_splits dest: find_Some_in_set)

definition longest_match :: "(string \<Rightarrow> string option) \<Rightarrow> string \<Rightarrow> string option" where
  "longest_match pq e =
     (let N = {n. n \<le> length e \<and> pq (take n e) \<noteq> None} in if N = {} then None else pq (take (Max N) e))"

lemma find_longest_match:
  assumes wf: "wf_router m"
  shows "map_option pr_queueURL (find (matches_prefix e) (prefixes m)) = longest_match (prefix_queue m) e"
proof -
  let ?N = "{n. n \<le> length e \<and> prefix_queue m (take n e) \<noteq> None}"
  have d: "distinct (map pr_prefix (prefixes m))"
    and s: "sorted_wrt (\<lambda>p q. length (pr_prefix p) \<ge> length (pr_prefix q)) (prefixes m)"
    using wf by (simp_all add: wf_router_def)
  have N: "n \<in> ?N \<longleftrightarrow> (\<exists>p \<in> set (prefixes m). pr_prefix p = take n e) \<and> n \<le> length e" for n
    by (auto simp: prefix_queue_def find_None_iff)
  show ?thesis
  proof (cases "find (matches_prefix e) (prefixes m)")
    case None
    then have "?N = {}" using N by (auto simp: find_None_iff matches_prefix_iff take_is_prefix)
    with None show ?thesis by (simp add: longest_match_def)
  next
    case (Some p)
    then have p: "p \<in> set (prefixes m)" "matches_prefix e p" by (auto dest: find_Some_in_set)
    let ?n = "length (pr_prefix p)"
    have tk: "take ?n e = pr_prefix p" "?n \<le> length e" using p(2) by (simp_all add: matches_prefix_def)
    have "?n \<in> ?N" unfolding N using p(1) tk by auto
    moreover have "n \<le> ?n" if "n \<in> ?N" for n
    proof -
      from that obtain q where q: "q \<in> set (prefixes m)" "pr_prefix q = take n e" "n \<le> length e"
        unfolding N by auto
      then have "matches_prefix e q" by (simp add: matches_prefix_iff take_is_prefix)
      with find_first_sorted[OF Some s q(1)] q show ?thesis by auto
    qed
    moreover have "finite ?N" by simp
    ultimately have "Max ?N = ?n" by (intro Max_eqI) auto
    moreover have "prefix_queue m (take ?n e) = Some (pr_queueURL p)"
      unfolding prefix_queue_def tk using find_map_fst_unique[OF d p(1)] by simp
    ultimately show ?thesis using Some \<open>?n \<in> ?N\<close> by (auto simp: longest_match_def Let_def)
  qed
qed

text \<open>Any sequence of registrations.\<close>

datatype registration = Exact string string | Prefix string string

fun register :: "registration \<Rightarrow> EventTypeQueueMap \<Rightarrow> EventTypeQueueMap" where
  "register (Exact e q) m = Register e q m"
| "register (Prefix p q) m = RegisterPrefix p q m"

fun last_exact :: "registration list \<Rightarrow> string \<Rightarrow> string option" where
  "last_exact [] = Map.empty"
| "last_exact (Exact e q # rs) = map_add [e \<mapsto> q] (last_exact rs)"
| "last_exact (Prefix p q # rs) = last_exact rs"

fun last_prefix :: "registration list \<Rightarrow> string \<Rightarrow> string option" where
  "last_prefix [] = Map.empty"
| "last_prefix (Prefix p q # rs) = map_add [p \<mapsto> q] (last_prefix rs)"
| "last_prefix (Exact e q # rs) = last_prefix rs"

lemma fold_register:
  "wf_router m \<Longrightarrow>
     wf_router (fold register regs m) \<and> routes (fold register regs m) = map_add (routes m) (last_exact regs) \<and>
     prefix_queue (fold register regs m) = map_add (prefix_queue m) (last_prefix regs) \<and>
     defaultQueue (fold register regs m) = defaultQueue m"
proof (induction regs arbitrary: m)
  case Nil
  then show ?case by simp
next
  case (Cons r regs)
  show ?case
  proof (cases r)
    case (Exact e q)
    have "prefix_queue (Register e q m) = prefix_queue m" "routes (Register e q m) = (routes m)(e \<mapsto> q)"
      "defaultQueue (Register e q m) = defaultQueue m"
      by (simp_all add: prefix_queue_def[abs_def] Register_def)
    with Exact Cons.IH[OF wf_Register[OF Cons.prems], of e q] show ?thesis
      by (auto simp: fun_eq_iff map_add_def split: option.splits)
  next
    case (Prefix p q)
    have "prefix_queue (RegisterPrefix p q m) = (prefix_queue m)(p \<mapsto> q)"
      "routes (RegisterPrefix p q m) = routes m" "defaultQueue (RegisterPrefix p q m) = defaultQueue m"
      by (simp_all add: prefix_queue_RegisterPrefix[OF Cons.prems]) (simp_all add: RegisterPrefix_def)
    with Prefix Cons.IH[OF wf_RegisterPrefix[OF Cons.prems], of p q] show ?thesis
      by (auto simp: fun_eq_iff map_add_def split: option.splits)
  qed
qed

text \<open>
  C27: after any sequence of registrations an event type goes to the queue last registered
  for exactly that type, else to the queue last registered for the longest registered
  prefix it starts with, else to the default queue.
\<close>

theorem QueueURL_correct:
  "QueueURL (fold register regs (NewEventTypeQueueMap dq)) e =
     (case last_exact regs e of
        Some q \<Rightarrow> q
      | None \<Rightarrow> (case longest_match (last_prefix regs) e of Some q \<Rightarrow> q | None \<Rightarrow> dq))"
proof -
  let ?m = "fold register regs (NewEventTypeQueueMap dq)"
  have pq: "prefix_queue (NewEventTypeQueueMap dq) = Map.empty"
    by (simp add: prefix_queue_def[abs_def] NewEventTypeQueueMap_def)
  have "wf_router ?m" "routes ?m = last_exact regs" "prefix_queue ?m = last_prefix regs" "defaultQueue ?m = dq"
    using fold_register[OF wf_NewEventTypeQueueMap[of dq], of regs] pq by (simp_all add: NewEventTypeQueueMap_def)
  with find_longest_match[of ?m e] show ?thesis
    by (auto simp: QueueURL_def split: option.splits)
qed

end
