(* ===== verification/Sqs_Publisher.thy ===== *)
theory Sqs_Publisher
  imports Publisher Queue_Router
begin

text \<open>
  The publishers of \<open>src/contrib/sqs/publisher.go\<close>.  The SQS client of the AWS SDK is a
  parameter, a record of its two calls over the state \<open>'w\<close> of the service; \<open>sqs_client\<close> names
  what the publishers rely on.  A nil \<open>*string\<close> in an answer reads as the empty string
  (\<open>aws.ToString\<close>).  The goroutines of \<open>MultiBatchPublisher\<close> write disjoint slots of the result
  slice under a lock, so they are run one after the other, in an order the parameter \<open>sched\<close>
  chooses.
\<close>

section \<open>Requests\<close>

record SendMessageInput =
  QueueUrl :: string
  in_MessageBody :: string
  in_MessageAttributes :: "(string \<times> string \<times> string) list"
  in_MessageGroupId :: "string option"
  in_MessageDeduplicationId :: "string option"

record BatchEntry =
  be_Id :: string
  be_MessageBody :: string
  be_MessageAttributes :: "(string \<times> string \<times> string) list"
  be_MessageGroupId :: "string option"
  be_MessageDeduplicationId :: "string option"

record SendMessageBatchOutput =
  Successful :: "(string \<times> string) list"
  Failed :: "(string \<times> string \<times> string) list"

record 'w SQSClient =
  SendMessage :: "SendMessageInput \<Rightarrow> 'w \<Rightarrow> goerr option \<times> 'w"
  SendMessageBatch :: "string \<Rightarrow> BatchEntry list \<Rightarrow> 'w \<Rightarrow> (goerr + SendMessageBatchOutput) \<times> 'w"

definition MaxSQSMessageSize :: nat where
  "MaxSQSMessageSize = 256 * 1024"

definition sqsMaxBatchSize :: int where
  "sqsMaxBatchSize = 10"

definition isFifoQueue :: "string \<Rightarrow> bool" where
  "isFifoQueue queueURL \<longleftrightarrow> length queueURL \<ge> 5 \<and> drop (length queueURL - 5) queueURL = ''.fifo''"

definition bytes_text :: "go_bytes \<Rightarrow> string" where
  "bytes_text b = (case b of None \<Rightarrow> [] | Some s \<Rightarrow> s)"

definition buildMessageAttributes :: "Outbox \<Rightarrow> (string \<times> string \<times> string) list" where
  "buildMessageAttributes msg =
     [(''event_type'', ''String'', EventType msg), (''outbox_id'', ''String'', ID msg),
      (''idempotency_key'', ''String'', IdempotencyKey msg)] @
     (if blen (Metadata msg) > 0 then [(''metadata'', ''String'', bytes_text (Metadata msg))] else [])"

definition buildSendMessageInput :: "string \<Rightarrow> Outbox \<Rightarrow> SendMessageInput" where
  "buildSendMessageInput queueURL msg =
     (let input = \<lparr>QueueUrl = queueURL, in_MessageBody = bytes_text (Payload msg),
                   in_MessageAttributes = buildMessageAttributes msg,
                   in_MessageGroupId = None, in_MessageDeduplicationId = None\<rparr>
      in if isFifoQueue queueURL
         then input\<lparr>in_MessageGroupId := Some (EventType msg),
                    in_MessageDeduplicationId := Some (IdempotencyKey msg)\<rparr>
         else input)"

definition buildBatchEntry :: "string \<Rightarrow> Outbox \<Rightarrow> BatchEntry" where
  "buildBatchEntry queueURL msg =
     (let entry = \<lparr>be_Id = ID msg, be_MessageBody = bytes_text (Payload msg),
                   be_MessageAttributes = buildMessageAttributes msg,
                   be_MessageGroupId = None, be_MessageDeduplicationId = None\<rparr>
      in if isFifoQueue queueURL
         then entry\<lparr>be_MessageGroupId := Some (EventType msg),
                    be_MessageDeduplicationId := Some (IdempotencyKey msg)\<rparr>
         else entry)"

definition too_large :: "Outbox \<Rightarrow> bool" where
  "too_large msg \<longleftrightarrow> blen (Payload msg) > MaxSQSMessageSize"

definition payload_error :: "Outbox \<Rightarrow> goerr" where
  "payload_error msg =
     NewPermanentError (Some (WrapError [] (Sentinel ErrPayloadTooLarge)
       ('': payload size '' @ itoa (blen (Payload msg)) @ '' bytes exceeds SQS limit of '' @
        itoa MaxSQSMessageSize @ '' bytes'')))"

section \<open>Publishing one message\<close>

definition Publisher_Publish :: "'w SQSClient \<Rightarrow> string \<Rightarrow> Outbox \<Rightarrow> 'w \<Rightarrow> goerr option \<times> 'w" where
  "Publisher_Publish client queueURL msg w =
     (if too_large msg then (Some (payload_error msg), w)
      else
        (case SendMessage client (buildSendMessageInput queueURL msg) w of
           (Some err, w') \<Rightarrow> (Some (WrapError ''sqs publish failed: '' err []), w')
         | (None, w') \<Rightarrow> (None, w')))"

definition MultiQueuePublisher_Publish ::
  "'w SQSClient \<Rightarrow> (string \<Rightarrow> string) \<Rightarrow> Outbox \<Rightarrow> 'w \<Rightarrow> goerr option \<times> 'w" where
  "MultiQueuePublisher_Publish client route msg w =
     (if too_large msg then (Some (payload_error msg), w)
      else
        let queueURL = route (EventType msg)
        in case SendMessage client (buildSendMessageInput queueURL msg) w of
             (Some err, w') \<Rightarrow> (Some (WrapError (''sqs publish to '' @ queueURL @ '' failed: '') err []), w')
           | (None, w') \<Rightarrow> (None, w'))"

definition BatchPublisher_Publish :: "'w SQSClient \<Rightarrow> string \<Rightarrow> Outbox \<Rightarrow> 'w \<Rightarrow> goerr option \<times> 'w" where
  "BatchPublisher_Publish client queueURL msg w =
     (if too_large msg then (Some (payload_error msg), w)
      else
        (case SendMessage client (buildSendMessageInput queueURL msg) w of
           (Some err, w') \<Rightarrow> (Some (WrapError ''sqs publish failed: '' err []), w')
         | (None, w') \<Rightarrow> (None, w')))"

definition MultiBatchPublisher_Publish ::
  "'w SQSClient \<Rightarrow> (string \<Rightarrow> string) \<Rightarrow> Outbox \<Rightarrow> 'w \<Rightarrow> goerr option \<times> 'w" where
  "MultiBatchPublisher_Publish client route msg w =
     (if too_large msg then (Some (payload_error msg), w)
      else
        let queueURL = route (EventType msg)
        in case SendMessage client (buildSendMessageInput queueURL msg) w of
             (Some err, w') \<Rightarrow> (Some (WrapError (''sqs publish to '' @ queueURL @ '' failed: '') err []), w')
           | (None, w') \<Rightarrow> (None, w'))"

section \<open>Publishing a batch to one queue\<close>

definition success_map :: "SendMessageBatchOutput \<Rightarrow> string \<Rightarrow> string option" where
  "success_map out = map_of (rev (Successful out))"

definition failure_map :: "SendMessageBatchOutput \<Rightarrow> string \<Rightarrow> goerr option" where
  "failure_map out = map_of (rev (map (\<lambda>(i, code, message).
     (i, ErrorString (''sqs batch entry failed: code='' @ code @ '', message='' @ message))) (Failed out)))"

definition blank_result :: "Outbox \<Rightarrow> PublishResult" where
  "blank_result msg = \<lparr>OutboxID = ID msg, MessageID = [], Success = False, ResultError = None\<rparr>"

definition validated :: "Outbox \<Rightarrow> PublishResult \<Rightarrow> PublishResult" where
  "validated msg r =
     (if too_large msg then r\<lparr>Success := False, ResultError := Some (payload_error msg)\<rparr> else r)"

definition batch_failed :: "goerr \<Rightarrow> PublishResult \<Rightarrow> PublishResult" where
  "batch_failed err r =
     (if ResultError r \<noteq> None then r else r\<lparr>Success := False, ResultError := Some err\<rparr>)"

definition answered :: "SendMessageBatchOutput \<Rightarrow> Outbox \<Rightarrow> PublishResult \<Rightarrow> PublishResult" where
  "answered out msg r =
     (if ResultError r \<noteq> None then r
      else
        (case success_map out (ID msg) of
           Some messageID \<Rightarrow> r\<lparr>Success := True, MessageID := messageID\<rparr>
         | None \<Rightarrow>
             (case failure_map out (ID msg) of
                Some err \<Rightarrow> r\<lparr>Success := False, ResultError := Some err\<rparr>
              | None \<Rightarrow> r\<lparr>Success := False,
                  ResultError := Some (ErrorString (''sqs batch: no result for message '' @ ID msg))\<rparr>)))"

definition BatchPublisher_PublishBatch ::
  "'w SQSClient \<Rightarrow> string \<Rightarrow> Outbox list \<Rightarrow> 'w \<Rightarrow> PublishResult list \<times> 'w" where
  "BatchPublisher_PublishBatch client queueURL msgs w =
     (if msgs = [] then ([], w)
      else
        let results = map (\<lambda>msg. validated msg (blank_result msg)) msgs;
            entries = map (buildBatchEntry queueURL) (filter (\<lambda>msg. \<not> too_large msg) msgs)
        in if entries = [] then (results, w)
           else
             (case SendMessageBatch client queueURL entries w of
                (Inl err, w') \<Rightarrow>
                  (map (batch_failed (WrapError ''sqs batch publish failed: '' err [])) results, w')
              | (Inr out, w') \<Rightarrow>
                  (map (\<lambda>(msg, r). answered out msg r) (zip msgs results), w')))"

section \<open>Publishing a batch to several queues\<close>

text \<open>The slots of the result slice that belong to a group are updated by index.\<close>

definition update_slots ::
  "(Outbox \<Rightarrow> PublishResult \<Rightarrow> PublishResult) \<Rightarrow> (nat \<times> Outbox) list \<Rightarrow> PublishResult list \<Rightarrow> PublishResult list" where
  "update_slots f grp results = fold (\<lambda>(i, msg) rs. rs[i := f msg (rs ! i)]) grp results"

definition publishBatchToQueueWithLock ::
  "'w SQSClient \<Rightarrow> string \<Rightarrow> (nat \<times> Outbox) list \<Rightarrow> PublishResult list \<Rightarrow> 'w \<Rightarrow> PublishResult list \<times> 'w" where
  "publishBatchToQueueWithLock client queueURL grp results w =
     (let results = update_slots validated grp results;
          entries = map (\<lambda>(i, msg). buildBatchEntry queueURL msg) (filter (\<lambda>(i, msg). \<not> too_large msg) grp)
      in if entries = [] then (results, w)
         else
           (case SendMessageBatch client queueURL entries w of
              (Inl err, w') \<Rightarrow>
                (update_slots (\<lambda>msg. batch_failed
                   (WrapError (''sqs batch publish to '' @ queueURL @ '' failed: '') err [])) grp results, w')
            | (Inr out, w') \<Rightarrow> (update_slots (answered out) grp results, w')))"

definition queue_group :: "(string \<Rightarrow> string) \<Rightarrow> Outbox list \<Rightarrow> string \<Rightarrow> (nat \<times> Outbox) list" where
  "queue_group route msgs queueURL =
     filter (\<lambda>(i, msg). route (EventType msg) = queueURL) (zip [0..<length msgs] msgs)"

fun publish_groups ::
  "'w SQSClient \<Rightarrow> (string \<Rightarrow> string) \<Rightarrow> Outbox list \<Rightarrow> string list \<Rightarrow> PublishResult list \<Rightarrow> 'w \<Rightarrow>
   PublishResult list \<times> 'w" where
  "publish_groups client route msgs [] results w = (results, w)"
| "publish_groups client route msgs (q # qs) results w =
     (case publishBatchToQueueWithLock client q (queue_group route msgs q) results w of
        (results', w') \<Rightarrow> publish_groups client route msgs qs results' w')"

definition MultiBatchPublisher_PublishBatch ::
  "'w SQSClient \<Rightarrow> (string \<Rightarrow> string) \<Rightarrow> (string list \<Rightarrow> string list) \<Rightarrow> Outbox list \<Rightarrow> 'w \<Rightarrow>
   PublishResult list \<times> 'w" where
  "MultiBatchPublisher_PublishBatch client route sched msgs w =
     (if msgs = [] then ([], w)
      else publish_groups client route msgs (sched (remdups (map (\<lambda>m. route (EventType m)) msgs)))
             (map blank_result msgs) w)"

section \<open>The publishers as instances of the interfaces\<close>

definition NewPublisher :: "'w SQSClient \<Rightarrow> string \<Rightarrow> 'w Publisher" where
  "NewPublisher client queueURL = \<lparr>Publish = Publisher_Publish client queueURL\<rparr>"

definition NewMultiQueuePublisher :: "'w SQSClient \<Rightarrow> (string \<Rightarrow> string) \<Rightarrow> 'w Publisher" where
  "NewMultiQueuePublisher client route = \<lparr>Publish = MultiQueuePublisher_Publish client route\<rparr>"

definition NewBatchPublisher :: "'w SQSClient \<Rightarrow> string \<Rightarrow> 'w BatchPublisher" where
  "NewBatchPublisher client queueURL =
     \<lparr>Publish = BatchPublisher_Publish client queueURL,
      PublishBatch = BatchPublisher_PublishBatch client queueURL, MaxBatchSize = sqsMaxBatchSize\<rparr>"

definition NewMultiBatchPublisher ::
  "'w SQSClient \<Rightarrow> (string \<Rightarrow> string) \<Rightarrow> (string list \<Rightarrow> string list) \<Rightarrow> 'w BatchPublisher" where
  "NewMultiBatchPublisher client route sched =
     \<lparr>Publish = MultiBatchPublisher_Publish client route,
      PublishBatch = MultiBatchPublisher_PublishBatch client route sched, MaxBatchSize = sqsMaxBatchSize\<rparr>"

end
