(* ===== verification/Sqs_Correct.thy ===== *)
theory Sqs_Correct
  imports Sqs_Publisher "HOL-Library.Multiset"
begin

text \<open>
  The SQS publishers against the contracts of \<open>Publisher\<close>: what is relied on of the SQS client
  (locale \<open>sqs_client\<close>) and of the runtime (\<open>sqs_fanout\<close>), one settled result slot per message,
  oversized payloads, and a scripted service the locales are interpreted on.
\<close>

section \<open>What the publishers rely on and promise\<close>

text \<open>
  \<open>stored w x\<close>: the service has taken over the message \<open>x\<close> (a FIFO queue may recognise it as a
  duplicate of an earlier one by its deduplication id).
\<close>

definition entry_input :: "string \<Rightarrow> BatchEntry \<Rightarrow> SendMessageInput" where
  "entry_input q e =
     \<lparr>QueueUrl = q, in_MessageBody = be_MessageBody e, in_MessageAttributes = be_MessageAttributes e,
      in_MessageGroupId = be_MessageGroupId e, in_MessageDeduplicationId = be_MessageDeduplicationId e\<rparr>"

locale sqs_client =
  fixes C :: "'w SQSClient"
    and stored :: "'w \<Rightarrow> SendMessageInput \<Rightarrow> bool"
  assumes send_ok: "SendMessage C inp w = (None, w') \<Longrightarrow> stored w' inp"
    and send_keeps: "stored w x \<Longrightarrow> stored (snd (SendMessage C inp w)) x"
    and batch_ok: "SendMessageBatch C q es w = (Inr out, w') \<Longrightarrow> distinct (map be_Id es) \<Longrightarrow>
      e \<in> set es \<Longrightarrow> be_Id e \<in> fst ` set (Successful out) \<Longrightarrow> stored w' (entry_input q e)"
    and batch_keeps: "stored w x \<Longrightarrow> stored (snd (SendMessageBatch C q es w)) x"

definition sqs_accepted ::
  "('w \<Rightarrow> SendMessageInput \<Rightarrow> bool) \<Rightarrow> (string \<Rightarrow> string) \<Rightarrow> 'w \<Rightarrow> Outbox \<Rightarrow> bool" where
  "sqs_accepted stored route w m \<longleftrightarrow> stored w (buildSendMessageInput (route (EventType m)) m)"

lemma entry_input_build [simp]: "entry_input q (buildBatchEntry q m) = buildSendMessageInput q m"
  by (simp add: entry_input_def buildBatchEntry_def buildSendMessageInput_def Let_def)

lemma be_Id_build [simp]: "be_Id (buildBatchEntry q m) = ID m"
  by (simp add: buildBatchEntry_def Let_def)

text \<open>One slot of the results is settled: success only for an accepted message, else an error.\<close>

definition slot_ok :: "('w \<Rightarrow> Outbox \<Rightarrow> bool) \<Rightarrow> 'w \<Rightarrow> Outbox \<Rightarrow> PublishResult \<Rightarrow> bool" where
  "slot_ok acc w m r \<longleftrightarrow>
     OutboxID r = ID m \<and> (Success r \<longleftrightarrow> ResultError r = None) \<and> (Success r \<longrightarrow> acc w m) \<and>
     (too_large m \<longrightarrow> ResultError r = Some (payload_error m))"

lemma validated_blank:
  "validated m (blank_result m) =
     (if too_large m then (blank_result m)\<lparr>ResultError := Some (payload_error m)\<rparr> else blank_result m)"
  by (simp add: validated_def blank_result_def)

lemma batch_failed_slot: "slot_ok acc w m (batch_failed e (validated m (blank_result m)))"
  by (simp add: slot_ok_def batch_failed_def validated_def blank_result_def)

lemma too_large_slot: "too_large m \<Longrightarrow> slot_ok acc w m (validated m (blank_result m))"
  by (simp add: slot_ok_def validated_def blank_result_def)

lemma answered_slot:
  assumes "\<not> too_large m \<Longrightarrow> ID m \<in> fst ` set (Successful out) \<Longrightarrow> acc w m"
  shows "slot_ok acc w m (answered out m (validated m (blank_result m)))"
proof (cases "too_large m")
  case True
  then show ?thesis by (simp add: slot_ok_def answered_def validated_def blank_result_def)
next
  case False
  have "ID m \<in> fst ` set (Successful out)" if "success_map out (ID m) = Some i" for i
    using that by (auto simp: success_map_def dest!: map_of_SomeD intro!: rev_image_eqI)
  with assms[OF False] False show ?thesis
    by (auto simp: slot_ok_def answered_def validated_def blank_result_def split: option.splits)
qed

text \<open>Updates by index touch the slots of the group only.\<close>

lemma length_update_slots [simp]: "length (update_slots f grp rs) = length rs"
  unfolding update_slots_def by (induction grp arbitrary: rs) auto

lemma update_slots_nth:
  "distinct (map fst grp) \<Longrightarrow> i < length rs \<Longrightarrow>
   update_slots f grp rs ! i = (case map_of grp i of None \<Rightarrow> rs ! i | Some m \<Rightarrow> f m (rs ! i))"
proof (induction grp arbitrary: rs)
  case Nil
  then show ?case by (simp add: update_slots_def)
next
  case (Cons g grp)
  obtain j m where g: "g = (j, m)" by (cases g)
  have "map_of grp j = None" using Cons.prems g by (simp add: map_of_eq_None_iff)
  moreover have "update_slots f (g # grp) rs = update_slots f grp (rs[j := f m (rs ! j)])"
    by (simp add: update_slots_def g)
  ultimately show ?case using Cons g by (cases "i = j") (auto split: option.splits)
qed

lemma queue_group_map_of:
  "i < length ms \<Longrightarrow>
   map_of (queue_group route ms q) i = (if route (EventType (ms ! i)) = q then Some (ms ! i) else None)"
proof -
  assume i: "i < length ms"
  have d: "distinct (map fst (queue_group route ms q))"
    unfolding queue_group_def by (rule distinct_map_filter) simp
  have mem: "(i, m) \<in> set (queue_group route ms q) \<longleftrightarrow> m = ms ! i \<and> route (EventType m) = q" for m
    using i by (auto simp: queue_group_def in_set_zip intro!: exI[of _ i])
  show ?thesis
  proof (cases "route (EventType (ms ! i)) = q")
    case True
    then have "(i, ms ! i) \<in> set (queue_group route ms q)" using mem by simp
    with True show ?thesis by (simp add: map_of_is_SomeI[OF d])
  next
    case False
    have "map_of (queue_group route ms q) i = None"
    proof (cases "map_of (queue_group route ms q) i")
      case (Some m)
      with mem[of m] False show ?thesis by (auto dest: map_of_SomeD)
    qed simp
    with False show ?thesis by simp
  qed
qed

lemma queue_group_distinct: "distinct (map fst (queue_group route ms q))"
  unfolding queue_group_def by (rule distinct_map_filter) simp

lemma queue_group_ids:
  assumes "distinct (map ID ms)"
  shows "distinct (map ID (map snd (filter P (queue_group route ms q))))"
proof -
  have "map snd (filter P (queue_group route ms q)) =
      map snd (filter (\<lambda>x. P x \<and> route (EventType (snd x)) = q) (zip [0..<length ms] ms))"
    by (simp add: queue_group_def case_prod_beta conj_commute)
  moreover have "distinct (map (\<lambda>x. ID (snd x)) (zip [0..<length ms] ms))"
    using assms by (simp add: map_map[symmetric, unfolded comp_def] del: map_map)
  ultimately show ?thesis by (simp add: comp_def distinct_map_filter)
qed

context sqs_client
begin

lemma publish_ok:
  "Publisher_Publish C q m w = (None, w') \<Longrightarrow> stored w' (buildSendMessageInput q m)"
  "MultiQueuePublisher_Publish C route m w = (None, w') \<Longrightarrow> stored w' (buildSendMessageInput (route (EventType m)) m)"
  "BatchPublisher_Publish C q m w = (None, w') \<Longrightarrow> stored w' (buildSendMessageInput q m)"
  "MultiBatchPublisher_Publish C route m w = (None, w') \<Longrightarrow> stored w' (buildSendMessageInput (route (EventType m)) m)"
  by (auto simp: Publisher_Publish_def MultiQueuePublisher_Publish_def BatchPublisher_Publish_def
      MultiBatchPublisher_Publish_def Let_def split: if_splits prod.splits option.splits
      dest: send_ok)

lemma publish_keeps:
  assumes "stored w x"
  shows "stored (snd (Publisher_Publish C q m w)) x"
    "stored (snd (MultiQueuePublisher_Publish C route m w)) x"
    "stored (snd (BatchPublisher_Publish C q m w)) x"
    "stored (snd (MultiBatchPublisher_Publish C route m w)) x"
proof -
  have keep: "stored w' x" if "SendMessage C inp w = (r, w')" for inp r w'
    using send_keeps[OF assms, of inp] that by simp
  show "stored (snd (Publisher_Publish C q m w)) x"
    "stored (snd (MultiQueuePublisher_Publish C route m w)) x"
    "stored (snd (BatchPublisher_Publish C q m w)) x"
    "stored (snd (MultiBatchPublisher_Publish C route m w)) x"
    using assms
    by (auto simp: Publisher_Publish_def MultiQueuePublisher_Publish_def BatchPublisher_Publish_def
        MultiBatchPublisher_Publish_def Let_def split: prod.splits option.splits dest: keep)
qed

lemma single_batch:
  assumes p: "BatchPublisher_PublishBatch C q ms w = (rs, w')" and d: "distinct (map ID ms)"
  shows "length rs = length ms \<and> (\<forall>i < length rs. slot_ok (sqs_accepted stored (\<lambda>_. q)) w' (ms ! i) (rs ! i))"
proof -
  let ?es = "map (buildBatchEntry q) (filter (\<lambda>m. \<not> too_large m) ms)"
  have de: "distinct (map be_Id ?es)"
    using distinct_map_filter[OF d, of "\<lambda>m. \<not> too_large m"] by (simp add: comp_def)
  show ?thesis
  proof (cases "ms = [] \<or> ?es = []")
    case True
    then have all: "\<forall>m \<in> set ms. too_large m" by (auto simp: filter_empty_conv)
    then have "rs = map (\<lambda>m. validated m (blank_result m)) ms"
      using True p by (auto simp: BatchPublisher_PublishBatch_def Let_def split: if_splits)
    with all show ?thesis by (auto simp: too_large_slot)
  next
    case False
    show ?thesis
    proof (cases "SendMessageBatch C q ?es w")
      case (Pair res w1)
      show ?thesis
      proof (cases res)
        case (Inl e)
        with p False Pair have "rs = map (batch_failed (WrapError ''sqs batch publish failed: '' e []))
            (map (\<lambda>m. validated m (blank_result m)) ms)"
          by (auto simp: BatchPublisher_PublishBatch_def Let_def)
        then show ?thesis by (simp add: batch_failed_slot)
      next
        case (Inr out)
        with p False Pair have rs: "w' = w1" "rs = map (\<lambda>(m, r). answered out m r)
            (zip ms (map (\<lambda>m. validated m (blank_result m)) ms))"
          by (auto simp: BatchPublisher_PublishBatch_def Let_def)
        have "sqs_accepted stored (\<lambda>_. q) w' m"
          if "m \<in> set ms" "\<not> too_large m" "ID m \<in> fst ` set (Successful out)" for m
          using batch_ok[OF Pair[unfolded Inr] de, of "buildBatchEntry q m"] that rs(1)
          by (simp add: sqs_accepted_def)
        then have "slot_ok (sqs_accepted stored (\<lambda>_. q)) w' m (answered out m (validated m (blank_result m)))"
          if "m \<in> set ms" for m using that by (intro answered_slot) blast
        with rs(2) show ?thesis by simp
      qed
    qed
  qed
qed

lemma queue_batch:
  assumes p: "publishBatchToQueueWithLock C q (queue_group route ms q) rs w = (rs', w')"
    and d: "distinct (map ID ms)" and len: "length rs = length ms"
    and blank: "\<And>i. i < length ms \<Longrightarrow> route (EventType (ms ! i)) = q \<Longrightarrow> rs ! i = blank_result (ms ! i)"
  shows "length rs' = length ms \<and>
    (\<forall>i < length ms. if route (EventType (ms ! i)) = q
       then slot_ok (sqs_accepted stored route) w' (ms ! i) (rs' ! i) else rs' ! i = rs ! i)"
proof -
  let ?g = "queue_group route ms q"
  let ?es = "map (\<lambda>(i, msg). buildBatchEntry q msg) (filter (\<lambda>(i, msg). \<not> too_large msg) ?g)"
  have nth: "update_slots f ?g xs ! i =
      (if route (EventType (ms ! i)) = q then f (ms ! i) (xs ! i) else xs ! i)"
    if "i < length ms" "length xs = length ms" for f xs i
    using that update_slots_nth[OF queue_group_distinct, of i xs f route ms q]
    by (simp add: queue_group_map_of)
  have de: "distinct (map be_Id ?es)"
    using queue_group_ids[OF d, of "\<lambda>(i, msg). \<not> too_large msg" route q]
    by (simp add: comp_def case_prod_beta)
  let ?rs1 = "update_slots validated ?g rs"
  have v: "?rs1 ! i = (if route (EventType (ms ! i)) = q then validated (ms ! i) (blank_result (ms ! i)) else rs ! i)"
    if "i < length ms" for i using that nth[OF that len] blank[OF that] by simp
  have in_grp: "(i, ms ! i) \<in> set ?g" if "i < length ms" "route (EventType (ms ! i)) = q" for i
    using queue_group_map_of[OF that(1), of route q] that(2) by (auto dest: map_of_SomeD)
  show ?thesis
  proof (cases "?es = []")
    case True
    with p have rs': "rs' = ?rs1" by (simp add: publishBatchToQueueWithLock_def Let_def)
    have "too_large (ms ! i)" if "i < length ms" "route (EventType (ms ! i)) = q" for i
      using True in_grp[OF that] by (auto simp: filter_empty_conv)
    with rs' v len show ?thesis by (simp add: too_large_slot)
  next
    case False
    obtain res w1 where sb: "SendMessageBatch C q ?es w = (res, w1)" by fastforce
    show ?thesis
    proof (cases res)
      case (Inl e)
      with p False sb have "rs' = update_slots (\<lambda>msg. batch_failed
          (WrapError (''sqs batch publish to '' @ q @ '' failed: '') e [])) ?g ?rs1"
        by (simp add: publishBatchToQueueWithLock_def Let_def)
      with nth[of _ ?rs1] v len show ?thesis by (simp add: batch_failed_slot)
    next
      case (Inr out)
      with p False sb have rs': "w' = w1" "rs' = update_slots (answered out) ?g ?rs1"
        by (simp_all add: publishBatchToQueueWithLock_def Let_def)
      have acc: "sqs_accepted stored route w' (ms ! i)"
        if i: "i < length ms" "route (EventType (ms ! i)) = q" "\<not> too_large (ms ! i)"
          "ID (ms ! i) \<in> fst ` set (Successful out)" for i
      proof -
        have "buildBatchEntry q (ms ! i) \<in> set ?es" using in_grp[OF i(1,2)] i(3) by force
        with batch_ok[OF sb[unfolded Inr] de this] i rs'(1) show ?thesis by (simp add: sqs_accepted_def)
      qed
      have "slot_ok (sqs_accepted stored route) w' (ms ! i)
          (answered out (ms ! i) (validated (ms ! i) (blank_result (ms ! i))))"
        if "i < length ms" "route (EventType (ms ! i)) = q" for i
        using acc[OF that] by (rule answered_slot)
      with nth[of _ ?rs1] v len rs' show ?thesis by simp
    qed
  qed
qed

lemma queue_batch_keeps:
  "publishBatchToQueueWithLock C q g rs w = (rs', w') \<Longrightarrow> stored w x \<Longrightarrow> stored w' x"
  using batch_keeps[of w x q]
  by (auto simp: publishBatchToQueueWithLock_def Let_def split: if_splits prod.splits sum.splits)
    (metis snd_conv)+

lemma groups_batch:
  assumes p: "publish_groups C route ms qs rs w = (rs', w')"
    and d: "distinct (map ID ms)" "distinct qs" and len: "length rs = length ms"
    and slots: "\<And>i. i < length ms \<Longrightarrow> if route (EventType (ms ! i)) \<in> set qs then rs ! i = blank_result (ms ! i)
      else slot_ok (sqs_accepted stored route) w (ms ! i) (rs ! i)"
  shows "length rs' = length ms \<and>
    (\<forall>i < length ms. slot_ok (sqs_accepted stored route) w' (ms ! i) (rs' ! i))"
  using p d(2) len slots
proof (induction qs arbitrary: rs w)
  case Nil
  then show ?case by simp
next
  case (Cons q qs)
  obtain rs1 w1 where s: "publishBatchToQueueWithLock C q (queue_group route ms q) rs w = (rs1, w1)" by fastforce
  have one: "length rs1 = length ms \<and> (\<forall>i < length ms. if route (EventType (ms ! i)) = q
      then slot_ok (sqs_accepted stored route) w1 (ms ! i) (rs1 ! i) else rs1 ! i = rs ! i)"
    by (rule queue_batch[OF s d(1) Cons.prems(3)]) (use Cons.prems(4) in fastforce)
  have keep: "slot_ok (sqs_accepted stored route) w m r \<Longrightarrow> slot_ok (sqs_accepted stored route) w1 m r" for m r
    using queue_batch_keeps[OF s] by (auto simp: slot_ok_def sqs_accepted_def split: if_splits)
  show ?case
  proof (rule Cons.IH)
    show "publish_groups C route ms qs rs1 w1 = (rs', w')" using Cons.prems(1) s by simp
    show "distinct qs" "length rs1 = length ms" using Cons.prems(2) one by simp_all
    show "if route (EventType (ms ! i)) \<in> set qs then rs1 ! i = blank_result (ms ! i)
      else slot_ok (sqs_accepted stored route) w1 (ms ! i) (rs1 ! i)" if "i < length ms" for i
      using one Cons.prems(2) Cons.prems(4)[OF that] that keep by (auto split: if_splits)
  qed
qed

lemma groups_keep:
  "publish_groups C route ms qs rs w = (rs', w') \<Longrightarrow> stored w x \<Longrightarrow> stored w' x"
proof (induction qs arbitrary: rs w)
  case (Cons q qs)
  then show ?case using queue_batch_keeps by (auto split: prod.splits)
qed simp

lemma multi_batch:
  assumes "MultiBatchPublisher_PublishBatch C route sched ms w = (rs, w')" "distinct (map ID ms)"
    and "\<And>qs. mset (sched qs) = mset qs"
  shows "length rs = length ms \<and>
    (\<forall>i < length rs. slot_ok (sqs_accepted stored route) w' (ms ! i) (rs ! i))"
proof (cases "ms = []")
  case True
  with assms(1) show ?thesis by (simp add: MultiBatchPublisher_PublishBatch_def)
next
  case False
  let ?qs = "sched (remdups (map (\<lambda>m. route (EventType m)) ms))"
  have "distinct ?qs" "set ?qs = (\<lambda>m. route (EventType m)) ` set ms" 
    using assms(3) mset_eq_setD mset_eq_imp_distinct_iff by (metis distinct_remdups, metis set_map set_remdups)
  with groups_batch[of route ms ?qs "map blank_result ms" w rs w'] assms(1,2) False show ?thesis
    by (auto simp: MultiBatchPublisher_PublishBatch_def)
qed

lemma batch_calls_keep:
  assumes "stored w x"
  shows "stored (snd (BatchPublisher_PublishBatch C q ms w)) x"
    "stored (snd (MultiBatchPublisher_PublishBatch C route sched ms w)) x"
proof -
  have keep: "stored w' x" if "SendMessageBatch C q es w = (r, w')" for es r w'
    using batch_keeps[OF assms, of q es] that by simp
  show "stored (snd (BatchPublisher_PublishBatch C q ms w)) x"
    using assms by (auto simp: BatchPublisher_PublishBatch_def Let_def split: prod.splits sum.splits dest: keep)
  obtain rs w' where g: "publish_groups C route ms (sched (remdups (map (\<lambda>m. route (EventType m)) ms)))
      (map blank_result ms) w = (rs, w')" by fastforce
  with assms groups_keep[OF g] show "stored (snd (MultiBatchPublisher_PublishBatch C route sched ms w)) x"
    by (simp add: MultiBatchPublisher_PublishBatch_def)
qed

lemma slots_answer:
  "length rs = length ms \<and> (\<forall>i < length rs. slot_ok acc w (ms ! i) (rs ! i)) \<Longrightarrow>
   length rs = length ms \<and> (\<forall>i < length rs. if Success (rs ! i) then acc w (ms ! i) else ResultError (rs ! i) \<noteq> None)"
  by (auto simp: slot_ok_def split: if_splits)

end

text \<open>Over any such client the four publishers meet the contracts of the dispatchers.\<close>

sublocale sqs_client \<subseteq> single: publisher "NewPublisher C q" "sqs_accepted stored (\<lambda>_. q)" for q
  by unfold_locales
    (auto simp: NewPublisher_def sqs_accepted_def intro: publish_ok publish_keeps)

sublocale sqs_client \<subseteq> routed: publisher "NewMultiQueuePublisher C route" "sqs_accepted stored route" for route
  by unfold_locales
    (auto simp: NewMultiQueuePublisher_def sqs_accepted_def intro: publish_ok publish_keeps)

sublocale sqs_client \<subseteq> batch: batch_publisher "NewBatchPublisher C q" "sqs_accepted stored (\<lambda>_. q)" for q
proof unfold_locales
  show "PublishBatch (NewBatchPublisher C q) ms w = (rs, w') \<Longrightarrow> distinct (map ID ms) \<Longrightarrow>
      length rs = length ms \<and> (\<forall>i < length rs. if Success (rs ! i) then sqs_accepted stored (\<lambda>_. q) w' (ms ! i)
        else ResultError (rs ! i) \<noteq> None)" for ms w rs w'
    by (rule slots_answer, rule single_batch) (simp_all add: NewBatchPublisher_def)
qed (auto simp: NewBatchPublisher_def sqs_accepted_def intro: publish_ok publish_keeps batch_calls_keep)

text \<open>The runtime runs each goroutine of the fan-out once, in any order.\<close>

locale sqs_fanout = sqs_client C stored
  for C :: "'w SQSClient"
    and stored :: "'w \<Rightarrow> SendMessageInput \<Rightarrow> bool" +
  fixes sched :: "string list \<Rightarrow> string list"
  assumes sched_perm: "mset (sched qs) = mset qs"

sublocale sqs_fanout \<subseteq> fanout: batch_publisher "NewMultiBatchPublisher C route sched" "sqs_accepted stored route" for route
proof unfold_locales
  show "PublishBatch (NewMultiBatchPublisher C route sched) ms w = (rs, w') \<Longrightarrow> distinct (map ID ms) \<Longrightarrow>
      length rs = length ms \<and> (\<forall>i < length rs. if Success (rs ! i) then sqs_accepted stored route w' (ms ! i)
        else ResultError (rs ! i) \<noteq> None)" for ms w rs w'
    by (rule slots_answer, rule multi_batch[OF _ _ sched_perm]) (simp_all add: NewMultiBatchPublisher_def)
qed (auto simp: NewMultiBatchPublisher_def sqs_accepted_def intro: publish_ok publish_keeps batch_calls_keep)


context sqs_fanout
begin

lemma fanout_contract: "batch_publisher (NewMultiBatchPublisher C route sched) (sqs_accepted stored route)"
  by (rule fanout.batch_publisher_axioms)

end

section \<open>A service to run them against\<close>

text \<open>
  A small SQS: it records the requests it takes over and answers from a script, so that every
  way a call can end is available: accepted, refused, accepted with the answer lost, and for a
  batch some entries refused.  As documented for SQS, a batch with more than ten entries
  or with repeated ids is refused as a whole.
\<close>

datatype sqs_answer = Accept | Refuse goerr | Lose_Answer goerr | Refuse_Entries "string list"

record sqs_service =
  taken :: "SendMessageInput list"
  script :: "sqs_answer list"

definition next_answer :: "sqs_service \<Rightarrow> sqs_answer \<times> sqs_service" where
  "next_answer w = (case script w of [] \<Rightarrow> (Accept, w) | a # as \<Rightarrow> (a, w\<lparr>script := as\<rparr>))"

definition take_over :: "SendMessageInput list \<Rightarrow> sqs_service \<Rightarrow> sqs_service" where
  "take_over xs w = w\<lparr>taken := taken w @ xs\<rparr>"

definition service_send :: "SendMessageInput \<Rightarrow> sqs_service \<Rightarrow> goerr option \<times> sqs_service" where
  "service_send inp w =
     (case next_answer w of (a, w) \<Rightarrow>
        (case a of
           Refuse e \<Rightarrow> (Some e, w)
         | Lose_Answer e \<Rightarrow> (Some e, take_over [inp] w)
         | _ \<Rightarrow> (None, take_over [inp] w)))"

definition service_batch ::
  "string \<Rightarrow> BatchEntry list \<Rightarrow> sqs_service \<Rightarrow> (goerr + SendMessageBatchOutput) \<times> sqs_service" where
  "service_batch q es w =
     (if length es > 10 \<or> \<not> distinct (map be_Id es) then (Inl (ErrorString ''invalid batch''), w)
      else
        case next_answer w of (a, w) \<Rightarrow>
          (case a of
             Refuse e \<Rightarrow> (Inl e, w)
           | Lose_Answer e \<Rightarrow> (Inl e, take_over (map (entry_input q) es) w)
           | Accept \<Rightarrow> (Inr \<lparr>Successful = map (\<lambda>e. (be_Id e, ''m-'' @ be_Id e)) es, Failed = []\<rparr>,
                take_over (map (entry_input q) es) w)
           | Refuse_Entries ids \<Rightarrow>
               (let good = filter (\<lambda>e. be_Id e \<notin> set ids) es; bad = filter (\<lambda>e. be_Id e \<in> set ids) es
                in (Inr \<lparr>Successful = map (\<lambda>e. (be_Id e, ''m-'' @ be_Id e)) good,
                         Failed = map (\<lambda>e. (be_Id e, ''InternalError'', ''try again'')) bad\<rparr>,
                    take_over (map (entry_input q) good) w))))"

definition service_client :: "sqs_service SQSClient" where
  "service_client = \<lparr>SendMessage = service_send, SendMessageBatch = service_batch\<rparr>"

definition service_stored :: "sqs_service \<Rightarrow> SendMessageInput \<Rightarrow> bool" where
  "service_stored w x \<longleftrightarrow> x \<in> set (taken w)"

lemma next_answer_taken [simp]: "next_answer w = (a, w') \<Longrightarrow> taken w' = taken w"
  by (auto simp: next_answer_def split: list.splits)

lemma taken_take_over [simp]: "taken (take_over xs w) = taken w @ xs"
  by (simp add: take_over_def)

text \<open>The ids an answer reports as successful are those of entries taken over.\<close>

lemma service_batch_answer:
  assumes b: "service_batch q es w = (Inr out, w')" and d: "distinct (map be_Id es)"
    and e: "e \<in> set es" "be_Id e \<in> fst ` set (Successful out)"
  shows "entry_input q e \<in> set (taken w')"
proof -
  obtain good where good: "set good \<subseteq> set es" "fst ` set (Successful out) = be_Id ` set good"
    "entry_input q ` set good \<subseteq> set (taken w')"
  proof (cases "next_answer w")
    case (Pair a w1)
    show thesis
    proof (cases a)
      case Accept
      with b d Pair that[of es] show thesis
        by (auto simp: service_batch_def image_image split: if_splits)
    next
      case (Refuse_Entries ids)
      with b d Pair that[of "filter (\<lambda>e. be_Id e \<notin> set ids) es"] show thesis
        by (auto simp: service_batch_def image_image Let_def split: if_splits)
    qed (use b d Pair in \<open>auto simp: service_batch_def split: if_splits\<close>)
  qed
  from e(2) good(2) obtain g where g: "g \<in> set good" "be_Id e = be_Id g" by auto
  with good(1) e(1) d have "e = g" by (auto simp: distinct_map inj_on_def)
  with g good(3) show ?thesis by auto
qed

interpretation service: sqs_client service_client service_stored
proof unfold_locales
  show "SendMessage service_client inp w = (None, w') \<Longrightarrow> service_stored w' inp" for inp w w'
    by (auto simp: service_client_def service_send_def service_stored_def split: prod.splits sqs_answer.splits)
  show "service_stored w x \<Longrightarrow> service_stored (snd (SendMessage service_client inp w)) x" for inp w x
    by (auto simp: service_client_def service_send_def service_stored_def split: prod.splits sqs_answer.splits)
  show "service_stored w x \<Longrightarrow> service_stored (snd (SendMessageBatch service_client q es w)) x" for q es w x
    by (auto simp: service_client_def service_batch_def service_stored_def Let_def
        split: prod.splits sqs_answer.splits)
  show "service_stored w' (entry_input q e)"
    if "SendMessageBatch service_client q es w = (Inr out, w')" "distinct (map be_Id es)" "e \<in> set es"
      "be_Id e \<in> fst ` set (Successful out)" for q es w out w' e
    using service_batch_answer[OF that(1)[unfolded service_client_def, simplified] that(2-4)]
    by (simp add: service_stored_def)
qed

interpretation service: sqs_fanout service_client service_stored rev
  by unfold_locales simp


section \<open>Properties\<close>

definition sample_msg :: "string \<Rightarrow> nat \<Rightarrow> Outbox" where
  "sample_msg i n = \<lparr>ID = i, EventType = ''order.created'', Payload = Some (replicate n CHR ''x''),
     Metadata = None, IdempotencyKey = ''k-'' @ i, Status = OutboxStatusPublishing, ErrorMessage = None,
     AttemptCount = 1, MaxAttempts = 5, NextRetryAt = None, CreatedAt = 0, UpdatedAt = 0\<rparr>"

text \<open>
  A batch published to one queue comes back with one result per message, in the order of
  the messages and carrying their ids; success is reported only for a message the service
  has taken over with exactly the content of the row, every other slot has an error, and an
  oversized message gets the payload-too-large error whatever happens to the rest.
\<close>

theorem sqs_batch_answers:
  assumes "sqs_client C stored" "distinct (map ID ms)"
    and "BatchPublisher_PublishBatch C q ms w = (rs, w')"
  shows "length rs = length ms \<and>
    (\<forall>i < length rs. slot_ok (sqs_accepted stored (\<lambda>_. q)) w' (ms ! i) (rs ! i))"
  by (rule sqs_client.single_batch[OF assms(1,3,2)])

theorem sqs_batch_answers_witness:
  "\<exists>rs w'. BatchPublisher_PublishBatch service_client ''https://q.fifo''
       [sample_msg ''a'' 3, sample_msg ''b'' 4, sample_msg ''c'' 262145]
       \<lparr>taken = [], script = [Refuse_Entries [''b'']]\<rparr> = (rs, w') \<and> length rs = 3 \<and>
     service_stored w' (buildSendMessageInput ''https://q.fifo'' (sample_msg ''a'' 3)) \<and>
     ResultError (rs ! 2) = Some (payload_error (sample_msg ''c'' 262145))"
proof -
  let ?ms = "[sample_msg ''a'' 3, sample_msg ''b'' 4, sample_msg ''c'' 262145]"
  let ?w = "\<lparr>taken = [], script = [Refuse_Entries [''b'']]\<rparr>"
  have big: "too_large (sample_msg ''c'' 262145)" "\<not> too_large (sample_msg ''a'' 3)" "\<not> too_large (sample_msg ''b'' 4)"
    by (simp_all add: too_large_def sample_msg_def MaxSQSMessageSize_def blen_def)
  obtain rs w' where b: "BatchPublisher_PublishBatch service_client ''https://q.fifo'' ?ms ?w = (rs, w')"
    by fastforce
  have d: "distinct (map ID ?ms)" by (simp add: sample_msg_def)
  note r = sqs_batch_answers[OF service.sqs_client_axioms d b]
  have id: "ID (sample_msg i n) = i" for i n by (simp add: sample_msg_def)
  have "Success (rs ! 0)"
    using b big by (auto simp: BatchPublisher_PublishBatch_def service_client_def service_batch_def
        next_answer_def answered_def success_map_def validated_def blank_result_def id Let_def)
  with r have "sqs_accepted service_stored (\<lambda>_. ''https://q.fifo'') w' (sample_msg ''a'' 3)"
    by (auto simp: slot_ok_def dest!: spec[of _ 0])
  moreover have "ResultError (rs ! 2) = Some (payload_error (sample_msg ''c'' 262145))"
    using r big(1) by (auto simp: slot_ok_def dest!: spec[of _ 2])
  ultimately show ?thesis using b r by (auto simp: sqs_accepted_def)
qed

text \<open>
  C22: the same for a batch fanned out over the queues the router chooses, whatever order
  the goroutines run in: every slot is settled, and success means the queue the router chose
  for that message has taken it over.
\<close>

theorem sqs_fanout_answers:
  assumes "sqs_fanout C stored sched" "distinct (map ID ms)"
    and "MultiBatchPublisher_PublishBatch C (QueueURL router) sched ms w = (rs, w')"
  shows "length rs = length ms \<and>
    (\<forall>i < length rs. slot_ok (sqs_accepted stored (QueueURL router)) w' (ms ! i) (rs ! i))"
  by (rule sqs_client.multi_batch[OF sqs_fanout.axioms(1)[OF assms(1)] assms(3,2)])
    (rule sqs_fanout.sched_perm[OF assms(1)])

theorem sqs_fanout_answers_witness:
  "\<exists>rs w'. MultiBatchPublisher_PublishBatch service_client
       (QueueURL (Register ''order.created'' ''https://orders'' (NewEventTypeQueueMap ''https://other''))) rev
       [sample_msg ''a'' 3, (sample_msg ''b'' 4)\<lparr>EventType := ''user.created''\<rparr>]
       \<lparr>taken = [], script = [Refuse (ErrorString ''throttled'')]\<rparr> = (rs, w') \<and> length rs = 2 \<and>
     service_stored w' (buildSendMessageInput ''https://orders'' (sample_msg ''a'' 3)) \<and>
     ResultError (rs ! 1) \<noteq> None"
proof -
  let ?r = "Register ''order.created'' ''https://orders'' (NewEventTypeQueueMap ''https://other'')"
  let ?b = "(sample_msg ''b'' 4)\<lparr>EventType := ''user.created''\<rparr>"
  let ?ms = "[sample_msg ''a'' 3, ?b]"
  let ?w = "\<lparr>taken = [], script = [Refuse (ErrorString ''throttled'')]\<rparr>"
  obtain rs w' where p: "MultiBatchPublisher_PublishBatch service_client (QueueURL ?r) rev ?ms ?w = (rs, w')"
    by fastforce
  have d: "distinct (map ID ?ms)" by (simp add: sample_msg_def)
  note r = sqs_fanout_answers[OF service.sqs_fanout_axioms d p]
  have small: "\<not> too_large (sample_msg ''a'' 3)" "\<not> too_large ?b"
    by (simp_all add: too_large_def sample_msg_def MaxSQSMessageSize_def blen_def)
  have q: "QueueURL ?r ''order.created'' = ''https://orders''" "QueueURL ?r ''user.created'' = ''https://other''"
    by (simp_all add: QueueURL_def Register_def NewEventTypeQueueMap_def)
  have m: "ID (sample_msg i n) = i" "EventType (sample_msg i n) = ''order.created''" for i n
    by (simp_all add: sample_msg_def)
  have "Success (rs ! 0) \<and> ResultError (rs ! 1) \<noteq> None"
    using p small by (auto simp: MultiBatchPublisher_PublishBatch_def publishBatchToQueueWithLock_def
        queue_group_def update_slots_def service_client_def service_batch_def next_answer_def answered_def
        batch_failed_def success_map_def validated_def blank_result_def m q Let_def)
  with r have "sqs_accepted service_stored (QueueURL ?r) w' (sample_msg ''a'' 3)" "ResultError (rs ! 1) \<noteq> None"
    by (auto simp: slot_ok_def dest!: spec[of _ 0])
  with p r show ?thesis by (auto simp: sqs_accepted_def m q)
qed

text \<open>
  A payload over the SQS limit of 256 KiB is never sent: each of the four publishers refuses
  it without calling the service, with an error that wraps \<open>ErrPayloadTooLarge\<close> and is
  classified as permanent, so that the dispatchers mark the message DEAD at once instead of
  retrying it; a batch of such payloads alone makes no call either.
\<close>

theorem sqs_oversized:
  assumes "too_large m" "\<forall>x \<in> set ms. too_large x"
  shows "Publisher_Publish C q m w = (Some (payload_error m), w) \<and>
    MultiQueuePublisher_Publish C route m w = (Some (payload_error m), w) \<and>
    BatchPublisher_Publish C q m w = (Some (payload_error m), w) \<and>
    MultiBatchPublisher_Publish C route m w = (Some (payload_error m), w) \<and>
    BatchPublisher_PublishBatch C q ms w =
      (map (\<lambda>x. (blank_result x)\<lparr>ResultError := Some (payload_error x)\<rparr>) ms, w) \<and>
    errors_Is (payload_error m) ErrPayloadTooLarge \<and> \<not> IsRetryable (Some (payload_error m))"
proof -
  have "filter (\<lambda>m. \<not> too_large m) ms = []" using assms(2) by (simp add: filter_empty_conv)
  then have "BatchPublisher_PublishBatch C q ms w =
      (map (\<lambda>x. (blank_result x)\<lparr>ResultError := Some (payload_error x)\<rparr>) ms, w)"
    using assms(2) by (simp add: BatchPublisher_PublishBatch_def validated_blank Let_def)
  with assms(1) show ?thesis
    by (simp add: Publisher_Publish_def MultiQueuePublisher_Publish_def BatchPublisher_Publish_def
        MultiBatchPublisher_Publish_def payload_error_def NewPermanentError_def)
qed

theorem sqs_oversized_witness:
  "Publisher_Publish service_client ''https://q'' (sample_msg ''c'' 262145) \<lparr>taken = [], script = []\<rparr> =
     (Some (payload_error (sample_msg ''c'' 262145)), \<lparr>taken = [], script = []\<rparr>)"
  using sqs_oversized[of "sample_msg ''c'' 262145" "[]" service_client "''https://q''"]
  by (simp add: too_large_def sample_msg_def MaxSQSMessageSize_def blen_def)

end
