(* ===== verification/Dispatch_Safety.thy ===== *)
theory Dispatch_Safety
  imports Publisher
begin

text \<open>
  The safety argument the dispatchers share, in rely-guarantee form: what every process using
  the outbox guarantees about its steps on database and broker (\<open>guarantee\<close>), and that each
  operation of a repository meeting the contract \<open>outbox_repository\<close> is such a step.  The
  steps compose (\<open>guarantee_trans\<close>), so a worker may rely on the same relation for whatever the
  others do in between.
\<close>

section \<open>Safe states and what every process guarantees\<close>

definition same_message :: "Outbox \<Rightarrow> Outbox \<Rightarrow> bool" where
  "same_message x r \<longleftrightarrow>
     ID x = ID r \<and> EventType x = EventType r \<and> Payload x = Payload r \<and> Metadata x = Metadata r \<and>
     IdempotencyKey x = IdempotencyKey r"

text \<open>Every row marked PUBLISHED was accepted by the broker, with the content of the row.\<close>

definition delivered ::
  "('s \<Rightarrow> string \<Rightarrow> Outbox option) \<Rightarrow> ('w \<Rightarrow> Outbox \<Rightarrow> bool) \<Rightarrow> 's \<Rightarrow> 'w \<Rightarrow> bool" where
  "delivered row accepted d b \<longleftrightarrow>
     (\<forall>i r. row d i = Some r \<longrightarrow> Status r = OutboxStatusPublished \<longrightarrow>
        (\<exists>x. same_message x r \<and> accepted b x))"

text \<open>
  A transition of database and broker that a process may make: from a safe state it leads
  to a safe one, revokes nothing and moves rows only along their life cycle.
\<close>

definition guarantee ::
  "('s \<Rightarrow> string \<Rightarrow> Outbox option) \<Rightarrow> ('s \<Rightarrow> bool) \<Rightarrow> ('w \<Rightarrow> Outbox \<Rightarrow> bool) \<Rightarrow> 's \<Rightarrow> 'w \<Rightarrow> 's \<Rightarrow> 'w \<Rightarrow> bool" where
  "guarantee row I accepted d b d' b' \<longleftrightarrow>
     (I d \<and> delivered row accepted d b \<longrightarrow>
        I d' \<and> delivered row accepted d' b' \<and>
        (\<forall>x. accepted b x \<longrightarrow> accepted b' x) \<and>
        (\<forall>i r. row d i = Some r \<longrightarrow> (\<exists>r'. row d' i = Some r' \<and> row_step\<^sup>*\<^sup>* r r')))"

lemma row_steps_message: "row_step\<^sup>*\<^sup>* r r' \<Longrightarrow> same_message x r \<Longrightarrow> same_message x r'"
  by (induction rule: rtranclp_induct) (auto simp: same_message_def row_step_frame)

lemma guarantee_refl [simp]: "guarantee row I accepted d b d b"
  by (auto simp: guarantee_def)

lemma guarantee_trans:
  "guarantee row I accepted d b d' b' \<Longrightarrow> guarantee row I accepted d' b' d'' b'' \<Longrightarrow>
   guarantee row I accepted d b d'' b''"
  unfolding guarantee_def by (meson rtranclp_trans)

lemma guarantee_broker:
  "(\<And>x. accepted b x \<Longrightarrow> accepted b' x) \<Longrightarrow> guarantee row I accepted d b d b'"
  unfolding guarantee_def delivered_def by blast

text \<open>A change of one row that is allowed by the life cycle.\<close>

lemma guarantee_row:
  assumes "I d \<Longrightarrow> I d'"
    and "\<And>i. rel_option row_evolves (row d i) (row d' i)"
    and "\<And>i r r'. row d i = Some r \<Longrightarrow> row d' i = Some r' \<Longrightarrow> r' \<noteq> r \<Longrightarrow>
      Status r' = OutboxStatusPublished \<Longrightarrow> \<exists>x. same_message x r' \<and> accepted b x"
  shows "guarantee row I accepted d b d' b"
proof -
  have track: "\<exists>r'. row d' i = Some r' \<and> row_step\<^sup>*\<^sup>* r r'" if "row d i = Some r" for i r
    using assms(2)[of i] that by (auto simp: option_rel_Some1 row_evolves_def)
  have "\<exists>x. same_message x r' \<and> accepted b x"
    if del: "delivered row accepted d b" and r': "row d' i = Some r'"
      "Status r' = OutboxStatusPublished" for i r'
  proof -
    obtain r where "row d i = Some r" using assms(2)[of i] r'(1) by (cases "row d i") auto
    then show ?thesis using assms(3) del r' by (cases "r' = r") (auto simp: delivered_def)
  qed
  with assms(1) track show ?thesis by (auto simp: guarantee_def delivered_def)
qed

lemma guarantee_rows:
  assumes inv: "I d \<Longrightarrow> I d'" and rows: "\<And>i. rel_option Q (row d i) (row d' i)"
    and Q: "\<And>r r'. Q r r' \<Longrightarrow> row_evolves r r'"
      "\<And>r r'. Q r r' \<Longrightarrow> r' \<noteq> r \<Longrightarrow> Status r' \<noteq> OutboxStatusPublished"
  shows "guarantee row I accepted d b d' b"
proof (rule guarantee_row)
  show "rel_option row_evolves (row d i) (row d' i)" for i
    using rows Q(1) by (rule option.rel_mono_strong)
  show "\<exists>x. same_message x r' \<and> accepted b x"
    if "row d i = Some r" "row d' i = Some r'" "r' \<noteq> r" "Status r' = OutboxStatusPublished" for i r r'
    using rows[of i] that Q(2) by auto
qed (rule inv)

lemma guarantee_settles:
  assumes inv: "I d \<Longrightarrow> I d'" and set: "settles row i E d (err, d')"
    and E: "\<And>r r'. row d i = Some r \<Longrightarrow> Status r = OutboxStatusPublishing \<Longrightarrow> E r r' \<Longrightarrow>
      row_step r r' \<and> (Status r' = OutboxStatusPublished \<longrightarrow> (\<exists>x. same_message x r' \<and> accepted b x))"
  shows "guarantee row I accepted d b d' b"
  using set
proof (cases rule: settles_cases)
  case (effect r r')
  note step = E[OF effect(1-3)]
  show ?thesis
  proof (rule guarantee_row)
    show "rel_option row_evolves (row d j) (row d' j)" for j
      using effect step by (cases "j = i") (auto simp: row_evolves_def intro: option.rel_refl)
    show "\<exists>x. same_message x s' \<and> accepted b x"
      if "row d j = Some s" "row d' j = Some s'" "s' \<noteq> s" "Status s' = OutboxStatusPublished" for j s s'
      using effect step that by (cases "j = i") auto
  qed (rule inv)
next
  case (unchanged e)
  show ?thesis
    by (rule guarantee_rows[where Q = "(=)"]) (use unchanged inv in \<open>auto simp: option.rel_eq\<close>)
qed

section \<open>Writing the result of a publish attempt\<close>

definition settled_as :: "Outbox \<Rightarrow> goerr option \<Rightarrow> Outbox \<Rightarrow> Outbox \<Rightarrow> bool" where
  "settled_as m publishErr r r' \<longleftrightarrow>
     (case publishErr of
        None \<Rightarrow> became_published r r'
      | Some e \<Rightarrow>
          if IsRetryable (Some e) \<and> \<not> WillExceedMaxAttemptsAfterFailure m
          then became_failed (TruncateErrorMessage (Error_text e)) r r'
          else became_dead (TruncateErrorMessage (Error_text e)) r r')"

definition write_result ::
  "('c, 's, 'r) OutboxRepository_scheme \<Rightarrow> 'c \<Rightarrow> Outbox \<Rightarrow> goerr option \<Rightarrow> 's \<Rightarrow> goerr option \<times> 's" where
  "write_result R c m publishErr d =
     (case publishErr of
        None \<Rightarrow> UpdateToPublished R c (ID m) d
      | Some e \<Rightarrow>
          if IsRetryable (Some e) \<and> \<not> WillExceedMaxAttemptsAfterFailure m
          then UpdateToFailed R c (ID m) (TruncateErrorMessage (Error_text e)) d
          else UpdateToDead R c (ID m) (TruncateErrorMessage (Error_text e)) d)"

section \<open>The repository operations are such steps\<close>

context outbox_repository
begin

lemma fetch_guarantee:
  assumes c: "okc c" and i: "inv d" and f: "FetchAndLockToPublishing R c d = (res, d')"
  shows "guarantee row inv accepted d b d' b"
proof -
  have "rel_option maybe_picked_up (row d i) (row d' i)" for i
  proof (cases res)
    case (Inl e)
    with fetch_err[OF \<open>inv d\<close> c] f show ?thesis by simp
  next
    case (Inr m)
    with fetch_ok[OF \<open>inv d\<close> c] f have "fetched row d d' m" "i \<noteq> ID m \<longrightarrow> row d' i = row d i"
      by blast+
    then show ?thesis
      by (cases "i = ID m") (auto simp: fetched_def maybe_picked_up_def intro: option.rel_refl)
  qed
  then show ?thesis
    by (rule guarantee_rows[rotated]) (use fetch_inv[OF i c] f maybe_evolves maybe_not_published in auto)
qed

lemma published_guarantee:
  assumes "okc c" "inv d" "accepted b m" "\<And>r. row d (ID m) = Some r \<Longrightarrow> same_message m r"
    and "UpdateToPublished R c (ID m) d = (err, d')"
  shows "guarantee row inv accepted d b d' b"
proof (rule guarantee_settles)
  show "settles row (ID m) became_published d (err, d')"
    using published[OF assms(2,1), of "ID m"] assms(5) by simp
  show "row_step r r' \<and> (Status r' = OutboxStatusPublished \<longrightarrow> (\<exists>x. same_message x r' \<and> accepted b x))"
    if "row d (ID m) = Some r" "Status r = OutboxStatusPublishing" "became_published r r'" for r r'
  proof -
    have step: "row_step r r'" using that by blast
    with assms(4)[OF that(1)] have "same_message m r'" by (blast intro: row_steps_message)
    with assms(3) step show ?thesis by blast
  qed
qed (use published_inv[OF assms(2,1), of "ID m"] assms(5) in simp)

lemma failed_guarantee:
  assumes "okc c" "inv d" "UpdateToFailed R c i em d = (err, d')"
  shows "guarantee row inv accepted d b d' b"
proof (rule guarantee_settles)
  show "settles row i (became_failed em) d (err, d')" using failed[OF assms(2,1), of i em] assms(3) by simp
qed (use failed_inv[OF assms(2,1), of i em] assms(3) in \<open>auto simp: became_failed_def intro: row_step.intros\<close>)

lemma dead_guarantee:
  assumes "okc c" "inv d" "UpdateToDead R c i em d = (err, d')"
  shows "guarantee row inv accepted d b d' b"
proof (rule guarantee_settles)
  show "settles row i (became_dead em) d (err, d')" using dead[OF assms(2,1), of i em] assms(3) by simp
qed (use dead_inv[OF assms(2,1), of i em] assms(3) in \<open>auto simp: became_dead_def intro: row_step.intros\<close>)

lemma write_result_settles:
  assumes "inv d" "okc c"
  shows "settles row (ID m) (settled_as m pe) d (write_result R c m pe d)"
proof -
  have "settled_as m pe = (case pe of None \<Rightarrow> became_published | Some e \<Rightarrow>
      if IsRetryable (Some e) \<and> \<not> WillExceedMaxAttemptsAfterFailure m
      then became_failed (TruncateErrorMessage (Error_text e))
      else became_dead (TruncateErrorMessage (Error_text e)))"
    by (auto simp: fun_eq_iff settled_as_def split: option.splits)
  then show ?thesis
    using published[OF assms] failed[OF assms] dead[OF assms]
    by (auto simp: write_result_def split: option.splits)
qed

lemma write_result_guarantee:
  assumes "okc c" "inv d" "write_result R c m pe d = (e, d')"
    and "pe = None \<Longrightarrow> accepted b m" "\<And>r. row d (ID m) = Some r \<Longrightarrow> same_message m r"
  shows "guarantee row inv accepted d b d' b"
proof (cases pe)
  case None
  show ?thesis
    by (rule published_guarantee[where m = m])
      (use assms None in \<open>simp_all add: write_result_def\<close>)
next
  case (Some x)
  with assms(3) failed_guarantee[OF assms(1,2)] dead_guarantee[OF assms(1,2)] show ?thesis
    by (auto simp: write_result_def split: if_splits)
qed

lemma requeue_guarantee:
  assumes "okc c" "inv d"
  shows "guarantee row inv accepted d b (snd (RequeueFailed R c d)) b"
  using requeue_rows[OF assms(2,1)]
  by (rule guarantee_rows[rotated])
    (use requeue_inv[OF assms(2,1)] maybe_evolves maybe_not_published in auto)

end

context batch_outbox_repository
begin

lemma batch_fetch_guarantee:
  assumes c: "okc c" and i: "inv d" and f: "FetchLockAndMarkPublishing R c n d = (res, d')"
  shows "guarantee row inv accepted d b d' b"
proof -
  have "rel_option maybe_picked_up (row d i) (row d' i)" for i
  proof (cases res)
    case (Inl e)
    with batch_fetch_err[OF \<open>inv d\<close> c] f show ?thesis by simp
  next
    case (Inr ms)
    with batch_fetch_ok[OF \<open>inv d\<close> c] f have "\<forall>m \<in> set ms. fetched row d d' m"
      "i \<notin> ID ` set ms \<longrightarrow> row d' i = row d i" by blast+
    then show ?thesis
      by (cases "i \<in> ID ` set ms") (auto simp: fetched_def maybe_picked_up_def intro: option.rel_refl)
  qed
  then show ?thesis
    by (rule guarantee_rows[rotated]) (use batch_fetch_inv[OF i c, of n] f maybe_evolves maybe_not_published in auto)
qed

lemma batch_published_guarantee:
  assumes c: "okc c" and d: "inv d" and u: "UpdateBatchToPublished R c ids d = (res, d')"
    and acc: "\<And>i r. i \<in> set ids \<Longrightarrow> row d i = Some r \<Longrightarrow> \<exists>x. same_message x r \<and> accepted b x"
  shows "guarantee row inv accepted d b d' b"
proof (rule guarantee_row)
  let ?hit = "\<lambda>i. i \<in> set ids \<and> (\<exists>r. row d i = Some r \<and> Status r = OutboxStatusPublishing)"
  have rows: "row d' i = row d i \<or> ?hit i \<and> rel_option became_published (row d i) (row d' i)" for i
  proof (cases res)
    case (Inl e)
    with batch_published_err[OF d c, of ids e d' i] u show ?thesis by (auto split: if_splits)
  next
    case (Inr k)
    with batch_published_ok[OF d c, of ids k d'] u show ?thesis by (auto split: if_splits)
  qed
  show "rel_option row_evolves (row d i) (row d' i)" for i
    using rows[of i] by (cases "row d i"; cases "row d' i") (auto simp: row_evolves_def)
  show "\<exists>x. same_message x r' \<and> accepted b x"
    if "row d i = Some r" "row d' i = Some r'" "r' \<noteq> r" "Status r' = OutboxStatusPublished" for i r r'
  proof -
    from rows[of i] that have "i \<in> set ids" "became_published r r'" by auto
    with acc[OF _ that(1)] show ?thesis by (auto simp: became_published_def same_message_def)
  qed
qed (use batch_published_inv[OF d c, of ids] u in simp)

end

end
