(* ===== verification/Worker.thy ===== *)
theory Worker
  imports Dispatch_Safety
begin

text \<open>
  \<open>src/core/worker.go\<close>: one worker of the single-message dispatcher.  The world of a worker is
  the database, the broker side of its publisher, the trace of hook runs and the dispatcher's
  \<open>lastProcessedAt\<close>; an iteration is given the contexts of its two database calls (the second
  one comes from \<open>createCleanupContext\<close>, so a cancelled worker still writes its result), the
  measured duration, the time of the callback, and what the other processes do to database and
  broker between the fetch and the publish call (\<open>beforePublish\<close>) and between that call and the
  write of the result (\<open>meanwhile\<close>).  Log output is left out.
\<close>

section \<open>The worker\<close>

record ('s, 'w) world =
  db :: 's
  broker :: 'w
  trace :: "event list"
  lastProcessedAt :: "time option"

record ('c, 's, 'w) iteration =
  fetchCtx :: 'c
  beforePublish :: "'s \<Rightarrow> 'w \<Rightarrow> 's \<times> 'w"
  meanwhile :: "'s \<Rightarrow> 'w \<Rightarrow> 's \<times> 'w"
  cleanupCtx :: 'c
  elapsed :: duration
  callbackTime :: time

record ('c, 's, 'r, 'w, 'p) Worker =
  repo :: "('c, 's, 'r) OutboxRepository_scheme"
  publisher :: "('w, 'p) Publisher_scheme"
  hooks :: "Hooks option"
  pollInterval :: duration
  maxPollInterval :: duration
  onMessageProcessed :: bool

definition log_events :: "event list \<Rightarrow> ('s, 'w) world \<Rightarrow> ('s, 'w) world" where
  "log_events evs s = s\<lparr>trace := trace s @ evs\<rparr>"

definition handlePublishFailure ::
  "('c, 's, 'r, 'w, 'p) Worker \<Rightarrow> ('c, 's, 'w) iteration \<Rightarrow> Outbox \<Rightarrow> goerr \<Rightarrow> ('s, 'w) world \<Rightarrow>
   goerr option \<times> ('s, 'w) world" where
  "handlePublishFailure w it msg publishErr s =
     (let errMsg = TruncateErrorMessage (Error_text publishErr);
          retryable = IsRetryable (Some publishErr)
      in if \<not> retryable \<or> WillExceedMaxAttemptsAfterFailure msg then
           (case UpdateToDead (repo w) (cleanupCtx it) (ID msg) errMsg (db s) of
              (err, d) \<Rightarrow>
                let s = s\<lparr>db := d\<rparr>;
                    evs = callOnPublishFailure (hooks w) msg publishErr (elapsed it) False @
                          callOnMessageDead (hooks w) msg publishErr
                in case err of
                     None \<Rightarrow> (None, log_events evs s)
                   | Some e \<Rightarrow> if errors_Is e ErrInvalidStatus then (None, log_events evs s) else (Some e, s))
         else
           (case UpdateToFailed (repo w) (cleanupCtx it) (ID msg) errMsg (db s) of
              (err, d) \<Rightarrow>
                let s = s\<lparr>db := d\<rparr>;
                    evs = callOnPublishFailure (hooks w) msg publishErr (elapsed it) True
                in case err of
                     None \<Rightarrow> (None, log_events evs s)
                   | Some e \<Rightarrow> if errors_Is e ErrInvalidStatus then (None, log_events evs s) else (Some e, s)))"

definition markPublished ::
  "('c, 's, 'r, 'w, 'p) Worker \<Rightarrow> ('c, 's, 'w) iteration \<Rightarrow> Outbox \<Rightarrow> ('s, 'w) world \<Rightarrow> goerr option \<times> ('s, 'w) world" where
  "markPublished w it msg s =
     (case UpdateToPublished (repo w) (cleanupCtx it) (ID msg) (db s) of
        (err, d) \<Rightarrow>
          let s = s\<lparr>db := d\<rparr>;
              s' = log_events (callOnPublishSuccess (hooks w) msg (elapsed it)) s;
              s'' = if onMessageProcessed w then s'\<lparr>lastProcessedAt := Some (callbackTime it)\<rparr> else s'
          in case err of
               None \<Rightarrow> (None, s'')
             | Some e \<Rightarrow> if errors_Is e ErrInvalidStatus then (None, s'') else (Some e, s))"

definition processOne ::
  "('c, 's, 'r, 'w, 'p) Worker \<Rightarrow> ('c, 's, 'w) iteration \<Rightarrow> ('s, 'w) world \<Rightarrow> goerr option \<times> ('s, 'w) world" where
  "processOne w it s =
     (case FetchAndLockToPublishing (repo w) (fetchCtx it) (db s) of
        (Inl err, d) \<Rightarrow>
          (Some (if errors_Is err ErrNoMessage then Sentinel ErrNoMessage else err), s\<lparr>db := d\<rparr>)
      | (Inr msg, d) \<Rightarrow>
          let s = log_events (callOnPublishStart (hooks w) msg) (s\<lparr>db := d\<rparr>);
              (d1, b1) = beforePublish it (db s) (broker s)
          in case Publish (publisher w) msg b1 of
               (publishErr, b2) \<Rightarrow>
                 let (d3, b3) = meanwhile it d1 b2;
                     s = s\<lparr>db := d3, broker := b3\<rparr>
                 in case publishErr of
                      Some e \<Rightarrow> handlePublishFailure w it msg e s
                    | None \<Rightarrow> markPublished w it msg s)"

text \<open>
  The polling loop: one turn per expiry of the timer; the schedule is the list of the
  iterations until the context is cancelled, the result the intervals the timer was set to.
\<close>

definition next_interval ::
  "('c, 's, 'r, 'w, 'p) Worker \<Rightarrow> duration \<Rightarrow> goerr option \<Rightarrow> duration" where
  "next_interval w currentInterval err =
     (case err of
        None \<Rightarrow> pollInterval w
      | Some e \<Rightarrow> min (wrap64 (currentInterval * 2)) (maxPollInterval w))"

fun Run_from ::
  "('c, 's, 'r, 'w, 'p) Worker \<Rightarrow> duration \<Rightarrow> ('c, 's, 'w) iteration list \<Rightarrow> ('s, 'w) world \<Rightarrow>
   duration list \<times> ('s, 'w) world" where
  "Run_from w currentInterval [] s = ([], s)"
| "Run_from w currentInterval (it # its) s =
     (case processOne w it s of
        (err, s') \<Rightarrow>
          let n = next_interval w currentInterval err
          in case Run_from w n its s' of (ns, s'') \<Rightarrow> (n # ns, s''))"

definition Run ::
  "('c, 's, 'r, 'w, 'p) Worker \<Rightarrow> ('c, 's, 'w) iteration list \<Rightarrow> ('s, 'w) world \<Rightarrow> duration list \<times> ('s, 'w) world" where
  "Run w its s = Run_from w (pollInterval w) its s"

section \<open>What a worker does\<close>

lemma db_log_events [simp]:
  "db (log_events evs s) = db s" "broker (log_events evs s) = broker s"
  "lastProcessedAt (log_events evs s) = lastProcessedAt s"
  by (simp_all add: log_events_def)

text \<open>What a failed or successful publish does to database and broker, without the hooks.\<close>

definition tolerated :: "goerr option \<Rightarrow> goerr option" where
  "tolerated e = (case e of None \<Rightarrow> None | Some x \<Rightarrow> if errors_Is x ErrInvalidStatus then None else Some x)"

lemma handlePublishFailure_db:
  assumes "write_result (repo w) (cleanupCtx it) m (Some pe) (db s) = (e, d)"
    "handlePublishFailure w it m pe s = (err, s')"
  shows "db s' = d \<and> broker s' = broker s \<and> err = tolerated e"
proof (cases "IsRetryable (Some pe) \<and> \<not> WillExceedMaxAttemptsAfterFailure m")
  case True
  with assms show ?thesis
    by (cases e) (auto simp: write_result_def handlePublishFailure_def tolerated_def Let_def split: if_splits)
next
  case False
  with assms show ?thesis
    by (cases e) (auto simp: write_result_def handlePublishFailure_def tolerated_def Let_def split: if_splits)
qed

lemma markPublished_db:
  assumes "write_result (repo w) (cleanupCtx it) m None (db s) = (e, d)" "markPublished w it m s = (err, s')"
  shows "db s' = d \<and> broker s' = broker s \<and> err = tolerated e"
  using assms by (cases e) (auto simp: write_result_def markPublished_def tolerated_def Let_def split: if_splits)

lemma processOne_cases:
  assumes "processOne w it s = (err, s')"
  obtains (no_message) e d where "FetchAndLockToPublishing (repo w) (fetchCtx it) (db s) = (Inl e, d)"
      "db s' = d" "broker s' = broker s"
      "err = Some (if errors_Is e ErrNoMessage then Sentinel ErrNoMessage else e)"
  | (published) m d d1 b1 pe b d' b' e where
      "FetchAndLockToPublishing (repo w) (fetchCtx it) (db s) = (Inr m, d)"
      "beforePublish it d (broker s) = (d1, b1)"
      "Publish (publisher w) m b1 = (pe, b)" "meanwhile it d1 b = (d', b')"
      "write_result (repo w) (cleanupCtx it) m pe d' = (e, db s')" "broker s' = b'"
      "err = tolerated e"
proof (cases "FetchAndLockToPublishing (repo w) (fetchCtx it) (db s)")
  case (Pair res d)
  show thesis
  proof (cases res)
    case (Inl e)
    with Pair assms no_message[of e d] show thesis by (auto simp: processOne_def)
  next
    case (Inr m)
    obtain d1 b1 where bp: "beforePublish it d (broker s) = (d1, b1)" by fastforce
    obtain pe b where p: "Publish (publisher w) m b1 = (pe, b)" by fastforce
    obtain d' b' where mw: "meanwhile it d1 b = (d', b')" by fastforce
    let ?s = "(log_events (callOnPublishStart (hooks w) m) (s\<lparr>db := d\<rparr>))\<lparr>db := d', broker := b'\<rparr>"
    have run: "(case pe of Some e \<Rightarrow> handlePublishFailure w it m e ?s | None \<Rightarrow> markPublished w it m ?s) = (err, s')"
      using assms Pair Inr bp p mw by (simp add: processOne_def Let_def)
    obtain e d2 where wr: "write_result (repo w) (cleanupCtx it) m pe (db ?s) = (e, d2)" by fastforce
    have "db s' = d2 \<and> broker s' = b' \<and> err = tolerated e"
      using run wr handlePublishFailure_db[of w it m _ ?s e d2 err s'] markPublished_db[of w it m ?s e d2 err s']
      by (cases pe) simp_all
    with published[of m d d1 b1 pe b d' b' e] Pair Inr bp p mw wr show thesis by simp
  qed
qed

text \<open>What an iteration relies on: sane call contexts and others that keep the guarantee.\<close>

definition iteration_ok ::
  "('s \<Rightarrow> string \<Rightarrow> Outbox option) \<Rightarrow> ('s \<Rightarrow> bool) \<Rightarrow> ('c \<Rightarrow> bool) \<Rightarrow> ('w \<Rightarrow> Outbox \<Rightarrow> bool) \<Rightarrow>
   ('c, 's, 'w) iteration \<Rightarrow> bool" where
  "iteration_ok row I okc accepted it \<longleftrightarrow> okc (fetchCtx it) \<and> okc (cleanupCtx it) \<and>
     (\<forall>d b. case beforePublish it d b of (d', b') \<Rightarrow> guarantee row I accepted d b d' b') \<and>
     (\<forall>d b. case meanwhile it d b of (d', b') \<Rightarrow> guarantee row I accepted d b d' b')"

section \<open>A worker on any repository and publisher meeting their contracts\<close>

locale worker =
  outbox_repository "repo w" row inv okc + publisher "publisher w" accepted
  for w :: "('c, 's, 'r, 'w, 'p) Worker"
    and row :: "'s \<Rightarrow> string \<Rightarrow> Outbox option"
    and inv :: "'s \<Rightarrow> bool"
    and okc :: "'c \<Rightarrow> bool"
    and accepted :: "'w \<Rightarrow> Outbox \<Rightarrow> bool"
begin

lemma processOne_guarantee:
  assumes it: "iteration_ok row inv okc accepted it" and p: "processOne w it s = (err, s')"
  shows "guarantee row inv accepted (db s) (broker s) (db s') (broker s')"
proof -
  note ok = it[unfolded iteration_ok_def]
  have "guarantee row inv accepted (db s) (broker s) (db s') (broker s')"
    if i: "inv (db s)" and del: "delivered row accepted (db s) (broker s)"
    using p
  proof (cases rule: processOne_cases)
    case (no_message e d)
    with fetch_guarantee[OF _ i no_message(1), of accepted "broker s"] ok show ?thesis by simp
  next
    case (published m d d1 b1 pe b d' b' e)
    have g1: "guarantee row inv accepted (db s) (broker s) d (broker s)"
      by (rule fetch_guarantee[OF _ i published(1)]) (use ok in blast)
    have "guarantee row inv accepted d (broker s) d1 b1" using ok published(2) by (metis case_prodD)
    moreover have "guarantee row inv accepted d1 b1 d1 b"
      by (rule guarantee_broker) (use publish_keeps[of b1 _ m] published(3) in simp)
    ultimately have g2: "guarantee row inv accepted d (broker s) d1 b" by (rule guarantee_trans)
    have g3: "guarantee row inv accepted d1 b d' b'" using ok published(4) by (metis case_prodD)
    from fetch_ok[OF i _ published(1)] ok obtain r where r: "row d (ID m) = Some r" "same_message m r"
      by (auto simp: fetched_def same_message_def)
    have good: "inv d'" "delivered row accepted d' b'" "accepted b x \<Longrightarrow> accepted b' x"
      "\<exists>r'. row d' (ID m) = Some r' \<and> row_step\<^sup>*\<^sup>* r r'" for x
      using guarantee_trans[OF g1 guarantee_trans[OF g2 g3]] g1 g2 g3 i del r
      by (auto simp: guarantee_def) (meson rtranclp_trans)
    have "guarantee row inv accepted d' b' (db s') b'"
    proof (rule write_result_guarantee[OF _ good(1) published(5)])
      show "pe = None \<Longrightarrow> accepted b' m" using publish_ok[of m b1 b] published(3) good(3) by blast
      show "row d' (ID m) = Some r' \<Longrightarrow> same_message m r'" for r'
        using good(4) r(2) row_steps_message by auto
    qed (use ok in blast)
    with guarantee_trans[OF guarantee_trans[OF guarantee_trans[OF g1 g2] g3]] published(6) show ?thesis
      by simp
  qed
  then show ?thesis by (auto simp: guarantee_def)
qed

lemma Run_guarantee:
  assumes "list_all (iteration_ok row inv okc accepted) its" "Run_from w n its s = (ns, s')"
  shows "guarantee row inv accepted (db s) (broker s) (db s') (broker s')"
  using assms
proof (induction its arbitrary: n s ns)
  case Nil
  then show ?case by simp
next
  case (Cons it its)
  obtain err s1 where p: "processOne w it s = (err, s1)" by fastforce
  with Cons.prems obtain n' ns' where "Run_from w n' its s1 = (ns', s')"
    by (auto simp: Let_def split: prod.splits)
  with Cons.IH Cons.prems(1) have "guarantee row inv accepted (db s1) (broker s1) (db s') (broker s')"
    by simp
  with processOne_guarantee[OF _ p] Cons.prems(1) show ?case by (auto intro: guarantee_trans)
qed

text \<open>
  An iteration that succeeds, whatever the others do that keeps the invariant: the result is written
  into the fetched row when it is still PUBLISHING, and nothing is written otherwise.
\<close>

lemma processOne_settles:
  assumes ok: "okc (fetchCtx it)" "okc (cleanupCtx it)"
    and rely: "\<And>d b. inv d \<Longrightarrow> inv (fst (beforePublish it d b))" "\<And>d b. inv d \<Longrightarrow> inv (fst (meanwhile it d b))"
    and i: "inv (db s)" and p: "processOne w it s = (None, s')"
  shows "\<exists>m r r1 d d1 b1 b2 d3 b3 pe.
    row (db s) (ID m) = Some r \<and> Status r = OutboxStatusEnqueued \<and> picked_up r r1 \<and>
    m = r1\<lparr>NextRetryAt := None\<rparr> \<and> row d = (row (db s))(ID m \<mapsto> r1) \<and>
    beforePublish it d (broker s) = (d1, b1) \<and> Publish (publisher w) m b1 = (pe, b2) \<and>
    meanwhile it d1 b2 = (d3, b3) \<and> broker s' = b3 \<and>
    (if \<exists>r2. row d3 (ID m) = Some r2 \<and> Status r2 = OutboxStatusPublishing
     then \<exists>r2 r3. row d3 (ID m) = Some r2 \<and> settled_as m pe r2 r3 \<and> row (db s') = (row d3)(ID m \<mapsto> r3)
     else row (db s') = row d3)"
  using p
proof (cases rule: processOne_cases)
  case (published m d d1 b1 pe b2 d3 b3 e)
  have "inv d" using fetch_inv[OF i ok(1)] published(1) by (metis snd_conv)
  then have "inv d3" using rely(1)[of d "broker s"] rely(2)[of d1 b2] published(2,4) by simp
  note set = write_result_settles[OF this ok(2), of m pe, unfolded published(5)]
  from fetch_ok[OF i ok(1) published(1)] obtain r r1 where
    f: "row (db s) (ID m) = Some r" "Status r = OutboxStatusEnqueued" "picked_up r r1"
      "row d (ID m) = Some r1" "m = r1\<lparr>NextRetryAt := None\<rparr>" "\<forall>i. i \<noteq> ID m \<longrightarrow> row d i = row (db s) i"
    by (auto simp: fetched_def)
  have d: "row d = (row (db s))(ID m \<mapsto> r1)" using f(4,6) by (auto simp: fun_eq_iff)
  have "if \<exists>r2. row d3 (ID m) = Some r2 \<and> Status r2 = OutboxStatusPublishing
     then \<exists>r2 r3. row d3 (ID m) = Some r2 \<and> settled_as m pe r2 r3 \<and> row (db s') = (row d3)(ID m \<mapsto> r3)
     else row (db s') = row d3"
  proof (cases e)
    case None
    with set show ?thesis by (auto simp: settles_None)
  next
    case (Some x)
    with published(7) have "errors_Is x ErrInvalidStatus" by (auto simp: tolerated_def split: if_splits)
    with settles_invalid[OF set[unfolded Some]] show ?thesis by auto
  qed
  with f(1,2,3,5) d published(2-4,6) show ?thesis by blast
qed (simp add: p)

end

section \<open>Hooks do not interfere\<close>

definition same_effect :: "goerr option \<times> ('s, 'w) world \<Rightarrow> goerr option \<times> ('s, 'w) world \<Rightarrow> bool" where
  "same_effect x y \<longleftrightarrow> fst x = fst y \<and> db (snd x) = db (snd y) \<and> broker (snd x) = broker (snd y) \<and>
     lastProcessedAt (snd x) = lastProcessedAt (snd y)"

lemma handlePublishFailure_hooks:
  assumes "db s = db s'" "broker s = broker s'" "lastProcessedAt s = lastProcessedAt s'"
  shows "same_effect (handlePublishFailure (w\<lparr>hooks := h\<rparr>) it m e s) (handlePublishFailure w it m e s')"
proof (cases "IsRetryable (Some e) \<and> \<not> WillExceedMaxAttemptsAfterFailure m")
  case True
  with assms show ?thesis
    by (auto simp: same_effect_def handlePublishFailure_def Let_def split: option.splits prod.splits)
next
  case False
  with assms show ?thesis
    by (auto simp: same_effect_def handlePublishFailure_def Let_def split: option.splits prod.splits)
qed

lemma markPublished_hooks:
  assumes "db s = db s'" "broker s = broker s'" "lastProcessedAt s = lastProcessedAt s'"
  shows "same_effect (markPublished (w\<lparr>hooks := h\<rparr>) it m s) (markPublished w it m s')"
  using assms
  by (auto simp: same_effect_def markPublished_def Let_def split: option.splits prod.splits)

text \<open>
  Hooks only observe: whichever hooks are installed, and whichever of them panic, an
  iteration returns the same error and leaves the same database, broker and health time.
\<close>

theorem processOne_hooks_irrelevant:
  "same_effect (processOne (w\<lparr>hooks := h\<rparr>) it s) (processOne w it s)"
  by (auto simp: processOne_def Let_def handlePublishFailure_hooks markPublished_hooks
      split: prod.splits sum.splits option.splits) (auto simp: same_effect_def)

section \<open>The polling interval\<close>

lemma next_interval_bounds:
  assumes "0 < pollInterval w" "pollInterval w \<le> maxPollInterval w" "maxPollInterval w < 2 ^ 62"
    "pollInterval w \<le> n" "n \<le> maxPollInterval w"
  shows "pollInterval w \<le> next_interval w n err \<and> next_interval w n err \<le> maxPollInterval w \<and>
    next_interval w n err = (case err of None \<Rightarrow> pollInterval w | Some e \<Rightarrow> min (2 * n) (maxPollInterval w))"
proof -
  have "wrap64 (n * 2) = 2 * n" using assms by (simp add: wrap64_id in_int64_def)
  with assms show ?thesis by (auto simp: next_interval_def split: option.splits)
qed

text \<open>The specification: back to the base after a success, else doubled up to the maximum.\<close>

fun ideal_intervals :: "duration \<Rightarrow> duration \<Rightarrow> duration \<Rightarrow> goerr option list \<Rightarrow> duration list" where
  "ideal_intervals base mx cur [] = []"
| "ideal_intervals base mx cur (err # errs) =
     (let n = (if err = None then base else min (2 * cur) mx) in n # ideal_intervals base mx n errs)"

fun run_errors :: "('c, 's, 'r, 'w, 'p) Worker \<Rightarrow> ('c, 's, 'w) iteration list \<Rightarrow> ('s, 'w) world \<Rightarrow> goerr option list" where
  "run_errors w [] s = []"
| "run_errors w (it # its) s = (case processOne w it s of (err, s') \<Rightarrow> err # run_errors w its s')"

lemma Run_from_intervals:
  assumes "0 < pollInterval w" "pollInterval w \<le> maxPollInterval w" "maxPollInterval w < 2 ^ 62"
    "pollInterval w \<le> n" "n \<le> maxPollInterval w" "Run_from w n its s = (ns, s')"
  shows "ns = ideal_intervals (pollInterval w) (maxPollInterval w) n (run_errors w its s) \<and>
    (\<forall>k \<in> set ns. pollInterval w \<le> k \<and> k \<le> maxPollInterval w)"
  using assms(4-)
proof (induction its arbitrary: n s ns)
  case Nil
  then show ?case by simp
next
  case (Cons it its)
  obtain err s1 where p: "processOne w it s = (err, s1)" by fastforce
  let ?n = "next_interval w n err"
  obtain ns' where r: "Run_from w ?n its s1 = (ns', s')" "ns = ?n # ns'"
    using Cons.prems(3) p by (auto simp: Let_def split: prod.splits)
  note b = next_interval_bounds[OF assms(1-3) Cons.prems(1,2), of err]
  have n: "?n = (if err = None then pollInterval w else min (2 * n) (maxPollInterval w))"
    using b by (cases err) simp_all
  have "ns' = ideal_intervals (pollInterval w) (maxPollInterval w) ?n (run_errors w its s1) \<and>
      (\<forall>k \<in> set ns'. pollInterval w \<le> k \<and> k \<le> maxPollInterval w)"
    using b by (intro Cons.IH[OF _ _ r(1)]) simp_all
  moreover have "run_errors w (it # its) s = err # run_errors w its s1" by (simp add: p)
  ultimately show ?case using b r(2) n by (simp add: Let_def)
qed

text \<open>
  C39: a worker polls again at the base interval after a message and backs off by doubling
  otherwise, never leaving the range between the base and the maximum interval (the 64-bit
  doubling cannot overflow below \<open>2^62\<close> ns, about 146 years).
\<close>

theorem Run_intervals:
  assumes "0 < pollInterval w" "pollInterval w \<le> maxPollInterval w" "maxPollInterval w < 2 ^ 62"
    and "Run w its s = (ns, s')"
  shows "ns = ideal_intervals (pollInterval w) (maxPollInterval w) (pollInterval w) (run_errors w its s) \<and>
    (\<forall>k \<in> set ns. pollInterval w \<le> k \<and> k \<le> maxPollInterval w)"
  by (rule Run_from_intervals[OF assms(1-3)]) (use assms in \<open>auto simp: Run_def\<close>)

end
