(* ===== verification/Batch_Dispatcher.thy ===== *)
theory Batch_Dispatcher
  imports Worker
begin

text \<open>
  \<open>src/core/batch_dispatcher.go\<close>: configuration, the processing of one batch, the batch
  worker's polling loop and the requeue worker.  A batch is given the contexts of its
  database calls (one per failed message, one for the successful ones), the measured
  duration, the time, and what other processes do between the fetch and the publish call
  (\<open>b_beforePublish\<close>) and before each write (\<open>b_meanwhile\<close>).  A Go
  panic is \<open>Inl\<close>; nothing recovers it, so it ends the process.
\<close>

section \<open>Configuration\<close>

datatype force_action = OsExit | AppAction string

record BatchDispatcherConfig =
  b_PollInterval :: duration
  b_MaxPollInterval :: duration
  b_BatchSize :: int
  b_WorkerCount :: int
  b_ShutdownTimeout :: duration
  b_ForceTimeout :: duration
  b_OnForceShutdown :: "force_action option"
  b_AutoRecover :: bool
  b_RequeueInterval :: duration
  b_DisableAutoRequeue :: bool
  b_RequeueBackoffBase :: duration
  b_RequeueBackoffMax :: duration
  b_Hooks :: "Hooks option"
  b_CleanupTimeout :: duration

definition DefaultBatchDispatcherConfig :: BatchDispatcherConfig where
  "DefaultBatchDispatcherConfig =
     \<lparr>b_PollInterval = 100 * millisecond, b_MaxPollInterval = 3200 * millisecond, b_BatchSize = 10,
      b_WorkerCount = 1, b_ShutdownTimeout = 30 * second, b_ForceTimeout = 60 * second,
      b_OnForceShutdown = Some OsExit, b_AutoRecover = True, b_RequeueInterval = 10 * second,
      b_DisableAutoRequeue = False, b_RequeueBackoffBase = 1 * second,
      b_RequeueBackoffMax = 3600 * second, b_Hooks = None, b_CleanupTimeout = 10 * second\<rparr>"

definition requeue_interval_error :: goerr where
  "requeue_interval_error =
     WrapError [] (Sentinel ErrInvalidConfig)
       '': RequeueInterval must be > 0 (e.g., 10s for production, 500ms-1s for bench). FAILED messages will never retry without this. Set DisableAutoRequeue=true to explicitly disable''"

definition or_default :: "int \<Rightarrow> int \<Rightarrow> int" where
  "or_default x dflt = (if x = 0 then dflt else x)"

definition batch_defaults :: "int \<Rightarrow> BatchDispatcherConfig \<Rightarrow> BatchDispatcherConfig" where
  "batch_defaults maxBatch c =
     (let poll = or_default (b_PollInterval c) (100 * millisecond);
          shutdown = or_default (b_ShutdownTimeout c) (30 * second)
      in c\<lparr>b_PollInterval := poll,
           b_MaxPollInterval := or_default (b_MaxPollInterval c) (wrap64 (poll * 32)),
           b_BatchSize := or_default (b_BatchSize c) maxBatch,
           b_WorkerCount := or_default (b_WorkerCount c) 1,
           b_ShutdownTimeout := shutdown,
           b_ForceTimeout := or_default (b_ForceTimeout c) (wrap64 (shutdown * 2)),
           b_OnForceShutdown := (case b_OnForceShutdown c of None \<Rightarrow> Some OsExit | Some f \<Rightarrow> Some f),
           b_RequeueBackoffBase := or_default (b_RequeueBackoffBase c) (1 * second),
           b_RequeueBackoffMax := or_default (b_RequeueBackoffMax c) (3600 * second),
           b_CleanupTimeout := or_default (b_CleanupTimeout c) (10 * second)\<rparr>)"

definition batch_adjust :: "int \<Rightarrow> BatchDispatcherConfig \<Rightarrow> BatchDispatcherConfig" where
  "batch_adjust maxBatch c =
     c\<lparr>b_BatchSize := (if b_BatchSize c > maxBatch then maxBatch else b_BatchSize c),
       b_ForceTimeout := (if b_ForceTimeout c < b_ShutdownTimeout c
                          then wrap64 (b_ShutdownTimeout c * 2) else b_ForceTimeout c)\<rparr>"

definition NewBatchDispatcher :: "int \<Rightarrow> BatchDispatcherConfig \<Rightarrow> goerr + BatchDispatcherConfig" where
  "NewBatchDispatcher maxBatch c =
     (if b_PollInterval c < 0 \<or> b_MaxPollInterval c < 0 \<or> b_BatchSize c < 0 \<or> b_WorkerCount c < 0 \<or>
         b_ShutdownTimeout c < 0 \<or> b_ForceTimeout c < 0 \<or> b_RequeueInterval c < 0 \<or>
         b_RequeueBackoffBase c < 0 \<or> b_RequeueBackoffMax c < 0 \<or> b_CleanupTimeout c < 0
      then Inl (Sentinel ErrInvalidConfig)
      else
        let c' = batch_adjust maxBatch (batch_defaults maxBatch c)
        in if b_RequeueInterval c' = 0 \<and> \<not> b_DisableAutoRequeue c' then Inl requeue_interval_error
           else Inr c')"

section \<open>Processing a batch\<close>

record ('c, 's, 'r, 'w, 'p) batch_dispatcher =
  bd_repo :: "('c, 's, 'r) BatchOutboxRepository_scheme"
  bd_publisher :: "('w, 'p) BatchPublisher_scheme"
  bd_config :: BatchDispatcherConfig

record ('c, 's, 'w) batch_iteration =
  b_fetchCtx :: 'c
  b_failureCtx :: "nat \<Rightarrow> 'c"
  b_successCtx :: 'c
  b_beforePublish :: "'s \<Rightarrow> 'w \<Rightarrow> 's \<times> 'w"
  b_meanwhile :: "nat \<Rightarrow> 's \<Rightarrow> 'w \<Rightarrow> 's \<times> 'w"
  b_elapsed :: duration
  b_now :: time

definition interfere ::
  "('c, 's, 'w) batch_iteration \<Rightarrow> nat \<Rightarrow> ('s, 'w) world \<Rightarrow> ('s, 'w) world" where
  "interfere it i s = (case b_meanwhile it i (db s) (broker s) of (d, b) \<Rightarrow> s\<lparr>db := d, broker := b\<rparr>)"

definition batch_handlePublishFailure ::
  "('c, 's, 'r, 'w, 'p) batch_dispatcher \<Rightarrow> ('c, 's, 'w) batch_iteration \<Rightarrow> nat \<Rightarrow> Outbox \<Rightarrow> goerr option \<Rightarrow>
   ('s, 'w) world \<Rightarrow> (string + unit) \<times> ('s, 'w) world" where
  "batch_handlePublishFailure bd it i msg publishErr s =
     (case publishErr of
        None \<Rightarrow> (Inl ''nil pointer dereference'', s)
      | Some e \<Rightarrow>
          let errMsg = TruncateErrorMessage (Error_text e);
              retryable = IsRetryable (Some e);
              h = b_Hooks (bd_config bd);
              s = interfere it i s
          in if \<not> retryable \<or> WillExceedMaxAttemptsAfterFailure msg then
               (case UpdateToDead (bd_repo bd) (b_failureCtx it i) (ID msg) errMsg (db s) of
                  (_, d) \<Rightarrow>
                    (Inr (), log_events (callOnPublishFailure h msg e (b_elapsed it) False @
                                         callOnMessageDead h msg e) (s\<lparr>db := d\<rparr>)))
             else
               (case UpdateToFailed (bd_repo bd) (b_failureCtx it i) (ID msg) errMsg (db s) of
                  (_, d) \<Rightarrow>
                    (Inr (), log_events (callOnPublishFailure h msg e (b_elapsed it) True) (s\<lparr>db := d\<rparr>))))"

text \<open>The loop over the results; \<open>msgs[i]\<close> out of range panics.\<close>

fun handle_results ::
  "('c, 's, 'r, 'w, 'p) batch_dispatcher \<Rightarrow> ('c, 's, 'w) batch_iteration \<Rightarrow> Outbox list \<Rightarrow> nat \<Rightarrow>
   PublishResult list \<Rightarrow> Outbox list \<Rightarrow> int \<Rightarrow> ('s, 'w) world \<Rightarrow>
   (string + Outbox list \<times> int) \<times> ('s, 'w) world" where
  "handle_results bd it msgs i [] successMsgs failureCount s = (Inr (successMsgs, failureCount), s)"
| "handle_results bd it msgs i (result # results) successMsgs failureCount s =
     (if length msgs \<le> i then (Inl ''index out of range'', s)
      else
        let msg = msgs ! i
        in if Success result
           then handle_results bd it msgs (Suc i) results (successMsgs @ [msg]) failureCount s
           else
             (case batch_handlePublishFailure bd it i msg (ResultError result) s of
                (Inl p, s') \<Rightarrow> (Inl p, s')
              | (Inr _, s') \<Rightarrow> handle_results bd it msgs (Suc i) results successMsgs (failureCount + 1) s'))"

definition mark_batch_published ::
  "('c, 's, 'r, 'w, 'p) batch_dispatcher \<Rightarrow> ('c, 's, 'w) batch_iteration \<Rightarrow> nat \<Rightarrow> Outbox list \<Rightarrow>
   ('s, 'w) world \<Rightarrow> ('s, 'w) world" where
  "mark_batch_published bd it n successMsgs s =
     (if successMsgs = [] then s
      else
        let h = b_Hooks (bd_config bd); s = interfere it n s
        in case UpdateBatchToPublished (bd_repo bd) (b_successCtx it) (map ID successMsgs) (db s) of
             (Inl err, d) \<Rightarrow> s\<lparr>db := d\<rparr>
           | (Inr updatedCount, d) \<Rightarrow>
               if updatedCount < int (length successMsgs)
               then log_events (callOnPartialBatchSuccess h (int (length successMsgs)) updatedCount (b_elapsed it))
                      (s\<lparr>db := d\<rparr>)
               else log_events (concat (map (\<lambda>msg. callOnPublishSuccess h msg (b_elapsed it)) successMsgs))
                      (s\<lparr>db := d\<rparr>))"

definition processBatch ::
  "('c, 's, 'r, 'w, 'p) batch_dispatcher \<Rightarrow> ('c, 's, 'w) batch_iteration \<Rightarrow> ('s, 'w) world \<Rightarrow>
   (string + int) \<times> ('s, 'w) world" where
  "processBatch bd it s =
     (case FetchLockAndMarkPublishing (bd_repo bd) (b_fetchCtx it) (b_BatchSize (bd_config bd)) (db s) of
        (Inl err, d) \<Rightarrow> (Inr 0, s\<lparr>db := d\<rparr>)
      | (Inr msgs, d) \<Rightarrow>
          if msgs = [] then (Inr 0, s\<lparr>db := d\<rparr>)
          else
            let h = b_Hooks (bd_config bd);
                s = log_events (callOnBatchPublishStart h msgs) (s\<lparr>db := d\<rparr>);
                (d1, b1) = b_beforePublish it (db s) (broker s)
            in case PublishBatch (bd_publisher bd) msgs b1 of
                 (results, b) \<Rightarrow>
                   (case handle_results bd it msgs 0 results [] 0 (s\<lparr>db := d1, broker := b\<rparr>) of
                      (Inl p, s') \<Rightarrow> (Inl p, s')
                    | (Inr (successMsgs, failureCount), s') \<Rightarrow>
                        let s'' = log_events
                              (callOnBatchPublishComplete h (int (length successMsgs)) failureCount (b_elapsed it))
                              (mark_batch_published bd it (length results) successMsgs s')
                        in (Inr (int (length msgs)), s''\<lparr>lastProcessedAt := Some (b_now it)\<rparr>)))"

section \<open>The polling loops\<close>

definition batch_next_interval :: "BatchDispatcherConfig \<Rightarrow> duration \<Rightarrow> int \<Rightarrow> duration" where
  "batch_next_interval c currentInterval cnt =
     (if cnt > 0 then b_PollInterval c
      else min (wrap64 (currentInterval * 2)) (b_MaxPollInterval c))"

fun runBatchWorker_from ::
  "('c, 's, 'r, 'w, 'p) batch_dispatcher \<Rightarrow> duration \<Rightarrow> ('c, 's, 'w) batch_iteration list \<Rightarrow> ('s, 'w) world \<Rightarrow>
   (string + duration list) \<times> ('s, 'w) world" where
  "runBatchWorker_from bd currentInterval [] s = (Inr [], s)"
| "runBatchWorker_from bd currentInterval (it # its) s =
     (case processBatch bd it s of
        (Inl p, s') \<Rightarrow> (Inl p, s')
      | (Inr cnt, s') \<Rightarrow>
          let n = batch_next_interval (bd_config bd) currentInterval cnt
          in case runBatchWorker_from bd n its s' of
               (Inl p, s'') \<Rightarrow> (Inl p, s'')
             | (Inr ns, s'') \<Rightarrow> (Inr (n # ns), s''))"

definition runBatchWorker ::
  "('c, 's, 'r, 'w, 'p) batch_dispatcher \<Rightarrow> ('c, 's, 'w) batch_iteration list \<Rightarrow> ('s, 'w) world \<Rightarrow>
   (string + duration list) \<times> ('s, 'w) world" where
  "runBatchWorker bd its s = runBatchWorker_from bd (b_PollInterval (bd_config bd)) its s"

text \<open>One \<open>RequeueFailed\<close> per tick; its result is only logged.\<close>

fun runRequeueWorker ::
  "('c, 's, 'r) OutboxRepository_scheme \<Rightarrow> 'c list \<Rightarrow> 's \<Rightarrow> 's" where
  "runRequeueWorker R [] d = d"
| "runRequeueWorker R (c # cs) d = runRequeueWorker R cs (snd (RequeueFailed R c d))"

section \<open>What one message of a batch experiences\<close>

definition result_error :: "PublishResult \<Rightarrow> goerr option" where
  "result_error r = (if Success r then None else ResultError r)"

definition well_answered :: "PublishResult \<Rightarrow> bool" where
  "well_answered r \<longleftrightarrow> Success r \<or> ResultError r \<noteq> None"

lemma batch_failure_db:
  "batch_handlePublishFailure bd it i m (Some e) s = (res, s') \<Longrightarrow>
     res = Inr () \<and> broker s' = broker (interfere it i s) \<and>
     db s' = snd (write_result (bd_repo bd) (b_failureCtx it i) m (Some e) (db (interfere it i s)))"
  by (auto simp: batch_handlePublishFailure_def write_result_def Let_def split: prod.splits if_splits)

lemma handle_results_total:
  assumes "i + length results \<le> length msgs" "list_all well_answered results"
  shows "\<exists>sm fc s'. handle_results bd it msgs i results acc n s = (Inr (sm, fc), s') \<and>
    sm = acc @ map fst (filter (\<lambda>(m, r). Success r) (zip (drop i msgs) results)) \<and>
    fc = n + int (length (filter (\<lambda>r. \<not> Success r) results))"
  using assms
proof (induction results arbitrary: i acc n s)
  case Nil
  then show ?case by simp
next
  case (Cons r rs)
  have i: "i < length msgs" and d: "drop i msgs = msgs ! i # drop (Suc i) msgs"
    using Cons.prems(1) by (auto simp: Cons_nth_drop_Suc)
  show ?case
  proof (cases "Success r")
    case True
    with Cons.IH[of "Suc i" "acc @ [msgs ! i]"] Cons.prems i d show ?thesis by auto
  next
    case False
    with Cons.prems(2) obtain e where e: "ResultError r = Some e" by (auto simp: well_answered_def)
    obtain res s1 where b: "batch_handlePublishFailure bd it i (msgs ! i) (Some e) s = (res, s1)" by fastforce
    with batch_failure_db[OF b] have "res = Inr ()" by simp
    with Cons.IH[of "Suc i" acc "n + 1" s1] Cons.prems i d False e b show ?thesis by auto
  qed
qed

lemma mark_batch_published_db:
  "db (mark_batch_published bd it n sm s) =
     (if sm = [] then db s
      else snd (UpdateBatchToPublished (bd_repo bd) (b_successCtx it) (map ID sm) (db (interfere it n s))))"
  "broker (mark_batch_published bd it n sm s) = (if sm = [] then broker s else broker (interfere it n s))"
  by (auto simp: mark_batch_published_def Let_def split: prod.splits sum.splits)

definition batch_iteration_ok ::
  "('s \<Rightarrow> string \<Rightarrow> Outbox option) \<Rightarrow> ('s \<Rightarrow> bool) \<Rightarrow> ('c \<Rightarrow> bool) \<Rightarrow> ('w \<Rightarrow> Outbox \<Rightarrow> bool) \<Rightarrow>
   ('c, 's, 'w) batch_iteration \<Rightarrow> bool" where
  "batch_iteration_ok row I okc accepted it \<longleftrightarrow>
     okc (b_fetchCtx it) \<and> (\<forall>i. okc (b_failureCtx it i)) \<and> okc (b_successCtx it) \<and>
     (\<forall>d b. case b_beforePublish it d b of (d', b') \<Rightarrow> guarantee row I accepted d b d' b') \<and>
     (\<forall>i d b. case b_meanwhile it i d b of (d', b') \<Rightarrow> guarantee row I accepted d b d' b')"

lemma interfere_guarantee:
  "batch_iteration_ok row I okc accepted it \<Longrightarrow>
   guarantee row I accepted (db s) (broker s) (db (interfere it i s)) (broker (interfere it i s))"
  by (auto simp: batch_iteration_ok_def interfere_def split: prod.splits
      dest!: spec[of _ i] spec[of _ "db s"] spec[of _ "broker s"])

text \<open>The messages a dispatcher holds are the ones in the table.\<close>

definition holds :: "('s \<Rightarrow> string \<Rightarrow> Outbox option) \<Rightarrow> 's \<Rightarrow> Outbox list \<Rightarrow> bool" where
  "holds row d ms \<longleftrightarrow> (\<forall>m \<in> set ms. \<exists>r. row d (ID m) = Some r \<and> same_message m r)"

lemma guarantee_keeps:
  assumes "guarantee row I accepted d b d' b'" "I d" "delivered row accepted d b"
  shows "I d'" "delivered row accepted d' b'" "accepted b x \<Longrightarrow> accepted b' x" "holds row d ms \<Longrightarrow> holds row d' ms"
proof -
  from assms have *: "I d'" "delivered row accepted d' b'" "\<forall>x. accepted b x \<longrightarrow> accepted b' x"
    "\<forall>i r. row d i = Some r \<longrightarrow> (\<exists>r'. row d' i = Some r' \<and> row_step\<^sup>*\<^sup>* r r')"
    by (simp_all add: guarantee_def)
  show "I d'" "delivered row accepted d' b'" "accepted b x \<Longrightarrow> accepted b' x" using * by blast+
  show "holds row d ms \<Longrightarrow> holds row d' ms"
    using *(4) row_steps_message unfolding holds_def by meson
qed

section \<open>A batch dispatcher on any repository and publisher meeting their contracts\<close>

locale batch_worker =
  batch_outbox_repository "bd_repo bd" row inv okc + batch_publisher "bd_publisher bd" accepted
  for bd :: "('c, 's, 'r, 'w, 'p) batch_dispatcher"
    and row :: "'s \<Rightarrow> string \<Rightarrow> Outbox option"
    and inv :: "'s \<Rightarrow> bool"
    and okc :: "'c \<Rightarrow> bool"
    and accepted :: "'w \<Rightarrow> Outbox \<Rightarrow> bool"
begin

lemma failure_guarantee:
  assumes it: "batch_iteration_ok row inv okc accepted it"
    and g: "inv (db s)" "delivered row accepted (db s) (broker s)" "holds row (db s) [m]"
    and b: "batch_handlePublishFailure bd it i m (Some e) s = (res, s')"
  shows "guarantee row inv accepted (db s) (broker s) (db s') (broker s')"
proof -
  let ?s = "interfere it i s"
  have g1: "guarantee row inv accepted (db s) (broker s) (db ?s) (broker ?s)"
    by (rule interfere_guarantee[OF it])
  note k = guarantee_keeps[OF g1 g(1,2)]
  obtain er d where w: "write_result (bd_repo bd) (b_failureCtx it i) m (Some e) (db ?s) = (er, d)" by fastforce
  have "guarantee row inv accepted (db ?s) (broker ?s) d (broker ?s)"
    by (rule write_result_guarantee[OF _ k(1) w])
      (use it k(4)[OF g(3)] in \<open>auto simp: batch_iteration_ok_def holds_def\<close>)
  with guarantee_trans[OF g1] batch_failure_db[OF b] w show ?thesis by simp
qed

lemma handle_results_guarantee:
  assumes it: "batch_iteration_ok row inv okc accepted it"
    and "inv (db s)" "delivered row accepted (db s) (broker s)" "holds row (db s) msgs"
    and "i + length results \<le> length msgs" "list_all well_answered results"
    and "handle_results bd it msgs i results acc n s = (res, s')"
  shows "guarantee row inv accepted (db s) (broker s) (db s') (broker s')"
  using assms(2-)
proof (induction results arbitrary: i acc n s)
  case Nil
  then show ?case by simp
next
  case (Cons r rs)
  have i: "i < length msgs" using Cons.prems by simp
  show ?case
  proof (cases "Success r")
    case True
    show ?thesis
      by (rule Cons.IH[OF Cons.prems(1-3), of "Suc i" "acc @ [msgs ! i]" n])
        (use Cons.prems True i in \<open>auto simp: Let_def\<close>)
  next
    case False
    with Cons.prems(5) obtain e where e: "ResultError r = Some e" by (auto simp: well_answered_def)
    obtain r1 s1 where b: "batch_handlePublishFailure bd it i (msgs ! i) (Some e) s = (r1, s1)" by fastforce
    have h: "holds row (db s) [msgs ! i]" using Cons.prems(3) i by (auto simp: holds_def)
    note g1 = failure_guarantee[OF it Cons.prems(1,2) h b]
    note k = guarantee_keeps[OF g1 Cons.prems(1,2)]
    have "guarantee row inv accepted (db s1) (broker s1) (db s') (broker s')"
      by (rule Cons.IH[OF k(1,2) k(4)[OF Cons.prems(3)], of "Suc i" acc "n + 1"])
        (use Cons.prems i False e b batch_failure_db[OF b] in \<open>auto simp: Let_def\<close>)
    with g1 show ?thesis by (rule guarantee_trans)
  qed
qed

lemma mark_batch_guarantee:
  assumes it: "batch_iteration_ok row inv okc accepted it"
    and g: "inv (db s)" "delivered row accepted (db s) (broker s)" "holds row (db s) sm"
    and acc: "\<And>m. m \<in> set sm \<Longrightarrow> accepted (broker s) m"
  shows "guarantee row inv accepted (db s) (broker s) (db (mark_batch_published bd it n sm s))
    (broker (mark_batch_published bd it n sm s))"
proof (cases "sm = []")
  case True
  then show ?thesis by (simp add: mark_batch_published_def)
next
  case False
  let ?s = "interfere it n s"
  have g1: "guarantee row inv accepted (db s) (broker s) (db ?s) (broker ?s)"
    by (rule interfere_guarantee[OF it])
  note k = guarantee_keeps[OF g1 g(1,2)]
  obtain res d where u: "UpdateBatchToPublished (bd_repo bd) (b_successCtx it) (map ID sm) (db ?s) = (res, d)"
    by fastforce
  have "guarantee row inv accepted (db ?s) (broker ?s) d (broker ?s)"
  proof (rule batch_published_guarantee[OF _ k(1) u])
    show "okc (b_successCtx it)" using it by (simp add: batch_iteration_ok_def)
    show "\<exists>x. same_message x r \<and> accepted (broker ?s) x"
      if "i \<in> set (map ID sm)" "row (db ?s) i = Some r" for i r
    proof -
      from that(1) obtain m where m: "m \<in> set sm" "i = ID m" by auto
      with that(2) k(4)[OF g(3)] have "same_message m r" by (auto simp: holds_def)
      with m k(3)[OF acc] show ?thesis by blast
    qed
  qed
  with guarantee_trans[OF g1] u False show ?thesis by (simp add: mark_batch_published_db)
qed

lemma processBatch_guarantee:
  assumes it: "batch_iteration_ok row inv okc accepted it"
    and g: "inv (db s)" "delivered row accepted (db s) (broker s)"
    and p: "processBatch bd it s = (res, s')"
  shows "(\<exists>n. res = Inr n) \<and> guarantee row inv accepted (db s) (broker s) (db s') (broker s')"
proof -
  obtain fr d where f: "FetchLockAndMarkPublishing (bd_repo bd) (b_fetchCtx it) (b_BatchSize (bd_config bd)) (db s)
      = (fr, d)" by fastforce
  have okf: "okc (b_fetchCtx it)" using it by (simp add: batch_iteration_ok_def)
  have g1: "guarantee row inv accepted (db s) (broker s) d (broker s)"
    by (rule batch_fetch_guarantee[OF okf g(1) f])
  show ?thesis
  proof (cases "\<exists>ms. fr = Inr ms \<and> ms \<noteq> []")
    case False
    with p f g1 show ?thesis by (auto simp: processBatch_def split: sum.splits)
  next
    case True
    then obtain ms where ms: "fr = Inr ms" "ms \<noteq> []" by blast
    from batch_fetch_ok[OF g(1) okf] f ms have h: "holds row d ms"
      by (fastforce simp: holds_def fetched_def same_message_def)
    obtain d1 b1 where bp: "b_beforePublish it d (broker s) = (d1, b1)" by fastforce
    obtain results b where pb: "PublishBatch (bd_publisher bd) ms b1 = (results, b)" by fastforce
    have "distinct (map ID ms)" using batch_fetch_ok[OF g(1) okf] f ms by blast
    note br = batch_results[OF pb this]
    have "guarantee row inv accepted d (broker s) d1 b1"
      using it bp unfolding batch_iteration_ok_def by (metis case_prodD)
    moreover have "guarantee row inv accepted d1 b1 d1 b"
      by (rule guarantee_broker) (use batch_keeps[of b1 _ ms] pb in simp)
    ultimately have g2: "guarantee row inv accepted d (broker s) d1 b" by (rule guarantee_trans)
    note h1 = guarantee_keeps(4)[OF g2 guarantee_keeps(1,2)[OF g1 g] h]
    note k2 = guarantee_keeps[OF guarantee_trans[OF g1 g2] g]
    have wa: "list_all well_answered results"
      using br unfolding list_all_length well_answered_def by metis
    define s1 where "s1 = (log_events (callOnBatchPublishStart (b_Hooks (bd_config bd)) ms) (s\<lparr>db := d\<rparr>))\<lparr>db := d1, broker := b\<rparr>"
    have s1: "db s1 = d1" "broker s1 = b" by (simp_all add: s1_def)
    obtain sm fc s2 where hr: "handle_results bd it ms 0 results [] 0 s1 = (Inr (sm, fc), s2)"
      and sm: "sm = map fst (filter (\<lambda>(m, r). Success r) (zip ms results))"
      using handle_results_total[of 0 results ms bd it "[]" 0 s1] wa br by auto
    have g3: "guarantee row inv accepted d1 b (db s2) (broker s2)"
      using handle_results_guarantee[OF it, of s1 ms 0 results "[]" 0 _ s2] s1 k2(1,2) h1 br wa hr by simp
    have acc_b: "accepted b m" if "m \<in> set sm" for m
      using that br unfolding sm by (auto simp: set_zip)
    note k3 = guarantee_keeps[OF g3 k2(1,2)]
    have "holds row (db s2) sm"
      using k3(4)[OF h1] unfolding sm holds_def by (auto dest: set_zip_leftD)
    then have g4: "guarantee row inv accepted (db s2) (broker s2)
        (db (mark_batch_published bd it (length results) sm s2))
        (broker (mark_batch_published bd it (length results) sm s2))"
      by (intro mark_batch_guarantee[OF it k3(1,2)]) (auto intro: k3(3) acc_b)
    have res: "res = Inr (int (length ms))" "db s' = db (mark_batch_published bd it (length results) sm s2)"
      "broker s' = broker (mark_batch_published bd it (length results) sm s2)"
      using p f ms bp pb hr by (auto simp: processBatch_def Let_def s1_def)
    from guarantee_trans[OF guarantee_trans[OF guarantee_trans[OF g1 g2] g3] g4] show ?thesis
      by (simp add: res)
  qed
qed

lemma runBatchWorker_guarantee:
  assumes "list_all (batch_iteration_ok row inv okc accepted) its"
    and "inv (db s)" "delivered row accepted (db s) (broker s)"
    and "runBatchWorker_from bd n its s = (res, s')"
  shows "(\<exists>ns. res = Inr ns \<and> length ns = length its) \<and>
    guarantee row inv accepted (db s) (broker s) (db s') (broker s')"
  using assms
proof (induction its arbitrary: n s res s')
  case Nil
  then show ?case by simp
next
  case (Cons it its)
  obtain r1 s1 where p: "processBatch bd it s = (r1, s1)" by fastforce
  have it: "batch_iteration_ok row inv okc accepted it" using Cons.prems(1) by simp
  note b = processBatch_guarantee[OF it Cons.prems(2,3) p]
  then obtain k where k: "r1 = Inr k" by blast
  obtain r2 s2 where r: "runBatchWorker_from bd (batch_next_interval (bd_config bd) n k) its s1 = (r2, s2)"
    by fastforce
  note kk = guarantee_keeps[OF b[THEN conjunct2] Cons.prems(2,3)]
  have "(\<exists>ns. r2 = Inr ns \<and> length ns = length its) \<and>
      guarantee row inv accepted (db s1) (broker s1) (db s2) (broker s2)"
    by (rule Cons.IH[OF _ kk(1,2)]) (use Cons.prems(1) r in simp_all)
  moreover have "s' = s2" "res = map_sum id ((#) (batch_next_interval (bd_config bd) n k)) r2"
    using Cons.prems(4) p k r by (auto simp: Let_def split: sum.splits)
  ultimately show ?case using b guarantee_trans by auto
qed

end

section \<open>Validated configurations\<close>

text \<open>
  A batch dispatcher is built only from a usable configuration: positive intervals,
  timeouts and worker count, a batch size within the publisher's limit, a force timeout not
  before the shutdown timeout, and requeueing switched on unless it was explicitly disabled.
\<close>

theorem NewBatchDispatcher_valid:
  assumes "NewBatchDispatcher maxBatch c = Inr c'" "0 < maxBatch"
    and "b_PollInterval c < 2 ^ 58" "b_ShutdownTimeout c < 2 ^ 62"
  shows "0 < b_PollInterval c' \<and> 0 < b_MaxPollInterval c' \<and> 0 < b_BatchSize c' \<and>
    b_BatchSize c' \<le> maxBatch \<and> 0 < b_WorkerCount c' \<and> 0 < b_ShutdownTimeout c' \<and>
    b_ShutdownTimeout c' \<le> b_ForceTimeout c' \<and> b_OnForceShutdown c' \<noteq> None \<and> 0 < b_CleanupTimeout c' \<and>
    (0 < b_RequeueInterval c' \<or> b_DisableAutoRequeue c')"
proof -
  let ?d = "batch_defaults maxBatch c"
  from assms(1) have c': "c' = batch_adjust maxBatch ?d"
    and neg: "0 \<le> b_PollInterval c" "0 \<le> b_MaxPollInterval c" "0 \<le> b_BatchSize c" "0 \<le> b_WorkerCount c"
      "0 \<le> b_ShutdownTimeout c" "0 \<le> b_ForceTimeout c" "0 \<le> b_RequeueInterval c" "0 \<le> b_CleanupTimeout c"
    and rq: "b_RequeueInterval c' \<noteq> 0 \<or> b_DisableAutoRequeue c'"
    by (auto simp: NewBatchDispatcher_def Let_def split: if_splits)
  have poll: "0 < b_PollInterval ?d" "b_PollInterval ?d < 2 ^ 58"
    and sd: "0 < b_ShutdownTimeout ?d" "b_ShutdownTimeout ?d < 2 ^ 62"
    using neg assms by (simp_all add: batch_defaults_def or_default_def Let_def)
  have w: "wrap64 (b_PollInterval ?d * 32) = b_PollInterval ?d * 32"
    "wrap64 (b_ShutdownTimeout ?d * 2) = b_ShutdownTimeout ?d * 2"
    using poll sd by (auto intro!: wrap64_id simp: in_int64_def)
  have mp: "b_MaxPollInterval ?d = or_default (b_MaxPollInterval c) (wrap64 (b_PollInterval ?d * 32))"
    by (simp add: batch_defaults_def Let_def)
  have "0 < b_MaxPollInterval ?d" unfolding mp w using neg poll by (simp add: or_default_def)
  moreover have "0 < b_BatchSize ?d" "0 < b_WorkerCount ?d" "0 < b_CleanupTimeout ?d" "b_OnForceShutdown ?d \<noteq> None"
    using neg assms(2)
    by (simp_all add: batch_defaults_def or_default_def Let_def split: option.splits)
  moreover have "0 \<le> b_RequeueInterval c'" using neg by (simp add: c' batch_adjust_def batch_defaults_def Let_def)
  ultimately show ?thesis using poll sd w rq assms(2) unfolding c' by (auto simp: batch_adjust_def)
qed

theorem NewBatchDispatcher_valid_witness:
  "\<exists>c'. NewBatchDispatcher 10 (DefaultBatchDispatcherConfig\<lparr>b_BatchSize := 50, b_ForceTimeout := 1\<rparr>) = Inr c' \<and>
     b_BatchSize c' \<le> 10 \<and> b_ShutdownTimeout c' \<le> b_ForceTimeout c'"
proof -
  let ?c = "DefaultBatchDispatcherConfig\<lparr>b_BatchSize := 50, b_ForceTimeout := 1\<rparr>"
  obtain c' where c': "NewBatchDispatcher 10 ?c = Inr c'"
    by (simp add: NewBatchDispatcher_def batch_adjust_def batch_defaults_def DefaultBatchDispatcherConfig_def
        or_default_def Let_def)
  from NewBatchDispatcher_valid[OF this] c' show ?thesis by (simp add: DefaultBatchDispatcherConfig_def)
qed

end
