(* ===== verification/Dispatcher.thy ===== *)
theory Dispatcher
  imports Batch_Dispatcher
begin

text \<open>
  \<open>src/core/dispatcher.go\<close>, the life cycle of \<open>batch_dispatcher.go\<close>, and \<open>shutdown.go\<close>,
  \<open>health.go\<close>, \<open>clock.go\<close>: configuration, start and stop of the two dispatchers, waiting for
  their goroutines, and the health report.  The mutex makes the critical sections of \<open>Start\<close>,
  \<open>Stop\<close> and \<open>HealthStatus\<close> atomic, so each is one transition of the life-cycle state.
\<close>

section \<open>Clocks and health\<close>

record MockClock =
  CurrentTime :: time

definition MockClock_Now :: "MockClock \<Rightarrow> time" where
  "MockClock_Now m = CurrentTime m"

definition Advance :: "duration \<Rightarrow> MockClock \<Rightarrow> MockClock" where
  "Advance d m = m\<lparr>CurrentTime := CurrentTime m + d\<rparr>"

record HealthStatus =
  Running :: bool
  h_LastProcessedAt :: "time option"
  h_WorkerCount :: int
  PendingShutdown :: bool

definition IsHealthy :: "HealthStatus \<Rightarrow> bool" where
  "IsHealthy h \<longleftrightarrow> Running h \<and> \<not> PendingShutdown h"

definition IsStale :: "time \<Rightarrow> HealthStatus \<Rightarrow> duration \<Rightarrow> bool" where
  "IsStale now h maxAge =
     (case h_LastProcessedAt h of None \<Rightarrow> False | Some t \<Rightarrow> now - t > maxAge)"

section \<open>Shutting down\<close>

record ShutdownConfig =
  s_ShutdownTimeout :: duration
  s_ForceTimeout :: duration
  s_OnForceShutdown :: "force_action option"

datatype shutdown_result = StoppedGracefully | StoppedAfterExtendedWait | Forced "force_action option"

text \<open>
  \<open>drained\<close>: how long after the call the wait group reaches zero, if ever.  A \<open>select\<close> with
  both channels ready picks either: \<open>tie\<close> says which.
\<close>

definition first_ready :: "bool \<Rightarrow> duration option \<Rightarrow> duration \<Rightarrow> bool" where
  "first_ready tie drained timeout =
     (case drained of None \<Rightarrow> False | Some t \<Rightarrow> t < timeout \<or> (t = timeout \<and> tie))"

definition GracefulShutdown :: "bool \<Rightarrow> bool \<Rightarrow> duration option \<Rightarrow> ShutdownConfig \<Rightarrow> shutdown_result" where
  "GracefulShutdown tie1 tie2 drained config =
     (if first_ready tie1 drained (s_ShutdownTimeout config) then StoppedGracefully
      else
        let remainingTime = wrap64 (s_ForceTimeout config - s_ShutdownTimeout config)
        in if first_ready tie2 drained (s_ShutdownTimeout config + max 0 remainingTime)
           then StoppedAfterExtendedWait
           else Forced (s_OnForceShutdown config))"

record go_context =
  ctx_values :: "(string \<times> string) list"
  ctx_cancelled :: bool
  ctx_deadline :: "time option"

definition ctx_done :: "time \<Rightarrow> go_context \<Rightarrow> bool" where
  "ctx_done now c \<longleftrightarrow> ctx_cancelled c \<or> (case ctx_deadline c of None \<Rightarrow> False | Some t \<Rightarrow> t \<le> now)"

definition createCleanupContext :: "time \<Rightarrow> go_context \<Rightarrow> duration \<Rightarrow> go_context" where
  "createCleanupContext now parent timeout =
     \<lparr>ctx_values = ctx_values parent, ctx_cancelled = False, ctx_deadline = Some (now + timeout)\<rparr>"

section \<open>Configuration of the dispatcher\<close>

record DispatcherConfig =
  PollInterval :: duration
  MaxPollInterval :: duration
  WorkerCount :: int
  ShutdownTimeout :: duration
  ForceTimeout :: duration
  OnForceShutdown :: "force_action option"
  AutoRecover :: bool
  RequeueInterval :: duration
  DisableAutoRequeue :: bool
  d_Hooks :: "Hooks option"
  CleanupTimeout :: duration

definition DefaultDispatcherConfig :: DispatcherConfig where
  "DefaultDispatcherConfig =
     \<lparr>PollInterval = 100 * millisecond, MaxPollInterval = 3200 * millisecond, WorkerCount = 1,
      ShutdownTimeout = 30 * second, ForceTimeout = 60 * second, OnForceShutdown = Some OsExit,
      AutoRecover = True, RequeueInterval = 10 * second, DisableAutoRequeue = False,
      d_Hooks = None, CleanupTimeout = 10 * second\<rparr>"

definition apply_defaults :: "DispatcherConfig \<Rightarrow> DispatcherConfig" where
  "apply_defaults c =
     (let poll = or_default (PollInterval c) (100 * millisecond);
          shutdown = or_default (ShutdownTimeout c) (30 * second)
      in c\<lparr>PollInterval := poll,
           MaxPollInterval := or_default (MaxPollInterval c) (wrap64 (poll * 32)),
           WorkerCount := or_default (WorkerCount c) 1,
           ShutdownTimeout := shutdown,
           ForceTimeout := or_default (ForceTimeout c) (wrap64 (shutdown * 2)),
           OnForceShutdown := (case OnForceShutdown c of None \<Rightarrow> Some OsExit | Some f \<Rightarrow> Some f),
           CleanupTimeout := or_default (CleanupTimeout c) (10 * second)\<rparr>)"

definition adjust_force_timeout :: "DispatcherConfig \<Rightarrow> DispatcherConfig" where
  "adjust_force_timeout c =
     c\<lparr>ForceTimeout := (if ForceTimeout c < ShutdownTimeout c
                       then wrap64 (ShutdownTimeout c * 2) else ForceTimeout c)\<rparr>"

definition NewDispatcher_config :: "DispatcherConfig \<Rightarrow> goerr + DispatcherConfig" where
  "NewDispatcher_config c =
     (if PollInterval c < 0 \<or> MaxPollInterval c < 0 \<or> WorkerCount c < 0 \<or> ShutdownTimeout c < 0 \<or>
         ForceTimeout c < 0 \<or> CleanupTimeout c < 0 \<or> RequeueInterval c < 0
      then Inl (Sentinel ErrInvalidConfig)
      else
        let c' = adjust_force_timeout (apply_defaults c)
        in if RequeueInterval c' = 0 \<and> \<not> DisableAutoRequeue c' then Inl requeue_interval_error
           else Inr c')"

section \<open>The life cycle\<close>

datatype goroutine = RecoverStuck | WorkerLoop nat | BatchWorkerLoop nat | RequeueLoop

record lifecycle =
  running :: bool
  pendingShutdown :: bool
  cancelFunc :: "nat option"
  cancelled :: "nat set"
  wg :: "goroutine list"
  workers :: "nat list"
  lastProcessed :: "time option"

definition new_lifecycle :: lifecycle where
  "new_lifecycle = \<lparr>running = False, pendingShutdown = False, cancelFunc = None, cancelled = {},
     wg = [], workers = [], lastProcessed = None\<rparr>"

text \<open>
  \<open>Start\<close> returns the goroutines it launches; the recovery goroutine is not counted in the
  wait group.  \<open>g\<close> names the cancel function of this start.
\<close>

definition Dispatcher_Start ::
  "DispatcherConfig \<Rightarrow> nat \<Rightarrow> lifecycle \<Rightarrow> (goerr + goroutine list) \<times> lifecycle" where
  "Dispatcher_Start c g d =
     (if running d then (Inl (Sentinel ErrAlreadyRunning), d)
      else
        let ids = [0..<nat (WorkerCount c)];
            loops = map WorkerLoop ids @ (if RequeueInterval c > 0 then [RequeueLoop] else [])
        in (Inr ((if AutoRecover c then [RecoverStuck] else []) @ loops),
            d\<lparr>running := True, cancelFunc := Some g, workers := workers d @ ids, wg := wg d @ loops\<rparr>))"

definition Dispatcher_Stop ::
  "DispatcherConfig \<Rightarrow> bool \<Rightarrow> bool \<Rightarrow> duration option \<Rightarrow> lifecycle \<Rightarrow> shutdown_result option \<times> lifecycle" where
  "Dispatcher_Stop c tie1 tie2 drained d =
     (if \<not> running d then (None, d)
      else
        let d1 = d\<lparr>pendingShutdown := True, running := False,
                   cancelled := cancelled d \<union> set_option (cancelFunc d)\<rparr>;
            res = GracefulShutdown tie1 tie2 drained
              \<lparr>s_ShutdownTimeout = ShutdownTimeout c, s_ForceTimeout = ForceTimeout c,
               s_OnForceShutdown = OnForceShutdown c\<rparr>;
            left = (case res of Forced _ \<Rightarrow> wg d1 | _ \<Rightarrow> [])
        in (Some res, d1\<lparr>wg := left, workers := []\<rparr>))"

definition IsRunning :: "lifecycle \<Rightarrow> bool" where
  "IsRunning d = running d"

definition Dispatcher_HealthStatus :: "DispatcherConfig \<Rightarrow> lifecycle \<Rightarrow> HealthStatus" where
  "Dispatcher_HealthStatus c d =
     \<lparr>Running = running d, h_LastProcessedAt = lastProcessed d, h_WorkerCount = WorkerCount c,
      PendingShutdown = pendingShutdown d\<rparr>"

definition BatchDispatcher_Start ::
  "BatchDispatcherConfig \<Rightarrow> nat \<Rightarrow> lifecycle \<Rightarrow> (goerr + goroutine list) \<times> lifecycle" where
  "BatchDispatcher_Start c g d =
     (if running d then (Inl (Sentinel ErrAlreadyRunning), d)
      else
        let loops = map BatchWorkerLoop [0..<nat (b_WorkerCount c)] @
                      (if b_RequeueInterval c > 0 then [RequeueLoop] else [])
        in (Inr ((if b_AutoRecover c then [RecoverStuck] else []) @ loops),
            d\<lparr>running := True, cancelFunc := Some g, wg := wg d @ loops\<rparr>))"

definition BatchDispatcher_Stop ::
  "BatchDispatcherConfig \<Rightarrow> bool \<Rightarrow> bool \<Rightarrow> duration option \<Rightarrow> lifecycle \<Rightarrow> shutdown_result option \<times> lifecycle" where
  "BatchDispatcher_Stop c tie1 tie2 drained d =
     (if \<not> running d then (None, d)
      else
        let d1 = d\<lparr>pendingShutdown := True, running := False,
                   cancelled := cancelled d \<union> set_option (cancelFunc d)\<rparr>;
            res = GracefulShutdown tie1 tie2 drained
              \<lparr>s_ShutdownTimeout = b_ShutdownTimeout c, s_ForceTimeout = b_ForceTimeout c,
               s_OnForceShutdown = b_OnForceShutdown c\<rparr>
        in (Some res, d1\<lparr>wg := (case res of Forced _ \<Rightarrow> wg d1 | _ \<Rightarrow> [])\<rparr>))"

definition BatchDispatcher_HealthStatus :: "BatchDispatcherConfig \<Rightarrow> lifecycle \<Rightarrow> HealthStatus" where
  "BatchDispatcher_HealthStatus c d =
     \<lparr>Running = running d, h_LastProcessedAt = lastProcessed d, h_WorkerCount = b_WorkerCount c,
      PendingShutdown = pendingShutdown d\<rparr>"

text \<open>The requeue worker: one \<open>RequeueFailed\<close> per tick until the context is cancelled; its result is only logged.\<close>

definition Dispatcher_runRequeueWorker ::
  "('c, 's, 'r) OutboxRepository_scheme \<Rightarrow> 'c list \<Rightarrow> 's \<Rightarrow> 's" where
  "Dispatcher_runRequeueWorker R ticks d = fold (\<lambda>c d. snd (RequeueFailed R c d)) ticks d"

section \<open>Properties\<close>

text \<open>
  C40: a dispatcher is built only from a usable configuration: positive intervals, timeouts
  and worker count, a force timeout not before the shutdown timeout, and requeueing
  switched on unless it was explicitly disabled.
\<close>

theorem NewDispatcher_valid:
  assumes "NewDispatcher_config c = Inr c'" "PollInterval c < 2 ^ 58" "ShutdownTimeout c < 2 ^ 62"
  shows "0 < PollInterval c' \<and> 0 < MaxPollInterval c' \<and> 0 < WorkerCount c' \<and> 0 < ShutdownTimeout c' \<and>
    ShutdownTimeout c' \<le> ForceTimeout c' \<and> OnForceShutdown c' \<noteq> None \<and> 0 < CleanupTimeout c' \<and>
    (0 < RequeueInterval c' \<or> DisableAutoRequeue c')"
proof -
  let ?d = "apply_defaults c"
  from assms(1) have c': "c' = adjust_force_timeout ?d"
    and neg: "0 \<le> PollInterval c" "0 \<le> MaxPollInterval c" "0 \<le> WorkerCount c"
      "0 \<le> ShutdownTimeout c" "0 \<le> ForceTimeout c" "0 \<le> RequeueInterval c" "0 \<le> CleanupTimeout c"
    and rq: "RequeueInterval c' \<noteq> 0 \<or> DisableAutoRequeue c'"
    by (auto simp: NewDispatcher_config_def Let_def split: if_splits)
  have poll: "0 < PollInterval ?d" "PollInterval ?d < 2 ^ 58"
    and sd: "0 < ShutdownTimeout ?d" "ShutdownTimeout ?d < 2 ^ 62"
    using neg assms by (simp_all add: apply_defaults_def or_default_def Let_def)
  have w: "wrap64 (PollInterval ?d * 32) = PollInterval ?d * 32"
    "wrap64 (ShutdownTimeout ?d * 2) = ShutdownTimeout ?d * 2"
    using poll sd by (auto intro!: wrap64_id simp: in_int64_def)
  have mp: "MaxPollInterval ?d = or_default (MaxPollInterval c) (wrap64 (PollInterval ?d * 32))"
    by (simp add: apply_defaults_def Let_def)
  have "0 < MaxPollInterval ?d" unfolding mp w using neg poll by (simp add: or_default_def)
  moreover have "0 < WorkerCount ?d" "0 < CleanupTimeout ?d" "OnForceShutdown ?d \<noteq> None"
    using neg by (simp_all add: apply_defaults_def or_default_def Let_def split: option.splits)
  moreover have "0 \<le> RequeueInterval c'"
    using neg by (simp add: c' adjust_force_timeout_def apply_defaults_def Let_def)
  ultimately show ?thesis using poll sd w rq unfolding c' by (auto simp: adjust_force_timeout_def)
qed

theorem NewDispatcher_valid_witness:
  "\<exists>c'. NewDispatcher_config (DefaultDispatcherConfig\<lparr>WorkerCount := 0, ForceTimeout := 1\<rparr>) = Inr c' \<and>
     0 < WorkerCount c' \<and> ShutdownTimeout c' \<le> ForceTimeout c'"
proof -
  let ?c = "DefaultDispatcherConfig\<lparr>WorkerCount := 0, ForceTimeout := 1\<rparr>"
  obtain c' where c': "NewDispatcher_config ?c = Inr c'"
    by (simp add: NewDispatcher_config_def adjust_force_timeout_def apply_defaults_def
        DefaultDispatcherConfig_def or_default_def Let_def)
  from NewDispatcher_valid[OF this] c' show ?thesis by (simp add: DefaultDispatcherConfig_def)
qed

text \<open>
  Shutdown never forces while the workers finish in time, and always does once they
  overrun: it ends gracefully within the shutdown timeout, extended until the force timeout,
  and calls the force action exactly when the wait group has not drained by then.
\<close>

theorem GracefulShutdown_outcome:
  assumes "0 \<le> s_ShutdownTimeout c" "s_ShutdownTimeout c \<le> s_ForceTimeout c" "s_ForceTimeout c < 2 ^ 63"
  shows "(case GracefulShutdown tie1 tie2 drained c of
       StoppedGracefully \<Rightarrow> \<exists>t. drained = Some t \<and> t \<le> s_ShutdownTimeout c
     | StoppedAfterExtendedWait \<Rightarrow> \<exists>t. drained = Some t \<and> s_ShutdownTimeout c \<le> t \<and> t \<le> s_ForceTimeout c
     | Forced f \<Rightarrow> f = s_OnForceShutdown c \<and> (case drained of None \<Rightarrow> True | Some t \<Rightarrow> s_ForceTimeout c \<le> t))"
proof -
  have "wrap64 (s_ForceTimeout c - s_ShutdownTimeout c) = s_ForceTimeout c - s_ShutdownTimeout c"
    using assms by (intro wrap64_id) (simp add: in_int64_def)
  with assms show ?thesis
    by (auto simp: GracefulShutdown_def first_ready_def Let_def split: option.splits)
qed

theorem GracefulShutdown_outcome_witness:
  "GracefulShutdown True True (Some (45 * second))
     \<lparr>s_ShutdownTimeout = 30 * second, s_ForceTimeout = 60 * second, s_OnForceShutdown = Some OsExit\<rparr>
   = StoppedAfterExtendedWait"
  using GracefulShutdown_outcome[of "\<lparr>s_ShutdownTimeout = 30 * second, s_ForceTimeout = 60 * second,
      s_OnForceShutdown = Some OsExit\<rparr>" "Some (45 * second)" True True]
  by (auto split: shutdown_result.splits)

text \<open>The transitions of the life cycle, for any configuration and any timing.\<close>

inductive life_step :: "DispatcherConfig \<Rightarrow> lifecycle \<Rightarrow> lifecycle \<Rightarrow> bool" for c where
  start: "life_step c d (snd (Dispatcher_Start c g d))"
| stop: "life_step c d (snd (Dispatcher_Stop c t1 t2 drained d))"
| progress: "life_step c d (d\<lparr>lastProcessed := Some t\<rparr>)"

text \<open>
  A running dispatcher always has a cancel function to stop it and its full set of
  workers; a second \<open>Start\<close> is refused with \<open>ErrAlreadyRunning\<close> and changes nothing, and a
  stopped dispatcher has signalled its last generation of workers to stop.
\<close>

theorem lifecycle_invariant:
  assumes "(life_step c)\<^sup>*\<^sup>* new_lifecycle d"
  shows "(if running d
      then cancelFunc d \<noteq> None \<and> workers d = [0..<nat (WorkerCount c)] \<and>
           Dispatcher_Start c g d = (Inl (Sentinel ErrAlreadyRunning), d)
      else workers d = [] \<and> set_option (cancelFunc d) \<subseteq> cancelled d)"
  using assms
proof (induction rule: rtranclp_induct)
  case base
  then show ?case by (simp add: new_lifecycle_def)
next
  case (step d d')
  from step(2) show ?case
    using step.IH
    by cases (auto simp: Dispatcher_Start_def Dispatcher_Stop_def Let_def split: if_splits)
qed

theorem lifecycle_invariant_witness:
  "fst (Dispatcher_Start DefaultDispatcherConfig 1 (snd (Dispatcher_Start DefaultDispatcherConfig 0 new_lifecycle)))
     = Inl (Sentinel ErrAlreadyRunning)"
proof -
  let ?d = "snd (Dispatcher_Start DefaultDispatcherConfig 0 new_lifecycle)"
  have "(life_step DefaultDispatcherConfig)\<^sup>*\<^sup>* new_lifecycle ?d"
    by (intro r_into_rtranclp life_step.start)
  from lifecycle_invariant[OF this, of 1] show ?thesis
    by (simp add: Dispatcher_Start_def new_lifecycle_def Let_def)
qed

text \<open>
  C33: \<open>pendingShutdown\<close> is set by \<open>Stop\<close> and never cleared: a dispatcher that is stopped and
  started again runs, but its health report stays unhealthy for good.
\<close>

theorem restarted_never_healthy:
  assumes "running d" "(life_step c)\<^sup>*\<^sup>* (snd (Dispatcher_Stop c t1 t2 drained d)) d'"
  shows "\<not> IsHealthy (Dispatcher_HealthStatus c d')"
proof -
  have "pendingShutdown (snd (Dispatcher_Stop c t1 t2 drained d))"
    using assms(1) by (simp add: Dispatcher_Stop_def Let_def)
  with assms(2) have "pendingShutdown d'"
  proof (induction rule: rtranclp_induct)
    case (step d' d'')
    from step(2,3,4) show ?case
      by cases (auto simp: Dispatcher_Start_def Dispatcher_Stop_def Let_def split: if_splits)
  qed simp
  then show ?thesis by (simp add: IsHealthy_def Dispatcher_HealthStatus_def)
qed

theorem restarted_never_healthy_witness:
  "let c = DefaultDispatcherConfig;
       d = snd (Dispatcher_Start c 1 (snd (Dispatcher_Stop c True True (Some 0)
             (snd (Dispatcher_Start c 0 new_lifecycle)))))
   in IsRunning d \<and> \<not> IsHealthy (Dispatcher_HealthStatus c d)"
proof -
  let ?c = DefaultDispatcherConfig
  let ?d0 = "snd (Dispatcher_Start ?c 0 new_lifecycle)"
  let ?d1 = "snd (Dispatcher_Stop ?c True True (Some 0) ?d0)"
  let ?d2 = "snd (Dispatcher_Start ?c 1 ?d1)"
  have "running ?d0" by (simp add: Dispatcher_Start_def new_lifecycle_def Let_def)
  moreover have "(life_step ?c)\<^sup>*\<^sup>* ?d1 ?d2"
    by (intro r_into_rtranclp life_step.start)
  ultimately have "\<not> IsHealthy (Dispatcher_HealthStatus ?c ?d2)" by (rule restarted_never_healthy)
  moreover have "IsRunning ?d2"
    by (simp add: IsRunning_def Dispatcher_Start_def Dispatcher_Stop_def new_lifecycle_def Let_def)
  ultimately show ?thesis by simp
qed

end
