(* ===== verification/System.thy ===== *)
theory System
  imports Pgx_Correct Gorm_Repo Sqs_Correct Batch_Dispatcher Dispatcher
begin

text \<open>
  The parts put together: the dispatchers of \<open>src/core\<close> over the PostgreSQL repository and the
  SQS publishers.  The locales \<open>worker\<close> and \<open>batch_worker\<close> are met by these instances for every
  SQS client that does what the service documents (\<open>sqs_client\<close>), and their lemmas become the
  end-to-end properties below.
\<close>

definition NewWorker ::
  "('c, 's, 'r) OutboxRepository_scheme \<Rightarrow> ('w, 'p) Publisher_scheme \<Rightarrow> Hooks option \<Rightarrow> duration \<Rightarrow> duration \<Rightarrow>
   ('c, 's, 'r, 'w, 'p) Worker" where
  "NewWorker R P h poll maxPoll =
     \<lparr>repo = R, publisher = P, hooks = h, pollInterval = poll, maxPollInterval = maxPoll,
      onMessageProcessed = False\<rparr>"

text \<open>The worker \<open>Start\<close> creates: the callback is set after the construction.\<close>

definition start_worker ::
  "DispatcherConfig \<Rightarrow> ('c, 's, 'r) OutboxRepository_scheme \<Rightarrow> ('w, 'p) Publisher_scheme \<Rightarrow>
   ('c, 's, 'r, 'w, 'p) Worker" where
  "start_worker cfg R P =
     (NewWorker R P (d_Hooks cfg) (PollInterval cfg) (MaxPollInterval cfg))\<lparr>onMessageProcessed := True\<rparr>"


lemma start_worker_simps [simp]:
  "repo (start_worker cfg R P) = R" "publisher (start_worker cfg R P) = P"
  "pollInterval (start_worker cfg R P) = PollInterval cfg"
  "maxPollInterval (start_worker cfg R P) = MaxPollInterval cfg"
  by (simp_all add: start_worker_def NewWorker_def)

definition start_batch_dispatcher ::
  "BatchDispatcherConfig \<Rightarrow> ('c, 's, 'r) BatchOutboxRepository_scheme \<Rightarrow> ('w, 'p) BatchPublisher_scheme \<Rightarrow>
   ('c, 's, 'r, 'w, 'p) batch_dispatcher" where
  "start_batch_dispatcher cfg R P = \<lparr>bd_repo = R, bd_publisher = P, bd_config = cfg\<rparr>"

lemma start_batch_dispatcher_simps [simp]:
  "bd_repo (start_batch_dispatcher cfg R P) = R" "bd_publisher (start_batch_dispatcher cfg R P) = P"
  by (simp_all add: start_batch_dispatcher_def)

lemma pgx_ops [simp]:
  "FetchAndLockToPublishing (pgx_repository rp) = pgx_FetchAndLockToPublishing rp"
  "FetchLockAndMarkPublishing (pgx_repository rp) = pgx_FetchLockAndMarkPublishing rp"
  "UpdateBatchToPublished (pgx_repository rp) = pgx_UpdateBatchToPublished rp"
  "RequeueFailed (pgx_repository rp) = pgx_RequeueFailed rp"
  "UpdateToPublished (pgx_repository rp) = pgx_UpdateToPublished rp"
  by (simp_all add: pgx_repository_def)

section \<open>The instances\<close>

sublocale sqs_client \<subseteq> pgx_worker:
  worker "start_worker cfg (pgx_repository rp) (NewMultiQueuePublisher C route)" row_of wf_table wf_ctx
    "sqs_accepted stored route" for cfg rp route
  by (rule worker.intro) (simp_all add: pgx.outbox_repository_axioms routed.publisher_axioms)

sublocale sqs_client \<subseteq> gorm_worker:
  worker "start_worker cfg (gorm_repository rp now) (NewMultiQueuePublisher C route)" row_of wf_table wf_ctx
    "sqs_accepted stored route" for cfg rp now route
  by (rule worker.intro) (simp_all add: gorm.outbox_repository_axioms routed.publisher_axioms)

sublocale sqs_client \<subseteq> pgx_batch:
  batch_worker "start_batch_dispatcher cfg (pgx_repository rp) (NewBatchPublisher C q)" row_of wf_table wf_ctx
    "sqs_accepted stored (\<lambda>_. q)" for cfg rp q
  by (rule batch_worker.intro) (simp_all add: pgx.batch_outbox_repository_axioms batch.batch_publisher_axioms)

sublocale sqs_fanout \<subseteq> pgx_fanout:
  batch_worker "start_batch_dispatcher cfg (pgx_repository rp) (NewMultiBatchPublisher C route sched)"
    row_of wf_table wf_ctx "sqs_accepted stored route" for cfg rp route
  by (rule batch_worker.intro) (simp_all add: pgx.batch_outbox_repository_axioms fanout.batch_publisher_axioms)


context sqs_client
begin

lemma pgx_processOne:
  assumes "wf_ctx (fetchCtx it)" "wf_ctx (cleanupCtx it)"
    "\<And>d b. wf_table d \<Longrightarrow> wf_table (fst (beforePublish it d b))"
    "\<And>d b. wf_table d \<Longrightarrow> wf_table (fst (meanwhile it d b))" "wf_table (db s)"
    "processOne (start_worker cfg (pgx_repository rp) (NewMultiQueuePublisher C route)) it s = (None, s')"
  shows "\<exists>m r r1 d d1 b1 b2 d3 b3 pe.
    row_of (db s) (ID m) = Some r \<and> Status r = OutboxStatusEnqueued \<and> picked_up r r1 \<and>
    m = r1\<lparr>NextRetryAt := None\<rparr> \<and> row_of d = (row_of (db s))(ID m \<mapsto> r1) \<and>
    beforePublish it d (broker s) = (d1, b1) \<and> MultiQueuePublisher_Publish C route m b1 = (pe, b2) \<and>
    meanwhile it d1 b2 = (d3, b3) \<and> broker s' = b3 \<and>
    (if \<exists>r2. row_of d3 (ID m) = Some r2 \<and> Status r2 = OutboxStatusPublishing
     then \<exists>r2 r3. row_of d3 (ID m) = Some r2 \<and> settled_as m pe r2 r3 \<and> row_of (db s') = (row_of d3)(ID m \<mapsto> r3)
     else row_of (db s') = row_of d3)"
  using pgx_worker.processOne_settles[OF assms] by (simp add: NewMultiQueuePublisher_def)

lemma pgx_run:
  "list_all (iteration_ok row_of wf_table wf_ctx (sqs_accepted stored route)) its \<Longrightarrow>
   Run (start_worker cfg (pgx_repository rp) (NewMultiQueuePublisher C route)) its s = (ns, s') \<Longrightarrow>
   guarantee row_of wf_table (sqs_accepted stored route) (db s) (broker s) (db s') (broker s')"
  by (rule pgx_worker.Run_guarantee) (simp_all add: Run_def)

end

context sqs_fanout
begin

lemma pgx_batch_run:
  "list_all (batch_iteration_ok row_of wf_table wf_ctx (sqs_accepted stored route)) its \<Longrightarrow>
   wf_table (db s) \<Longrightarrow> delivered row_of (sqs_accepted stored route) (db s) (broker s) \<Longrightarrow>
   runBatchWorker (start_batch_dispatcher cfg (pgx_repository rp) (NewMultiBatchPublisher C route sched)) its s =
     (res, s') \<Longrightarrow>
   (\<exists>ns. res = Inr ns \<and> length ns = length its) \<and>
   guarantee row_of wf_table (sqs_accepted stored route) (db s) (broker s) (db s') (broker s')"
  by (rule pgx_fanout.runBatchWorker_guarantee) (simp_all add: runBatchWorker_def)

end

section \<open>What the dispatchers do, end to end\<close>


text \<open>
  A worker keeps the table well-formed, every PUBLISHED row delivered and every row on its
  life cycle through any number of iterations, relying on the others to do the same
  between its own steps.
\<close>

theorem worker_safe:
  assumes "sqs_client C stored"
    "list_all (iteration_ok row_of wf_table wf_ctx (sqs_accepted stored route)) its"
    "Run (start_worker cfg (pgx_repository rp) (NewMultiQueuePublisher C route)) its s = (ns, s')"
    "wf_table (db s)" "delivered row_of (sqs_accepted stored route) (db s) (broker s)"
  shows "wf_table (db s') \<and> delivered row_of (sqs_accepted stored route) (db s') (broker s') \<and>
    (\<forall>i r. row_of (db s) i = Some r \<longrightarrow> (\<exists>r'. row_of (db s') i = Some r' \<and> row_step\<^sup>*\<^sup>* r r'))"
  using sqs_client.pgx_run[OF assms(1-3)] assms(4,5) by (simp add: guarantee_def)

text \<open>
  C12: a batch worker over the fan-out publisher never panics, whatever the service answers: no
  result is missing, none is out of range and no failure comes without an error; and like
  the single worker it keeps every PUBLISHED row delivered.
\<close>

theorem batch_worker_safe:
  assumes "sqs_fanout C stored sched"
    "list_all (batch_iteration_ok row_of wf_table wf_ctx (sqs_accepted stored route)) its"
    "wf_table (db s)" "delivered row_of (sqs_accepted stored route) (db s) (broker s)"
    "runBatchWorker (start_batch_dispatcher cfg (pgx_repository rp) (NewMultiBatchPublisher C route sched)) its s =
      (res, s')"
  shows "(\<exists>ns. res = Inr ns \<and> length ns = length its) \<and> wf_table (db s') \<and>
    delivered row_of (sqs_accepted stored route) (db s') (broker s')"
  using sqs_fanout.pgx_batch_run[OF assms] assms(3,4) by (simp add: guarantee_def)


section \<open>Concrete instances\<close>

abbreviation sample_picked :: Outbox where
  "sample_picked \<equiv> (sample_row OutboxStatusPublishing 1)\<lparr>UpdatedAt := 9\<rparr>"

lemma sample_fetch:
  "pgx_FetchAndLockToPublishing sample_repo (sample_ctx 9) [sample_row OutboxStatusEnqueued 1] =
     (Inr sample_picked, [sample_picked])"
  by (simp add: pgx_FetchAndLockToPublishing_def fetch_stmt_def fetch_candidates_def mark_publishing_def
      sample_defs Let_def)

lemma sample_publish:
  "pgx_UpdateToPublished sample_repo (sample_ctx 9) ''u1'' [sample_picked] =
     (None, [sample_picked\<lparr>Status := OutboxStatusPublished\<rparr>])"
  by (simp add: pgx_UpdateToPublished_def expect_affected_def set_published_def sample_defs)


abbreviation sample_router :: EventTypeQueueMap where
  "sample_router \<equiv> Register ''order.created'' ''https://orders'' (NewEventTypeQueueMap ''https://other'')"

abbreviation sample_publisher :: "sqs_service BatchPublisher" where
  "sample_publisher \<equiv> NewMultiBatchPublisher service_client (QueueURL sample_router) rev"

abbreviation sample_broker :: sqs_service where
  "sample_broker \<equiv> \<lparr>taken = [], script = []\<rparr>"

abbreviation sample_iteration :: "(pg_ctx, Outbox list, sqs_service) iteration" where
  "sample_iteration \<equiv> \<lparr>fetchCtx = sample_ctx 9, beforePublish = Pair, meanwhile = Pair, cleanupCtx = sample_ctx 9, elapsed = 0, callbackTime = 0\<rparr>"

abbreviation sample_world :: "(Outbox list, sqs_service) world" where
  "sample_world \<equiv> \<lparr>db = [sample_row OutboxStatusEnqueued 1], broker = sample_broker, trace = [], lastProcessedAt = None\<rparr>"

abbreviation sample_worker :: "(pg_ctx, Outbox list, (pg_ctx, Outbox list, unit) BatchOutboxRepository_ext, sqs_service, unit) Worker" where
  "sample_worker \<equiv> start_worker DefaultDispatcherConfig (pgx_repository sample_repo)
     (NewMultiQueuePublisher service_client (QueueURL sample_router))"


lemma sample_queue_sent:
  "Publish (NewMultiQueuePublisher service_client (QueueURL sample_router)) sample_picked sample_broker =
     (None, take_over [buildSendMessageInput ''https://orders'' sample_picked] sample_broker)"
  by (simp add: NewMultiQueuePublisher_def MultiQueuePublisher_Publish_def service_client_def service_send_def
      next_answer_def too_large_def blen_def MaxSQSMessageSize_def sample_row_def QueueURL_def Register_def Let_def)

lemma sample_processOne:
  "\<exists>s'. processOne sample_worker sample_iteration sample_world = (None, s') \<and>
     db s' = [sample_picked\<lparr>Status := OutboxStatusPublished\<rparr>] \<and>
     broker s' = take_over [buildSendMessageInput ''https://orders'' sample_picked] sample_broker"
proof -
  have "ID (sample_row st n) = ''u1''" for st n by (simp add: sample_row_def)
  with sample_publish show ?thesis
    by (simp add: processOne_def markPublished_def sample_fetch sample_queue_sent Let_def)
qed


lemma sample_iteration_ok: "iteration_ok row_of wf_table wf_ctx acc sample_iteration"
  by (simp add: iteration_ok_def)

lemma sample_delivered: "delivered row_of acc [sample_row OutboxStatusEnqueued 1] b"
  by (auto simp: delivered_def lookup_by_def)

theorem worker_safe_witness:
  "\<exists>s'. db s' = [sample_picked\<lparr>Status := OutboxStatusPublished\<rparr>] \<and>
     delivered row_of (sqs_accepted service_stored (QueueURL sample_router)) (db s') (broker (s' :: (_, _) world))"
proof -
  obtain s' where p: "processOne sample_worker sample_iteration sample_world = (None, s')"
    "db s' = [sample_picked\<lparr>Status := OutboxStatusPublished\<rparr>]"
    using sample_processOne by blast
  then have r: "Run sample_worker [sample_iteration] sample_world = ([PollInterval DefaultDispatcherConfig], s')"
    by (simp add: Run_def next_interval_def)
  from worker_safe[OF service.sqs_client_axioms _ r] have "delivered row_of (sqs_accepted service_stored (QueueURL sample_router)) (db s') (broker s')"
    by (simp add: sample_iteration_ok sample_delivered)
  with p(2) show ?thesis by blast
qed

theorem Run_intervals_witness:
  "fst (Run sample_worker [sample_iteration, sample_iteration] (sample_world\<lparr>db := []\<rparr>)) =
     [200 * millisecond, 400 * millisecond]"
proof -
  let ?s = "sample_world\<lparr>db := []\<rparr>"
  have e: "processOne sample_worker sample_iteration ?s = (Some (Sentinel ErrNoMessage), ?s)"
    by (simp add: processOne_def pgx_FetchAndLockToPublishing_def fetch_stmt_def fetch_candidates_def sample_ctx_def Let_def)
  obtain ns s' where r: "Run sample_worker [sample_iteration, sample_iteration] ?s = (ns, s')" by fastforce
  from Run_intervals[OF _ _ _ r] e have "ns = [200 * millisecond, 400 * millisecond]"
    by (simp add: DefaultDispatcherConfig_def Let_def)
  then show ?thesis unfolding r by simp
qed

definition sample_batch_iteration :: "(pg_ctx, Outbox list, sqs_service) batch_iteration" where
  "sample_batch_iteration = \<lparr>b_fetchCtx = sample_ctx 9, b_failureCtx = (\<lambda>_. sample_ctx 9), b_successCtx = sample_ctx 9,
     b_beforePublish = Pair, b_meanwhile = (\<lambda>_. Pair), b_elapsed = 0, b_now = 9\<rparr>"

theorem batch_worker_safe_witness:
  "\<exists>ns s'. runBatchWorker (start_batch_dispatcher DefaultBatchDispatcherConfig (pgx_repository sample_repo) sample_publisher)
     [sample_batch_iteration] sample_world = (Inr ns, s') \<and> length ns = 1"
proof -
  let ?run = "runBatchWorker (start_batch_dispatcher DefaultBatchDispatcherConfig (pgx_repository sample_repo) sample_publisher)
     [sample_batch_iteration] sample_world"
  obtain res s' where r: "?run = (res, s')" by fastforce
  have "list_all (batch_iteration_ok row_of wf_table wf_ctx acc) [sample_batch_iteration]" for acc
    by (simp add: batch_iteration_ok_def sample_batch_iteration_def)
  from batch_worker_safe[OF service.sqs_fanout_axioms this _ _ r] r show ?thesis by (auto simp: sample_delivered)
qed

end
