(* ===== verification/Interleaving.thy ===== *)
theory Interleaving
  imports System
begin

text \<open>
  Any number of processes on one outbox table, interleaved at the level of single statements
  and broker calls: writers, the workers of any number of dispatchers and batch dispatchers
  (each with a program counter), requeue loops and, optionally, crash recovery.  The code of
  the dispatchers is related to these steps by \<open>processOne_refines\<close>.
\<close>

section \<open>The concurrent system\<close>

text \<open>What a worker is about to do: poll, publish what it fetched, or write down the answers.\<close>

datatype pc = Idle | Holding "Outbox list" | Answered "(Outbox \<times> goerr option) list"

inductive sys_step ::
  "bool \<Rightarrow> pgx_repo \<Rightarrow> ('w, 'p) BatchPublisher_scheme \<Rightarrow>
   Outbox list \<times> 'w \<times> (nat \<Rightarrow> pc) \<Rightarrow> Outbox list \<times> 'w \<times> (nat \<Rightarrow> pc) \<Rightarrow> bool" for recover rp P where
  insert: "wf_ctx c \<Longrightarrow> sys_step recover rp P (d, b, pcs) (snd (pgx_Insert rp c params d), b, pcs)"
| requeue: "wf_ctx c \<Longrightarrow> sys_step recover rp P (d, b, pcs) (snd (pgx_RequeueFailed rp c d), b, pcs)"
| revive: "recover \<Longrightarrow> wf_ctx c \<Longrightarrow>
    sys_step recover rp P (d, b, pcs) (snd (pgx_ReviveStuckPublishing rp c d), b, pcs)"
| fetch: "pcs k = Idle \<Longrightarrow> wf_ctx c \<Longrightarrow> pgx_FetchAndLockToPublishing rp c d = (Inr m, d') \<Longrightarrow>
    sys_step recover rp P (d, b, pcs) (d', b, pcs(k := Holding [m]))"
| fetch_err: "wf_ctx c \<Longrightarrow> pgx_FetchAndLockToPublishing rp c d = (Inl e, d') \<Longrightarrow>
    sys_step recover rp P (d, b, pcs) (d', b, pcs)"
| fetch_batch: "pcs k = Idle \<Longrightarrow> wf_ctx c \<Longrightarrow> pgx_FetchLockAndMarkPublishing rp c n d = (Inr ms, d') \<Longrightarrow>
    sys_step recover rp P (d, b, pcs) (d', b, pcs(k := Holding ms))"
| fetch_batch_err: "wf_ctx c \<Longrightarrow> pgx_FetchLockAndMarkPublishing rp c n d = (Inl e, d') \<Longrightarrow>
    sys_step recover rp P (d, b, pcs) (d', b, pcs)"
| publish: "pcs k = Holding [m] \<Longrightarrow> Publish P m b = (pe, b') \<Longrightarrow>
    sys_step recover rp P (d, b, pcs) (d, b', pcs(k := Answered [(m, pe)]))"
| publish_batch: "pcs k = Holding ms \<Longrightarrow> PublishBatch P ms b = (rs, b') \<Longrightarrow>
    sys_step recover rp P (d, b, pcs) (d, b', pcs(k := Answered (zip ms (map result_error rs))))"
| settle: "pcs k = Answered (xs @ (m, pe) # ys) \<Longrightarrow> wf_ctx c \<Longrightarrow>
    write_result (pgx_repository rp) c m pe d = (e, d') \<Longrightarrow>
    sys_step recover rp P (d, b, pcs) (d', b, pcs(k := Answered (xs @ ys)))"
| settle_batch: "pcs k = Answered xs \<Longrightarrow> wf_ctx c \<Longrightarrow>
    pgx_UpdateBatchToPublished rp c (map (ID \<circ> fst) (filter (\<lambda>(m, pe). pe = None) xs)) d = (res, d') \<Longrightarrow>
    sys_step recover rp P (d, b, pcs) (d', b, pcs(k := Idle))"
| crash: "sys_step recover rp P (d, b, pcs) (d, b, pcs(k := Idle))"

lemmas sys_step_induct = sys_step.induct[split_format(complete), consumes 1]

section \<open>Steps of the table that are not a worker's\<close>

lemmas pgx_guarantees =
  outbox_repository.fetch_guarantee[OF pgx.outbox_repository_axioms]
  batch_outbox_repository.batch_fetch_guarantee[OF pgx.batch_outbox_repository_axioms]
  outbox_repository.write_result_guarantee[OF pgx.outbox_repository_axioms]
  batch_outbox_repository.batch_published_guarantee[OF pgx.batch_outbox_repository_axioms]
  outbox_repository.requeue_guarantee[OF pgx.outbox_repository_axioms]

definition maybe_revived :: "Outbox \<Rightarrow> Outbox \<Rightarrow> bool" where
  "maybe_revived r r' \<longleftrightarrow> r' = r \<or> Status r = OutboxStatusPublishing \<and> row_step r r' \<and>
     Status r' \<in> {OutboxStatusFailed, OutboxStatusDead}"

lemma revive_rows:
  "rel_option maybe_revived (row_of rs i) (row_of (snd (pgx_ReviveStuckPublishing rp c rs)) i)"
proof -
  let ?u = "sql_update (stuck rp c) (set_revived rp c)"
  have step: "rel_option maybe_revived (row_of rs i) (row_of rs' i)" if "?u rs = Inr (rs', n)" for rs' n
  proof -
    have one: "row_step r r' \<and> Status r' \<in> {OutboxStatusFailed, OutboxStatusDead}"
      if "stuck rp c r" "set_revived rp c r = Inr r'" for r r'
      using that set_revived_step[of rp c r r'] set_revived_Inr[of rp c r r']
      by (auto simp: stuck_def revived_def split: if_splits)
    have ids: "ID r' = ID r" if "set_revived rp c r = Inr r'" for r r'
      using that by (auto simp: set_revived_def split: sum.splits if_splits)
    have "rel_option (updated_row (stuck rp c) (set_revived rp c)) (row_of rs i) (row_of rs' i)"
      by (rule sql_update_lookup[OF that]) (rule ids)
    then show ?thesis
      by (rule option.rel_mono_strong)
        (use one in \<open>auto simp: updated_row_def maybe_revived_def stuck_def split: if_splits\<close>)
  qed
  show ?thesis
    by (cases rule: run_statement_cases[of ?u rs "outcome c"])
      (auto simp: pgx_ReviveStuckPublishing_def maybe_revived_def intro!: step option.rel_refl)
qed

lemma insert_rows:
  assumes "wf_table rs" "wf_ctx c" "row_of (snd (pgx_Insert rp c params rs)) i = Some r"
  shows "row_of rs i = Some r \<or> row_of rs i = None \<and> Status r = OutboxStatusEnqueued"
proof -
  obtain res rs' where ins: "pgx_Insert rp c params rs = (res, rs')" by fastforce
  from assms(2) ins show ?thesis
  proof (cases rule: pgx_Insert_cases)
    case (added x)
    with insert_stmt_Inr[of c params rs rs' x] assms(3) ins show ?thesis
      by (auto simp: lookup_by_def find_append inserted_def split: option.splits if_splits)
  next
    case (lost x e)
    with insert_stmt_Inr[of c params rs rs' x] assms(3) ins show ?thesis
      by (auto simp: lookup_by_def find_append inserted_def split: option.splits if_splits)
  qed (use assms(3) ins in auto)
qed

lemma revive_guarantee:
  assumes "wf_table d"
  shows "guarantee row_of wf_table accepted d b (snd (pgx_ReviveStuckPublishing rp c d)) b"
  by (rule guarantee_rows[where Q = maybe_revived])
    (use table_evolves_wf[OF pgx_evolves(8)] revive_rows in \<open>auto simp: maybe_revived_def row_evolves_def\<close>)

lemma insert_guarantee:
  assumes "wf_table d" "wf_ctx c"
  shows "guarantee row_of wf_table accepted d b (snd (pgx_Insert rp c params d)) b"
  using insert_tracks[OF assms, of rp params] insert_rows[OF assms, of rp params]
  unfolding guarantee_def tracks_def delivered_def
  by (metis OutboxStatus.distinct(3) option.inject)


section \<open>Whatever is marked PUBLISHED was delivered\<close>

fun pc_ok :: "('w \<Rightarrow> Outbox \<Rightarrow> bool) \<Rightarrow> Outbox list \<Rightarrow> 'w \<Rightarrow> pc \<Rightarrow> bool" where
  "pc_ok accepted d b Idle = True"
| "pc_ok accepted d b (Holding ms) = (distinct (map ID ms) \<and> holds row_of d ms)"
| "pc_ok accepted d b (Answered xs) =
     (holds row_of d (map fst xs) \<and> (\<forall>m. (m, None) \<in> set xs \<longrightarrow> accepted b m))"

definition sys_safe :: "('w \<Rightarrow> Outbox \<Rightarrow> bool) \<Rightarrow> Outbox list \<times> 'w \<times> (nat \<Rightarrow> pc) \<Rightarrow> bool" where
  "sys_safe accepted s =
     (case s of (d, b, pcs) \<Rightarrow>
        wf_table d \<and> delivered row_of accepted d b \<and> (\<forall>k. pc_ok accepted d b (pcs k)))"

lemma pc_ok_kept:
  assumes "guarantee row_of wf_table accepted d b d' b'" "wf_table d" "delivered row_of accepted d b"
    "pc_ok accepted d b p"
  shows "pc_ok accepted d' b' p"
  using assms(4) guarantee_keeps(3,4)[OF assms(1-3)] by (cases p) (auto simp: split_beta)

lemma sys_safe_step:
  assumes "sys_safe accepted (d, b, pcs)" "guarantee row_of wf_table accepted d b d' b'"
    "\<And>k. pcs' k \<noteq> pcs k \<Longrightarrow> pc_ok accepted d' b' (pcs' k)"
  shows "sys_safe accepted (d', b', pcs')"
proof -
  from assms(1) have s: "wf_table d" "delivered row_of accepted d b" "\<And>k. pc_ok accepted d b (pcs k)"
    by (simp_all add: sys_safe_def)
  have "pc_ok accepted d' b' (pcs' k)" for k
    using assms(3)[of k] pc_ok_kept[OF assms(2) s(1,2) s(3)[of k]] by (cases "pcs' k = pcs k") auto
  with guarantee_keeps(1,2)[OF assms(2) s(1,2)] show ?thesis by (simp add: sys_safe_def)
qed

lemma sys_safe_env:
  "sys_safe accepted (d, b, pcs) \<Longrightarrow> (wf_table d \<Longrightarrow> guarantee row_of wf_table accepted d b d' b) \<Longrightarrow>
   sys_safe accepted (d', b, pcs)"
  by (rule sys_safe_step[of accepted d b pcs]) (simp_all add: sys_safe_def)

lemma fetched_holds:
  "\<forall>m \<in> set ms. fetched row d d' m \<Longrightarrow> holds row d' ms"
  by (fastforce simp: holds_def fetched_def same_message_def)

lemma sys_safe_preserved:
  assumes P: "batch_publisher P accepted" and st: "sys_step recover rp P s s'" and safe: "sys_safe accepted s"
  shows "sys_safe accepted s'"
  using st safe
proof (induction rule: sys_step.induct)
  case (fetch pcs k c d m d' b)
  then have d: "wf_table d" by (simp add: sys_safe_def)
  have f: "FetchAndLockToPublishing (pgx_repository rp) c d = (Inr m, d')" using fetch by simp
  have "holds row_of d' [m]" using pgx.fetch_ok[OF d _ f] fetch by (intro fetched_holds) auto
  with fetch show ?case by (intro sys_safe_step[OF fetch.prems pgx_guarantees(1)[OF _ d f]]) auto
next
  case (fetch_batch pcs k c n d ms d' b)
  then have d: "wf_table d" by (simp add: sys_safe_def)
  have f: "FetchLockAndMarkPublishing (pgx_repository rp) c n d = (Inr ms, d')" using fetch_batch by simp
  have "holds row_of d' ms" "distinct (map ID ms)"
    using pgx.batch_fetch_ok[OF d _ f] fetch_batch by (auto intro: fetched_holds)
  with fetch_batch show ?case
    by (intro sys_safe_step[OF fetch_batch.prems pgx_guarantees(2)[OF _ d f]]) auto
next
  case (publish pcs k m b pe b' d)
  have h: "holds row_of d [m]" using publish.prems publish.hyps(1) by (auto simp: sys_safe_def dest!: spec[of _ k])
  have "guarantee row_of wf_table accepted d b d b'"
    using batch_publisher.axioms(1)[OF P] publish.hyps(2)
    by (intro guarantee_broker) (metis publisher.publish_keeps snd_conv)
  moreover have "pe = None \<Longrightarrow> accepted b' m"
    using publisher.publish_ok[OF batch_publisher.axioms(1)[OF P]] publish.hyps(2) by blast
  ultimately show ?case using h by (intro sys_safe_step[OF publish.prems]) auto
next
  case (publish_batch pcs k ms b rs b' d)
  have h: "holds row_of d ms" "distinct (map ID ms)"
    using publish_batch.prems publish_batch.hyps(1) by (auto simp: sys_safe_def dest!: spec[of _ k])
  note r = batch_publisher.batch_results[OF P publish_batch.hyps(2) h(2)]
  have "guarantee row_of wf_table accepted d b d b'"
    using batch_publisher.batch_keeps[OF P] publish_batch.hyps(2) by (intro guarantee_broker) (metis snd_conv)
  moreover have "pc_ok accepted d b' (Answered (zip ms (map result_error rs)))"
    using h(1) r by (fastforce simp: holds_def in_set_zip result_error_def split: if_splits)
  ultimately show ?case by (intro sys_safe_step[OF publish_batch.prems]) auto
next
  case (settle pcs k xs m pe ys c d e d' b)
  have s: "wf_table d" "pc_ok accepted d b (Answered (xs @ (m, pe) # ys))" "delivered row_of accepted d b"
    using settle.prems settle.hyps(1)[symmetric] by (simp_all only: sys_safe_def prod.case)
  have g: "guarantee row_of wf_table accepted d b d' b"
    by (rule pgx_guarantees(3)[OF settle.hyps(2) s(1) settle.hyps(3)])
      (use s(2) in \<open>auto simp: holds_def\<close>)
  have "pc_ok accepted d b (Answered (xs @ ys))" using s(2) by (auto simp: holds_def)
  from pc_ok_kept[OF g s(1,3) this] show ?case by (intro sys_safe_step[OF settle.prems g]) auto
next
  case (settle_batch pcs k xs c d res d' b)
  have s: "wf_table d" "pc_ok accepted d b (Answered xs)"
    using settle_batch.prems settle_batch.hyps(1)[symmetric] by (simp_all only: sys_safe_def prod.case)
  have "guarantee row_of wf_table accepted d b d' b"
    by (rule pgx_guarantees(4)[OF settle_batch.hyps(2) s(1)])
      (use s(2) settle_batch.hyps(3) in \<open>fastforce simp: holds_def\<close>)+
  then show ?case by (intro sys_safe_step[OF settle_batch.prems]) auto
next
  case (crash d b pcs k)
  show ?case by (rule sys_safe_step[OF crash.prems]) auto
qed (erule sys_safe_env, simp add: insert_guarantee revive_guarantee pgx_guarantees(1,2,5)[unfolded pgx_ops])+

section \<open>A message is held by one worker at a time\<close>

fun held :: "pc \<Rightarrow> string list" where
  "held Idle = []"
| "held (Holding ms) = map ID ms"
| "held (Answered xs) = map (ID \<circ> fst) xs"

abbreviation publishing :: "Outbox list \<Rightarrow> string \<Rightarrow> bool" where
  "publishing d i \<equiv> \<exists>r. row_of d i = Some r \<and> Status r = OutboxStatusPublishing"

definition exclusive :: "Outbox list \<Rightarrow> (nat \<Rightarrow> pc) \<Rightarrow> bool" where
  "exclusive d pcs \<longleftrightarrow>
     wf_table d \<and> (\<forall>k. distinct (held (pcs k)) \<and> (\<forall>i \<in> set (held (pcs k)). publishing d i)) \<and>
     (\<forall>k k'. k \<noteq> k' \<longrightarrow> set (held (pcs k)) \<inter> set (held (pcs k')) = {})"

text \<open>A process that only drops messages, and a table that keeps what is still held.\<close>

lemma exclusive_drop:
  assumes "exclusive d pcs" "wf_table d'" "distinct hs" "set hs \<subseteq> set (held (pcs k))" "held p = hs"
    "\<And>i. publishing d i \<Longrightarrow> i \<in> set hs \<or> i \<notin> set (held (pcs k)) \<Longrightarrow> publishing d' i"
  shows "exclusive d' (pcs(k := p))"
proof -
  have e: "\<And>k. distinct (held (pcs k))" "\<And>k i. i \<in> set (held (pcs k)) \<Longrightarrow> publishing d i"
    "\<And>k k'. k \<noteq> k' \<Longrightarrow> set (held (pcs k)) \<inter> set (held (pcs k')) = {}"
    using assms(1) by (auto simp: exclusive_def)
  have "publishing d' i" if "i \<in> set (held ((pcs(k := p)) j))" for i j
  proof (cases "j = k")
    case True
    with that assms(4-6) e(2) show ?thesis by auto
  next
    case False
    with that e(2,3) assms(6) show ?thesis by (metis IntI empty_iff fun_upd_other)
  qed
  moreover have "set (held ((pcs(k := p)) j)) \<inter> set (held ((pcs(k := p)) j')) = {}" if "j \<noteq> j'" for j j'
    using that e(3)[OF that] e(3)[of k j'] e(3)[of j k] assms(4,5) by (auto split: if_splits)
  ultimately show ?thesis using assms(2,3,5) e(1) by (auto simp: exclusive_def)
qed

lemma exclusive_kept:
  assumes "exclusive d pcs" "wf_table d'" "\<And>i. publishing d i \<Longrightarrow> publishing d' i"
  shows "exclusive d' pcs"
  using exclusive_drop[OF assms(1,2), of "held (pcs k)" k "pcs k" for k] assms(1,3)
  by (auto simp: exclusive_def)

text \<open>A fetch takes rows nobody holds: they were ENQUEUED.\<close>

lemma exclusive_take:
  assumes "exclusive d pcs" "wf_table d'" "distinct (map ID ms)" "\<forall>m \<in> set ms. fetched row_of d d' m"
    "\<forall>i. i \<notin> ID ` set ms \<longrightarrow> row_of d' i = row_of d i"
  shows "exclusive d' (pcs(k := Holding ms))"
proof -
  have new: "publishing d' i" "\<not> publishing d i" if "i \<in> ID ` set ms" for i
    using that assms(4) by (auto simp: fetched_def picked_up_def)
  have old: "publishing d' i" if "publishing d i" for i
    using that new(2)[of i] assms(5) by (cases "i \<in> ID ` set ms") auto
  have e: "\<And>k. distinct (held (pcs k))" "\<And>k i. i \<in> set (held (pcs k)) \<Longrightarrow> publishing d i"
    "\<And>k k'. k \<noteq> k' \<Longrightarrow> set (held (pcs k)) \<inter> set (held (pcs k')) = {}"
    using assms(1) by (auto simp: exclusive_def)
  have "i \<notin> set (held (pcs j))" if "i \<in> ID ` set ms" for i j using e(2)[of i j] new(2)[OF that] by blast
  with e old new(1) assms(2,3) show ?thesis by (auto simp: exclusive_def)
qed

lemma rows_keep_publishing:
  "(\<And>i. rel_option Q (row_of d i) (row_of d' i)) \<Longrightarrow>
   (\<And>r r'. Q r r' \<Longrightarrow> Status r = OutboxStatusPublishing \<Longrightarrow> r' = r) \<Longrightarrow> publishing d i \<Longrightarrow> publishing d' i"
  by (metis option_rel_Some1)

lemma settled_others:
  "settles row_of i E d (err, d') \<Longrightarrow> j \<noteq> i \<Longrightarrow> row_of d' j = row_of d j"
  by (erule settles_cases) auto

lemma published_others:
  assumes "wf_table d" "wf_ctx c" "pgx_UpdateBatchToPublished rp c ids d = (res, d')" "j \<notin> set ids"
  shows "row_of d' j = row_of d j"
proof (cases res)
  case (Inl e)
  with pgx.batch_published_err[OF assms(1,2), of rp ids e d' j] assms(3,4) show ?thesis by simp
next
  case (Inr n)
  with pgx.batch_published_ok[OF assms(1,2), of rp ids n d'] assms(3,4) show ?thesis by simp
qed

lemma exclusive_wf: "exclusive d pcs \<Longrightarrow> wf_table d" "exclusive d pcs \<Longrightarrow> distinct (held (pcs k))"
  by (simp_all add: exclusive_def)

lemma exclusive_insert:
  assumes "exclusive d pcs" "wf_ctx c"
  shows "exclusive (snd (pgx_Insert rp c params d)) pcs"
proof (rule exclusive_kept[OF assms(1)])
  obtain res d' where ins: "pgx_Insert rp c params d = (res, d')" by fastforce
  note t = pgx_Insert_grows[OF exclusive_wf(1)[OF assms(1)] assms(2) ins]
  with ins show "wf_table (snd (pgx_Insert rp c params d))" by simp
  show "publishing (snd (pgx_Insert rp c params d)) i" if "publishing d i" for i
    using t that ins by (auto simp: lookup_by_def find_append)
qed

lemma exclusive_requeue:
  assumes "exclusive d pcs" "wf_ctx c"
  shows "exclusive (snd (pgx_RequeueFailed rp c d)) pcs"
  by (rule exclusive_kept[OF assms(1) table_evolves_wf[OF pgx_evolves(5) exclusive_wf(1)[OF assms(1)]]],
      rule rows_keep_publishing[OF pgx_requeue_rows]) (auto simp: maybe_requeued_def)

lemma exclusive_fetch:
  assumes "exclusive d pcs" "wf_ctx c"
  shows "pgx_FetchAndLockToPublishing rp c d = (Inr m, d') \<Longrightarrow> exclusive d' (pcs(k := Holding [m]))"
    "pgx_FetchLockAndMarkPublishing rp c n d = (Inr ms, d') \<Longrightarrow> exclusive d' (pcs(k := Holding ms))"
    "pgx_FetchAndLockToPublishing rp c d = (Inl e, d') \<Longrightarrow> exclusive d' pcs"
    "pgx_FetchLockAndMarkPublishing rp c n d = (Inl e, d') \<Longrightarrow> exclusive d' pcs"
proof -
  note d = exclusive_wf(1)[OF assms(1)]
  note f = pgx.fetch_ok[OF d assms(2), of rp, unfolded pgx_ops] pgx.batch_fetch_ok[OF d assms(2), of rp, unfolded pgx_ops]
    pgx.fetch_err[OF d assms(2), of rp, unfolded pgx_ops] pgx.batch_fetch_err[OF d assms(2), of rp, unfolded pgx_ops]
  have wf: "pgx_FetchAndLockToPublishing rp c d = (x, d') \<Longrightarrow> wf_table d'"
    "pgx_FetchLockAndMarkPublishing rp c n d = (y, d') \<Longrightarrow> wf_table d'" for x y
    using table_evolves_wf[OF pgx_evolves(1)[OF d] d, of rp c] table_evolves_wf[OF pgx_evolves(6)[OF d] d, of rp c n]
    by simp_all
  show "pgx_FetchAndLockToPublishing rp c d = (Inr m, d') \<Longrightarrow> exclusive d' (pcs(k := Holding [m]))"
    by (rule exclusive_take[OF assms(1)]) (use f(1) wf(1) in auto)
  show "pgx_FetchLockAndMarkPublishing rp c n d = (Inr ms, d') \<Longrightarrow> exclusive d' (pcs(k := Holding ms))"
    by (rule exclusive_take[OF assms(1)]) (use f(2) wf(2) in auto)
  show "pgx_FetchAndLockToPublishing rp c d = (Inl e, d') \<Longrightarrow> exclusive d' pcs"
    by (rule exclusive_kept[OF assms(1)], erule wf(1), rule rows_keep_publishing[OF f(3)]) (auto simp: maybe_picked_up_def)
  show "pgx_FetchLockAndMarkPublishing rp c n d = (Inl e, d') \<Longrightarrow> exclusive d' pcs"
    by (rule exclusive_kept[OF assms(1)], erule wf(2), rule rows_keep_publishing[OF f(4)]) (auto simp: maybe_picked_up_def)
qed

lemma exclusive_answer:
  assumes "exclusive d pcs" "pcs k = Holding ms"
  shows "exclusive d (pcs(k := Answered (zip ms es)))"
proof -
  let ?hs = "map (ID \<circ> fst) (zip ms es)"
  have "?hs = take (length es) (map ID ms)" by (simp add: map_fst_zip_take take_map min_def flip: map_map)
  with exclusive_wf(2)[OF assms(1), of k] assms(2) have "set ?hs \<subseteq> set (held (pcs k))" "distinct ?hs"
    by (auto dest: in_set_takeD)
  then show ?thesis
    by (intro exclusive_drop[OF assms(1) exclusive_wf(1)[OF assms(1)], where hs = ?hs]) auto
qed

lemma exclusive_settle:
  assumes "exclusive d pcs" "wf_ctx c" "pcs k = Answered (xs @ (m, pe) # ys)"
    "write_result (pgx_repository rp) c m pe d = (e, d')"
  shows "exclusive d' (pcs(k := Answered (xs @ ys)))"
proof -
  note d = exclusive_wf(1)[OF assms(1)]
  have s: "settles row_of (ID m) (settled_as m pe) d (e, d')"
    using outbox_repository.write_result_settles[OF pgx.outbox_repository_axioms[of rp] d assms(2), of m pe]
      assms(4) by simp
  have "wf_table d'"
    using pgx.published_inv[OF d assms(2), of rp] pgx.failed_inv[OF d assms(2), of rp]
      pgx.dead_inv[OF d assms(2), of rp] assms(4)
    by (auto simp: write_result_def split: option.splits if_splits) (metis snd_conv)+
  let ?hs = "held (Answered (xs @ ys))"
  have h: "distinct ?hs" "ID m \<notin> set ?hs" "set (held (pcs k)) = insert (ID m) (set ?hs)"
    using exclusive_wf(2)[OF assms(1), of k] assms(3) by auto
  have "publishing d' i" if "publishing d i" "i \<in> set ?hs \<or> i \<notin> set (held (pcs k))" for i
    using that h(2,3) settled_others[OF s, of i] by (cases "i = ID m") auto
  with \<open>wf_table d'\<close> h(1,3) show ?thesis by (intro exclusive_drop[OF assms(1), where hs = ?hs]) auto
qed

lemma exclusive_settle_batch:
  assumes "exclusive d pcs" "wf_ctx c" "pcs k = Answered xs"
    "pgx_UpdateBatchToPublished rp c (map (ID \<circ> fst) (filter F xs)) d = (res, d')"
  shows "exclusive d' (pcs(k := Idle))"
proof (rule exclusive_drop[OF assms(1), where hs = "[]"])
  show "wf_table d'"
    using table_evolves_wf[OF pgx_evolves(7) exclusive_wf(1)[OF assms(1)], of rp c] assms(4) by (metis snd_conv)
  show "publishing d' i" if "publishing d i" "i \<in> set [] \<or> i \<notin> set (held (pcs k))" for i
    using published_others[OF exclusive_wf(1)[OF assms(1)] assms(2,4), of i] that assms(3) by fastforce
qed simp_all

lemma exclusive_preserved:
  "sys_step False rp P s s' \<Longrightarrow> exclusive (fst s) (snd (snd s)) \<Longrightarrow> exclusive (fst s') (snd (snd s'))"
proof (induction rule: sys_step.induct)
  case (publish pcs k m b pe b' d)
  with exclusive_answer[of d pcs k "[m]" "[pe]"] show ?case by (simp del: fun_upd_apply)
next
  case (crash d b pcs k)
  then have "exclusive d (pcs(k := Idle))"
    by (intro exclusive_drop[of d pcs d "[]" k]) (auto intro: exclusive_wf)
  then show ?case by (simp del: fun_upd_apply)
qed (simp_all only: fst_conv snd_conv, (blast intro: exclusive_insert exclusive_requeue exclusive_fetch
      exclusive_answer exclusive_settle exclusive_settle_batch)+)


section \<open>The dispatcher's code is one of these processes\<close>

text \<open>
  C2: an iteration of a dispatcher's worker, with any other processes running between its fetch
  and its publish and between the publish and the write of its result, is a run of the concurrent system in which process \<open>k\<close>
  starts and ends idle; so whatever holds of all runs of the system holds of the code.
\<close>

theorem processOne_refines:
  assumes p: "processOne (start_worker cfg (pgx_repository rp) P) it s = (err, s')"
    and ctx: "wf_ctx (fetchCtx it)" "wf_ctx (cleanupCtx it)" and k: "pcs k = Idle"
    and others: "\<And>m d d\<^sub>1 b\<^sub>1 pe b. pgx_FetchAndLockToPublishing rp (fetchCtx it) (db s) = (Inr m, d) \<Longrightarrow>
      beforePublish it d (broker s) = (d\<^sub>1, b\<^sub>1) \<Longrightarrow> Publish P m b\<^sub>1 = (pe, b) \<Longrightarrow>
      \<exists>pcs\<^sub>1 pcs\<^sub>2. (sys_step recover rp P)\<^sup>*\<^sup>* (d, broker s, pcs(k := Holding [m])) (d\<^sub>1, b\<^sub>1, pcs\<^sub>1(k := Holding [m])) \<and>
        (sys_step recover rp P)\<^sup>*\<^sup>* (d\<^sub>1, b, pcs\<^sub>1(k := Answered [(m, pe)]))
          (fst (meanwhile it d\<^sub>1 b), snd (meanwhile it d\<^sub>1 b), pcs\<^sub>2(k := Answered [(m, pe)]))"
  shows "\<exists>pcs'. (sys_step recover rp P)\<^sup>*\<^sup>* (db s, broker s, pcs) (db s', broker s', pcs'(k := Idle))"
  using p
proof (cases rule: processOne_cases)
  case (no_message e d)
  have "sys_step recover rp P (db s, broker s, pcs) (db s', broker s', pcs)"
    using no_message by (auto intro!: sys_step.fetch_err[OF ctx(1)])
  moreover have "pcs = pcs(k := Idle)" using k by auto
  ultimately show ?thesis by (metis r_into_rtranclp)
next
  case (published m d d1 b1 pe b d' b' e)
  have "sys_step recover rp P (db s, broker s, pcs) (d, broker s, pcs(k := Holding [m]))"
    using published(1) k ctx(1) by (intro sys_step.fetch[where k = k and c = "fetchCtx it"]) simp_all
  moreover obtain pcs1 pcs' where
    "(sys_step recover rp P)\<^sup>*\<^sup>* (d, broker s, pcs(k := Holding [m])) (d1, b1, pcs1(k := Holding [m]))"
    "(sys_step recover rp P)\<^sup>*\<^sup>* (d1, b, pcs1(k := Answered [(m, pe)])) (d', b', pcs'(k := Answered [(m, pe)]))"
    using others[of m d d1 b1 pe b] published(1-4) by auto
  moreover have "sys_step recover rp P (d1, b1, pcs1(k := Holding [m])) (d1, b, pcs1(k := Answered [(m, pe)]))"
    using sys_step.publish[of "pcs1(k := Holding [m])" k m P b1 pe b] published(3) by simp
  moreover have "sys_step recover rp P (d', b', pcs'(k := Answered [(m, pe)])) (db s', broker s', pcs'(k := Answered []))"
    using sys_step.settle[of "pcs'(k := Answered [(m, pe)])" k "[]" m pe "[]" "cleanupCtx it"] ctx(2) published(5,6)
    by simp
  moreover have "sys_step recover rp P (db s', broker s', pcs'(k := Answered [])) (db s', broker s', pcs'(k := Idle))"
    using sys_step.crash[of recover rp P "db s'" "broker s'" "pcs'(k := Answered [])" k] by simp
  ultimately show ?thesis by (meson converse_rtranclp_into_rtranclp rtranclp_trans rtranclp.rtrancl_into_rtrancl)
qed

text \<open>What the others do in between is a run of the system that leaves process \<open>k\<close> where it is.\<close>

definition others_run ::
  "bool \<Rightarrow> pgx_repo \<Rightarrow> ('w, 'p) BatchPublisher_scheme \<Rightarrow> nat \<Rightarrow> (Outbox list \<Rightarrow> 'w \<Rightarrow> Outbox list \<times> 'w) \<Rightarrow> bool" where
  "others_run recover rp P k f \<longleftrightarrow>
     (\<forall>d b pcs. \<exists>pcs'. pcs' k = pcs k \<and> (sys_step recover rp P)\<^sup>*\<^sup>* (d, b, pcs) (fst (f d b), snd (f d b), pcs'))"

lemma interfere_run:
  assumes "others_run recover rp P k (b_meanwhile it i)"
  obtains pcs' where "pcs' k = pcs k"
    "(sys_step recover rp P)\<^sup>*\<^sup>* (db s, broker s, pcs) (db (interfere it i s), broker (interfere it i s), pcs')"
proof -
  from assms obtain pcs' where "pcs' k = pcs k" "(sys_step recover rp P)\<^sup>*\<^sup>* (db s, broker s, pcs)
      (fst (b_meanwhile it i (db s) (broker s)), snd (b_meanwhile it i (db s) (broker s)), pcs')"
    unfolding others_run_def by blast
  then show thesis by (intro that) (simp_all add: interfere_def split_beta)
qed

abbreviation succeeded :: "Outbox list \<Rightarrow> (Outbox \<times> goerr option) list" where
  "succeeded ms \<equiv> map (\<lambda>m. (m, None)) ms"

text \<open>The loop over the results settles the failures one by one and keeps the successes in hand.\<close>

lemma handle_results_run:
  assumes bd: "bd = start_batch_dispatcher cfg (pgx_repository rp) P"
    and ctx: "\<And>i. wf_ctx (b_failureCtx it i)" and others: "\<And>i. others_run recover rp P k (b_meanwhile it i)"
    and "handle_results bd it msgs i results acc n s = (Inr (sm, fc), s')"
    and "pcs k = Answered (succeeded acc @ zip (drop i msgs) (map result_error results))"
  shows "\<exists>pcs'. (sys_step recover rp P)\<^sup>*\<^sup>* (db s, broker s, pcs) (db s', broker s', pcs') \<and>
    pcs' k = Answered (succeeded sm)"
  using assms(4,5)
proof (induction results arbitrary: i acc n s pcs)
  case Nil
  then show ?case by auto
next
  case (Cons r rs)
  have i: "i < length msgs" and d: "drop i msgs = msgs ! i # drop (Suc i) msgs"
    using Cons.prems(1) by (auto simp: Cons_nth_drop_Suc not_le split: if_splits)
  show ?case
  proof (cases "Success r")
    case True
    with Cons.prems i d show ?thesis
      by (intro Cons.IH[of "Suc i" "acc @ [msgs ! i]" n]) (auto simp: result_error_def)
  next
    case False
    obtain res s1 where b: "batch_handlePublishFailure bd it i (msgs ! i) (ResultError r) s = (res, s1)" by fastforce
    with Cons.prems(1) i False have res: "\<exists>u. res = Inr u"
      and hr: "handle_results bd it msgs (Suc i) rs acc (n + 1) s1 = (Inr (sm, fc), s')"
      by (auto simp: Let_def split: sum.splits)
    obtain e where e: "ResultError r = Some e"
      using b res by (cases "ResultError r") (auto simp: batch_handlePublishFailure_def)
    have re: "result_error r = Some e" using False e by (simp add: result_error_def)
    note f = batch_failure_db[OF b[unfolded e]]
    let ?ys = "zip (drop (Suc i) msgs) (map result_error rs)"
    obtain pcs1 where p1: "pcs1 k = pcs k"
      "(sys_step recover rp P)\<^sup>*\<^sup>* (db s, broker s, pcs) (db (interfere it i s), broker (interfere it i s), pcs1)"
      by (rule interfere_run[OF others])
    have "sys_step recover rp P (db (interfere it i s), broker (interfere it i s), pcs1)
        (db s1, broker s1, pcs1(k := Answered (succeeded acc @ ?ys)))"
    proof -
      have "pcs1 k = Answered (succeeded acc @ (msgs ! i, Some e) # ?ys)"
        using p1(1) Cons.prems(2) d re by simp
      moreover have "write_result (pgx_repository rp) (b_failureCtx it i) (msgs ! i) (Some e) (db (interfere it i s)) =
          (fst (write_result (pgx_repository rp) (b_failureCtx it i) (msgs ! i) (Some e) (db (interfere it i s))), db s1)"
        using f bd by simp
      ultimately show ?thesis using sys_step.settle[of pcs1 k "succeeded acc" "msgs ! i" "Some e" ?ys] ctx[of i] f by metis
    qed
    moreover obtain pcs' where "(sys_step recover rp P)\<^sup>*\<^sup>* (db s1, broker s1, pcs1(k := Answered (succeeded acc @ ?ys)))
        (db s', broker s', pcs')" "pcs' k = Answered (succeeded sm)"
      using Cons.IH[OF hr, of "pcs1(k := Answered (succeeded acc @ ?ys))"] by (metis fun_upd_same)
    ultimately show ?thesis using p1(2) by (meson converse_rtranclp_into_rtranclp rtranclp_trans)
  qed
qed

lemma mark_batch_run:
  assumes bd: "bd = start_batch_dispatcher cfg (pgx_repository rp) P"
    and ctx: "wf_ctx (b_successCtx it)" and others: "\<And>i. others_run recover rp P k (b_meanwhile it i)"
    and pcs: "pcs k = Answered (succeeded sm)"
  shows "\<exists>pcs'. (sys_step recover rp P)\<^sup>*\<^sup>* (db s, broker s, pcs)
    (db (mark_batch_published bd it n sm s), broker (mark_batch_published bd it n sm s), pcs') \<and> pcs' k = Idle"
proof -
  have ids: "map (ID \<circ> fst) (filter (\<lambda>(m, pe). pe = None) (succeeded sm)) = map ID sm" by (induction sm) auto
  have mark: "sys_step recover rp P (d, b, q) (snd (pgx_UpdateBatchToPublished rp (b_successCtx it) (map ID sm) d), b, q(k := Idle))"
    if "q k = Answered (succeeded sm)" for d b q
    using sys_step.settle_batch[of q k "succeeded sm" "b_successCtx it" rp d] that ctx ids by (metis prod.collapse)
  show ?thesis
  proof (cases "sm = []")
    case True
    with mark[of pcs "db s" "broker s"] pcs show ?thesis
      by (auto simp: mark_batch_published_def pgx_UpdateBatchToPublished_def intro!: exI[of _ "pcs(k := Idle)"])
  next
    case False
    obtain pcs1 where p1: "pcs1 k = pcs k"
      "(sys_step recover rp P)\<^sup>*\<^sup>* (db s, broker s, pcs) (db (interfere it n s), broker (interfere it n s), pcs1)"
      by (rule interfere_run[OF others])
    with mark[of pcs1 "db (interfere it n s)" "broker (interfere it n s)"] pcs False bd show ?thesis
      by (intro exI[of _ "pcs1(k := Idle)"]) (auto simp: mark_batch_published_db elim: rtranclp.rtrancl_into_rtrancl)
  qed
qed

text \<open>
  C3: likewise for a batch: the fetch of a batch, its publication, the failures written one by
  one and the successes in one statement, with any other processes running before the publication and before each write, are
  a run of the concurrent system in which process \<open>k\<close> starts and ends idle.
\<close>

theorem processBatch_refines:
  assumes p: "processBatch (start_batch_dispatcher cfg (pgx_repository rp) P) it s = (Inr n, s')"
    and ctx: "wf_ctx (b_fetchCtx it)" "\<And>i. wf_ctx (b_failureCtx it i)" "wf_ctx (b_successCtx it)"
    and k: "pcs k = Idle" and before: "others_run recover rp P k (b_beforePublish it)"
    and others: "\<And>i. others_run recover rp P k (b_meanwhile it i)"
  shows "\<exists>pcs'. (sys_step recover rp P)\<^sup>*\<^sup>* (db s, broker s, pcs) (db s', broker s', pcs'(k := Idle))"
proof -
  let ?bd = "start_batch_dispatcher cfg (pgx_repository rp) P" and ?st = "sys_step recover rp P"
  obtain fr d where f: "pgx_FetchLockAndMarkPublishing rp (b_fetchCtx it) (b_BatchSize cfg) (db s) = (fr, d)" by fastforce
  have cfg: "bd_config ?bd = cfg" by (simp add: start_batch_dispatcher_def)
  consider (error) e where "fr = Inl e" | (batch) ms where "fr = Inr ms" by (cases fr) auto
  then show ?thesis
  proof cases
    case error
    then have "?st (db s, broker s, pcs) (db s', broker s', pcs)"
      using p f sys_step.fetch_batch_err[OF ctx(1), of rp "b_BatchSize cfg" "db s" e d] by (auto simp: processBatch_def cfg)
    moreover have "pcs = pcs(k := Idle)" using k by auto
    ultimately show ?thesis by (metis r_into_rtranclp)
  next
    case batch
    have fetch: "?st (db s, broker s, pcs) (d, broker s, pcs(k := Holding ms))"
      using f batch k ctx(1) by (intro sys_step.fetch_batch[where k = k and c = "b_fetchCtx it"]) simp_all
    show ?thesis
    proof (cases "ms = []")
      case True
      have crash: "?st (d, broker s, pcs(k := Holding ms)) (d, broker s, pcs(k := Idle))"
        using sys_step.crash[of recover rp P d "broker s" "pcs(k := Holding ms)" k] by simp
      have "db s' = d" "broker s' = broker s" using p f batch True by (auto simp: processBatch_def cfg)
      with converse_rtranclp_into_rtranclp[where r = ?st, OF fetch r_into_rtranclp[where r = ?st, OF crash]]
      show ?thesis by auto
    next
      case False
      obtain d1 b1 where bp: "b_beforePublish it d (broker s) = (d1, b1)" by fastforce
      obtain rs b where pb: "PublishBatch P ms b1 = (rs, b)" by fastforce
      define s1 where "s1 = (log_events (callOnBatchPublishStart (b_Hooks cfg) ms) (s\<lparr>db := d\<rparr>))\<lparr>db := d1, broker := b\<rparr>"
      have s1: "db s1 = d1" "broker s1 = b" by (simp_all add: s1_def)
      obtain sm fc s2 where hr: "handle_results ?bd it ms 0 rs [] 0 s1 = (Inr (sm, fc), s2)"
        and s': "db s' = db (mark_batch_published ?bd it (length rs) sm s2)"
          "broker s' = broker (mark_batch_published ?bd it (length rs) sm s2)"
        using p f batch False bp pb by (auto simp: processBatch_def cfg Let_def s1_def split: prod.splits sum.splits)
      obtain q0 where q0: "q0 k = Holding ms" "?st\<^sup>*\<^sup>* (d, broker s, pcs(k := Holding ms)) (d1, b1, q0)"
        using before bp unfolding others_run_def by (metis fst_conv fun_upd_same snd_conv)
      let ?q = "q0(k := Answered (zip ms (map result_error rs)))"
      have publish: "?st (d1, b1, q0) (d1, b, ?q)"
        using sys_step.publish_batch[of q0 k ms P b1 rs b] pb q0(1) by simp
      obtain q1 where q1: "?st\<^sup>*\<^sup>* (d1, b, ?q) (db s2, broker s2, q1)" "q1 k = Answered (succeeded sm)"
        using handle_results_run[OF refl ctx(2) others hr, of ?q] s1 by auto
      obtain q2 where q2: "?st\<^sup>*\<^sup>* (db s2, broker s2, q1) (db s', broker s', q2)" "q2 k = Idle"
        using mark_batch_run[where pcs = q1 and k = k and s = s2 and n = "length rs", OF refl ctx(3) others q1(2)] s' by auto
      have "q2 = q2(k := Idle)" using q2(2) by auto
      with converse_rtranclp_into_rtranclp[OF fetch rtranclp_trans[OF q0(2)
          converse_rtranclp_into_rtranclp[OF publish rtranclp_trans[OF q1(1) q2(1)]]]]
      show ?thesis by metis
    qed
  qed
qed

section \<open>Properties of every run\<close>

lemma same_message_input:
  assumes "same_message x r"
  shows "buildSendMessageInput q x = buildSendMessageInput q r"
proof -
  have f: "ID x = ID r" "EventType x = EventType r" "Payload x = Payload r" "Metadata x = Metadata r"
    "IdempotencyKey x = IdempotencyKey r" using assms by (simp_all add: same_message_def)
  show ?thesis unfolding buildSendMessageInput_def buildMessageAttributes_def f ..
qed

text \<open>
  C1: at-least-once delivery.  With any number of writers, workers, batch workers, requeue
  loops and recovery jobs interleaved in any way, with any of their calls failing, their
  replies lost and their processes crashing, a row that is marked PUBLISHED has been taken over
  by SQS, on the queue its event type is routed to and with the content of the row.
\<close>

theorem system_delivers:
  assumes sqs: "sqs_fanout C stored sched"
    and run: "(sys_step recover rp (NewMultiBatchPublisher C (QueueURL router) sched))\<^sup>*\<^sup>*
      (d\<^sub>0, b\<^sub>0, \<lambda>_. Idle) (d, b, pcs)"
    and init: "wf_table d\<^sub>0" "\<forall>r \<in> set d\<^sub>0. Status r \<noteq> OutboxStatusPublished"
    and r: "row_of d i = Some r" "Status r = OutboxStatusPublished"
  shows "stored b (buildSendMessageInput (QueueURL router (EventType r)) r)"
proof -
  let ?acc = "sqs_accepted stored (QueueURL router)" and ?P = "NewMultiBatchPublisher C (QueueURL router) sched"
  have P: "batch_publisher ?P ?acc" by (rule sqs_fanout.fanout_contract[OF sqs])
  have "sys_safe ?acc (d\<^sub>0, b\<^sub>0, \<lambda>_. Idle)"
    using init by (auto simp: sys_safe_def delivered_def dest: lookup_by_SomeD)
  with run have "sys_safe ?acc (d, b, pcs)"
    by (induction rule: rtranclp_induct) (blast intro: sys_safe_preserved[OF P])+
  then obtain x where "same_message x r" "?acc b x" using r unfolding sys_safe_def delivered_def by blast
  then show ?thesis using same_message_input[of x r] by (simp add: sqs_accepted_def same_message_def)
qed

text \<open>
  C5: mutual exclusion.  As long as no recovery job runs, a message is in the hands of at most
  one worker, whatever is interleaved: the messages two workers hold are disjoint, and each
  of them is in PUBLISHING, so no other fetch can take it.
\<close>

theorem system_exclusive:
  assumes "(sys_step False rp P)\<^sup>*\<^sup>* (d\<^sub>0, b\<^sub>0, \<lambda>_. Idle) (d, b, pcs)" "wf_table d\<^sub>0"
  shows "(k \<noteq> k' \<longrightarrow> set (held (pcs k)) \<inter> set (held (pcs k')) = {}) \<and> distinct (held (pcs k)) \<and>
    (\<forall>i \<in> set (held (pcs k)). \<exists>r. row_of d i = Some r \<and> Status r = OutboxStatusPublishing)"
proof -
  have "exclusive d\<^sub>0 (\<lambda>_. Idle)" using assms(2) by (simp add: exclusive_def)
  then have "exclusive (fst (d\<^sub>0, b\<^sub>0, \<lambda>_. Idle)) (snd (snd (d\<^sub>0, b\<^sub>0, \<lambda>_. Idle)))" by simp
  with assms(1) have "exclusive (fst (d, b, pcs)) (snd (snd (d, b, pcs)))"
    by (induction rule: rtranclp_induct) (blast intro: exclusive_preserved)+
  then show ?thesis by (simp add: exclusive_def)
qed

section \<open>A concrete run\<close>

lemma sample_sent:
  "\<exists>b. Publish sample_publisher sample_picked sample_broker = (None, b)"
  by (simp add: NewMultiBatchPublisher_def MultiBatchPublisher_Publish_def service_client_def service_send_def
      next_answer_def too_large_def blen_def MaxSQSMessageSize_def sample_row_def Let_def)

lemma sample_write:
  "write_result (pgx_repository sample_repo) (sample_ctx 9) sample_picked None [sample_picked] =
     (None, [sample_picked\<lparr>Status := OutboxStatusPublished\<rparr>])"
  using sample_publish by (simp add: write_result_def pgx_repository_def sample_row_def)

lemma sample_run:
  assumes "Publish sample_publisher sample_picked sample_broker = (None, b)"
  shows "(sys_step False sample_repo sample_publisher)\<^sup>*\<^sup>*
      ([sample_row OutboxStatusEnqueued 1], sample_broker, \<lambda>_. Idle)
      ([sample_picked], b, (\<lambda>_. Idle)(3 := Answered [(sample_picked, None)]))" (is ?answered)
    and "(sys_step False sample_repo sample_publisher)\<^sup>*\<^sup>*
      ([sample_row OutboxStatusEnqueued 1], sample_broker, \<lambda>_. Idle)
      ([sample_picked\<lparr>Status := OutboxStatusPublished\<rparr>], b, (\<lambda>_. Idle)(3 := Answered []))" (is ?settled)
proof -
  let ?st = "sys_step False sample_repo sample_publisher" and ?p = "\<lambda>p. (\<lambda>_. Idle)(3 := p)"
  have "?st ([sample_row OutboxStatusEnqueued 1], sample_broker, \<lambda>_. Idle) ([sample_picked], sample_broker, ?p (Holding [sample_picked]))"
    using sample_fetch by (intro sys_step.fetch[where c = "sample_ctx 9"]) simp_all
  moreover have "?st ([sample_picked], sample_broker, ?p (Holding [sample_picked])) ([sample_picked], b, ?p (Answered [(sample_picked, None)]))"
    using sys_step.publish[of "?p (Holding [sample_picked])" 3 sample_picked sample_publisher sample_broker None b] assms by simp
  ultimately show ?answered by (meson converse_rtranclp_into_rtranclp r_into_rtranclp)
  moreover have "?st ([sample_picked], b, ?p (Answered [(sample_picked, None)]))
      ([sample_picked\<lparr>Status := OutboxStatusPublished\<rparr>], b, ?p (Answered []))"
    using sys_step.settle[of "?p (Answered [(sample_picked, None)])" 3 "[]" sample_picked None "[]" "sample_ctx 9" sample_repo]
      sample_write by simp
  ultimately show ?settled by (rule rtranclp.rtrancl_into_rtrancl)
qed

theorem system_delivers_witness:
  "\<exists>b. service_stored b (buildSendMessageInput ''https://orders'' (sample_picked\<lparr>Status := OutboxStatusPublished\<rparr>))"
proof -
  obtain b where b: "Publish sample_publisher sample_picked sample_broker = (None, b)" using sample_sent by blast
  let ?r = "sample_picked\<lparr>Status := OutboxStatusPublished\<rparr>"
  have "row_of [?r] ''u1'' = Some ?r" by (simp add: lookup_by_def sample_row_def)
  from system_delivers[OF service.sqs_fanout_axioms sample_run(2)[OF b] sample_wf(2) _ this]
  have "service_stored b (buildSendMessageInput (QueueURL sample_router ''order.created'') ?r)"
    by (simp add: sample_row_def)
  then show ?thesis by (auto simp: QueueURL_def Register_def)
qed

theorem system_exclusive_witness:
  "\<exists>b pcs. (sys_step False sample_repo sample_publisher)\<^sup>*\<^sup>*
      ([sample_row OutboxStatusEnqueued 1], sample_broker, \<lambda>_. Idle) ([sample_picked], b, pcs) \<and>
     held (pcs 3) = [''u1''] \<and> ''u1'' \<notin> set (held (pcs 5))"
proof -
  obtain b where b: "Publish sample_publisher sample_picked sample_broker = (None, b)" using sample_sent by blast
  let ?pcs = "(\<lambda>_. Idle)(3 :: nat := Answered [(sample_picked, None)])"
  have "held (?pcs 3) = [''u1'']" by (simp add: sample_row_def)
  with system_exclusive[OF sample_run(1)[OF b] sample_wf(2), of 3 5] have "''u1'' \<notin> set (held (?pcs 5))" by simp
  with sample_run(1)[OF b] \<open>held (?pcs 3) = [''u1'']\<close> show ?thesis by blast
qed

theorem processOne_refines_witness:
  "\<exists>(s' :: (Outbox list, sqs_service) world) pcs. db s' = [sample_picked\<lparr>Status := OutboxStatusPublished\<rparr>] \<and>
     (sys_step True sample_repo sample_publisher)\<^sup>*\<^sup>*
       ([sample_row OutboxStatusEnqueued 1], sample_broker, \<lambda>_. Idle) (db s', broker s', pcs(3 := Idle))"
proof -
  let ?w = "start_worker DefaultDispatcherConfig (pgx_repository sample_repo) sample_publisher"
  let ?s = "\<lparr>db = [sample_row OutboxStatusEnqueued 1], broker = sample_broker, trace = [], lastProcessedAt = None\<rparr>"
  obtain err s' where p: "processOne ?w sample_iteration ?s = (err, s')" by fastforce
  have "db s' = [sample_picked\<lparr>Status := OutboxStatusPublished\<rparr>]"
    using p
    by (cases rule: processOne_cases) (use sample_fetch sample_sent sample_write in auto)
  moreover have "\<exists>pcs'. (sys_step True sample_repo sample_publisher)\<^sup>*\<^sup>* (db ?s, broker ?s, \<lambda>_. Idle)
      (db s', broker s', pcs'(3 := Idle))"
    by (rule processOne_refines[OF p]) auto
  ultimately show ?thesis by (intro exI[of _ s']) (simp del: fun_upd_apply)
qed

theorem processBatch_refines_witness:
  "\<exists>n (s' :: (Outbox list, sqs_service) world) pcs.
     processBatch (start_batch_dispatcher DefaultBatchDispatcherConfig (pgx_repository sample_repo) sample_publisher)
       sample_batch_iteration sample_world = (Inr n, s') \<and>
     (sys_step True sample_repo sample_publisher)\<^sup>*\<^sup>* (db sample_world, broker sample_world, \<lambda>_. Idle)
       (db s', broker s', pcs(3 := Idle))"
proof -
  let ?bd = "start_batch_dispatcher DefaultBatchDispatcherConfig (pgx_repository sample_repo) sample_publisher"
  obtain res s' where p: "processBatch ?bd sample_batch_iteration sample_world = (res, s')" by fastforce
  have "batch_iteration_ok row_of wf_table wf_ctx acc sample_batch_iteration" for acc
    by (simp add: batch_iteration_ok_def sample_batch_iteration_def)
  with service.pgx_fanout.processBatch_guarantee[OF _ _ _ p] obtain n where n: "res = Inr n"
    by (auto simp: sample_delivered)
  have "others_run True sample_repo sample_publisher 3 (b_meanwhile sample_batch_iteration i)" for i
    by (auto simp: others_run_def sample_batch_iteration_def)
  moreover have "others_run True sample_repo sample_publisher 3 (b_beforePublish sample_batch_iteration)"
    by (auto simp: others_run_def sample_batch_iteration_def)
  ultimately obtain pcs where
    "(sys_step True sample_repo sample_publisher)\<^sup>*\<^sup>* (db sample_world, broker sample_world, \<lambda>_. Idle)
       (db s', broker s', pcs(3 := Idle))"
    using processBatch_refines[OF p[unfolded n], of "\<lambda>_. Idle" 3 True]
    by (auto simp: sample_batch_iteration_def)
  with p n show ?thesis by blast
qed

end
