(* ===== verification/Progress.thy ===== *)
theory Progress
  imports Interleaving
begin

text \<open>
  Progress: what the workers, the requeue loop and the recovery job achieve together.  A run
  is an infinite sequence of turns taken by writers, any number of workers, requeue loops and
  recovery jobs on one table, with any failure of a database call, any answer of the publisher,
  and other processes taking any steps of the life cycle while a worker is publishing; the
  turns of a fair run come back again and again.  Every step of a row lowers its weight, so a
  message can only be postponed finitely often.
\<close>

section \<open>The weight of a row\<close>

definition attempts_left :: "Outbox \<Rightarrow> nat" where
  "attempts_left r = nat (max 1 (MaxAttempts r - AttemptCount r))"

text \<open>A FAILED row with no attempt left: no operation but cleanup touches it again.\<close>

definition exhausted :: "Outbox \<Rightarrow> bool" where
  "exhausted r \<longleftrightarrow> Status r = OutboxStatusFailed \<and> MaxAttempts r \<le> AttemptCount r"

definition weight :: "Outbox \<Rightarrow> nat" where
  "weight r =
     (case Status r of
        OutboxStatusFailed \<Rightarrow> if exhausted r then 0 else 3 * attempts_left r + 2
      | OutboxStatusEnqueued \<Rightarrow> 3 * attempts_left r + 1
      | OutboxStatusPublishing \<Rightarrow> 3 * attempts_left r
      | _ \<Rightarrow> 0)"

abbreviation terminal :: "Outbox \<Rightarrow> bool" where
  "terminal r \<equiv> Status r \<in> {OutboxStatusPublished, OutboxStatusDead}"

text \<open>
  A FAILED row has a time for its next attempt, and the attempts of a row stay where the
  back-off can be computed.
\<close>

definition recoverable :: "Outbox \<Rightarrow> bool" where
  "recoverable r \<longleftrightarrow> terminal r \<or> exhausted r \<or>
     0 \<le> AttemptCount r \<and> AttemptCount r < 2 ^ 31 - 1 \<and> MaxAttempts r \<le> 44 \<and>
     (Status r = OutboxStatusFailed \<longrightarrow> NextRetryAt r \<noteq> None)"

lemma row_step_lighter: "row_step r r' \<Longrightarrow> weight r' < weight r"
  by (auto simp: weight_def attempts_left_def exhausted_def elim!: row_stepE)

lemma row_step_recoverable: "row_step r r' \<Longrightarrow> recoverable r \<Longrightarrow> recoverable r'"
  by (auto simp: recoverable_def exhausted_def elim!: row_stepE)

lemma row_steps_lighter: "row_step\<^sup>*\<^sup>* r r' \<Longrightarrow> r' = r \<or> weight r' < weight r"
  by (induction rule: rtranclp_induct) (auto dest: row_step_lighter)

lemma row_steps_recoverable: "row_step\<^sup>*\<^sup>* r r' \<Longrightarrow> recoverable r \<Longrightarrow> recoverable r'"
  by (induction rule: rtranclp_induct) (auto dest: row_step_recoverable)

lemma row_steps_frame: "row_step\<^sup>*\<^sup>* r r' \<Longrightarrow> ID r' = ID r \<and> CreatedAt r' = CreatedAt r"
  by (induction rule: rtranclp_induct) (auto simp: row_step_frame)

abbreviation progresses :: "Outbox list \<Rightarrow> Outbox list \<Rightarrow> bool" where
  "progresses \<equiv> list_all2 row_step\<^sup>*\<^sup>*"

lemma progresses_refl [simp]: "progresses d d"
  by (simp add: list_all2_refl)

lemma progresses_trans: "progresses d d' \<Longrightarrow> progresses d' d'' \<Longrightarrow> progresses d d''"
  by (rule list_all2_trans[OF rtranclp_trans])

lemma evolves_progresses: "table_evolves d d' \<Longrightarrow> progresses d d'"
  unfolding table_evolves_def by (erule list.rel_mono_strong) (auto simp: row_evolves_def)

section \<open>The backlog before a message\<close>

definition before :: "time \<Rightarrow> Outbox list \<Rightarrow> Outbox list" where
  "before t d = filter (\<lambda>r. CreatedAt r \<le> t) d"

lemma set_before: "r \<in> set (before t d) \<longleftrightarrow> r \<in> set d \<and> CreatedAt r \<le> t"
  by (auto simp: before_def)

lemma before_row: "wf_table d \<Longrightarrow> r \<in> set (before t d) \<Longrightarrow> row_of d (ID r) = Some r"
  by (simp add: set_before wf_table_ids lookup_by_eq_Some)

definition backlog :: "time \<Rightarrow> Outbox list \<Rightarrow> nat" where
  "backlog t d = sum_list (map weight (before t d))"

lemma progresses_backlog:
  assumes "progresses d d'"
  shows "backlog t d' \<le> backlog t d \<and> (backlog t d' = backlog t d \<longrightarrow> before t d' = before t d)"
  using assms
proof (induction rule: list_all2_induct)
  case (Cons r d r' d')
  then have c: "CreatedAt r' = CreatedAt r" "weight r' \<le> weight r" "weight r' = weight r \<longrightarrow> r' = r"
    by (auto dest: row_steps_frame row_steps_lighter)
  show ?case
  proof (cases "CreatedAt r \<le> t")
    case True
    with c Cons.IH show ?thesis by (auto simp: backlog_def before_def)
  next
    case False
    with c Cons.IH show ?thesis by (simp add: backlog_def before_def)
  qed
qed simp

lemma progresses_recoverable:
  assumes "progresses d d'" "list_all recoverable d"
  shows "list_all recoverable d'"
  using assms by (induction rule: list_all2_induct) (auto dest: row_steps_recoverable)

lemma settles_down:
  fixes f :: "nat \<Rightarrow> nat"
  assumes "\<And>n. f (Suc n) \<le> f n"
  obtains N where "\<And>n. N \<le> n \<Longrightarrow> f n = f N"
proof -
  define v where "v = (LEAST v. v \<in> range f)"
  have "v \<in> range f" unfolding v_def by (rule LeastI_ex) blast
  then obtain N where N: "f N = v" by blast
  have "f n = f N" if "N \<le> n" for n
    using lift_Suc_antimono_le[of f, OF assms that] Least_le[of "\<lambda>v. v \<in> range f" "f n"] N v_def by auto
  then show thesis by (rule that)
qed

section \<open>Turns\<close>

datatype 'w turn =
    Write pg_ctx OutboxInsertParams
  | Poll "(pg_ctx, Outbox list, 'w) iteration"
  | Requeue pg_ctx
  | Revive pg_ctx

fun take_turn ::
  "pgx_repo \<Rightarrow> ('w, 'p) Publisher_scheme \<Rightarrow> DispatcherConfig \<Rightarrow> 'w turn \<Rightarrow>
   (Outbox list, 'w) world \<Rightarrow> (Outbox list, 'w) world" where
  "take_turn rp P cfg (Write c params) s = s\<lparr>db := snd (pgx_Insert rp c params (db s))\<rparr>"
| "take_turn rp P cfg (Poll it) s = snd (processOne (start_worker cfg (pgx_repository rp) P) it s)"
| "take_turn rp P cfg (Requeue c) s = s\<lparr>db := snd (pgx_RequeueFailed rp c (db s))\<rparr>"
| "take_turn rp P cfg (Revive c) s = s\<lparr>db := snd (pgx_ReviveStuckPublishing rp c (db s))\<rparr>"

primrec history ::
  "pgx_repo \<Rightarrow> ('w, 'p) Publisher_scheme \<Rightarrow> DispatcherConfig \<Rightarrow> (nat \<Rightarrow> 'w turn) \<Rightarrow>
   (Outbox list, 'w) world \<Rightarrow> nat \<Rightarrow> (Outbox list, 'w) world" where
  "history rp P cfg sched s 0 = s"
| "history rp P cfg sched s (Suc n) = take_turn rp P cfg (sched n) (history rp P cfg sched s n)"

text \<open>
  What other processes may do to the table: move rows along their life cycle, and add rows
  created after \<open>t\<close> that the back-off can handle.
\<close>

definition grows :: "time \<Rightarrow> Outbox list \<Rightarrow> Outbox list \<Rightarrow> bool" where
  "grows t d d' \<longleftrightarrow> wf_table d' \<and>
     (\<exists>d1 new. progresses d d1 \<and> d' = d1 @ new \<and> list_all recoverable new \<and> list_all (\<lambda>r. t < CreatedAt r) new)"

text \<open>
  What a turn may do: any call may fail, others may do anything of the above before and after
  the publish call of a poll, and messages written later have a later creation time.
\<close>

fun turn_ok :: "time \<Rightarrow> 'w turn \<Rightarrow> bool" where
  "turn_ok t (Write c params) \<longleftrightarrow> wf_ctx c \<and> t < clock c (new_uuid c) 0 \<and> p_MaxAttempts params \<le> 44"
| "turn_ok t (Poll it) \<longleftrightarrow> wf_ctx (fetchCtx it) \<and> wf_ctx (cleanupCtx it) \<and>
     (\<forall>d b. wf_table d \<longrightarrow> grows t d (fst (beforePublish it d b)) \<and> grows t d (fst (meanwhile it d b)))"
| "turn_ok t (Requeue c) \<longleftrightarrow> wf_ctx c"
| "turn_ok t (Revive c) \<longleftrightarrow> wf_ctx c"

fun undisturbed :: "'w turn \<Rightarrow> bool" where
  "undisturbed (Poll it) \<longleftrightarrow> (\<forall>d b. beforePublish it d b = (d, b) \<and> meanwhile it d b = (d, b))"
| "undisturbed _ \<longleftrightarrow> True"

text \<open>
  Fairness: again and again there is a fetch that reaches the server while no row is locked,
  and, at a time as late as one likes, a requeue and a recovery that reach the server.
\<close>

fun fair_poll :: "'w turn \<Rightarrow> bool" where
  "fair_poll (Poll it) \<longleftrightarrow> outcome (fetchCtx it) = Delivered \<and> (\<forall>i. \<not> locked (fetchCtx it) i)"
| "fair_poll _ \<longleftrightarrow> False"

fun fair_requeue :: "time \<Rightarrow> 'w turn \<Rightarrow> bool" where
  "fair_requeue t (Requeue c) \<longleftrightarrow> outcome c = Delivered \<and> (\<forall>i n. t \<le> clock c i n)"
| "fair_requeue t _ \<longleftrightarrow> False"

fun fair_revive :: "time \<Rightarrow> 'w turn \<Rightarrow> bool" where
  "fair_revive t (Revive c) \<longleftrightarrow> outcome c = Delivered \<and> (\<forall>i n. t \<le> clock c i n) \<and>
     imul_spec (imul c) \<and> (\<forall>i. 0 \<le> rnd c i \<and> rnd c i \<le> 1)"
| "fair_revive t _ \<longleftrightarrow> False"

definition fair :: "(nat \<Rightarrow> 'w turn) \<Rightarrow> bool" where
  "fair sched \<longleftrightarrow> (\<forall>n. \<exists>k \<ge> n. fair_poll (sched k)) \<and> (\<forall>n t. \<exists>k \<ge> n. fair_requeue t (sched k)) \<and>
     (\<forall>n t. \<exists>k \<ge> n. fair_revive t (sched k))"

lemma fairD:
  assumes "fair sched"
  shows "\<exists>k it. n \<le> k \<and> sched k = Poll it \<and> fair_poll (Poll it)"
    "\<exists>k c. n \<le> k \<and> sched k = Requeue c \<and> fair_requeue t (Requeue c)"
    "\<exists>k c. n \<le> k \<and> sched k = Revive c \<and> fair_revive t (Revive c)"
proof -
  obtain k where k: "n \<le> k" "fair_poll (sched k)" using assms unfolding fair_def by blast
  then show "\<exists>k it. n \<le> k \<and> sched k = Poll it \<and> fair_poll (Poll it)" by (cases "sched k") (fastforce+)
  obtain k where k: "n \<le> k" "fair_requeue t (sched k)" using assms unfolding fair_def by blast
  then show "\<exists>k c. n \<le> k \<and> sched k = Requeue c \<and> fair_requeue t (Requeue c)" by (cases "sched k") (fastforce+)
  obtain k where k: "n \<le> k" "fair_revive t (sched k)" using assms unfolding fair_def by blast
  then show "\<exists>k c. n \<le> k \<and> sched k = Revive c \<and> fair_revive t (Revive c)" by (cases "sched k") (fastforce+)
qed

section \<open>No turn adds to the backlog\<close>

lemma grows_wf: "grows t d d' \<Longrightarrow> wf_table d'"
  by (simp add: grows_def)

lemma progresses_grows:
  assumes "progresses d d'" "wf_table d'"
  shows "grows t d d'"
  using assms unfolding grows_def by (metis append_Nil2 list.pred_inject(1))

lemma evolves_grows: "table_evolves d d' \<Longrightarrow> wf_table d \<Longrightarrow> grows t d d'"
  by (simp add: progresses_grows evolves_progresses table_evolves_wf)

lemma progresses_later:
  "progresses d d' \<Longrightarrow> list_all (\<lambda>r. t < CreatedAt r) d \<Longrightarrow> list_all (\<lambda>r. t < CreatedAt r) d'"
  by (induction rule: list_all2_induct) (auto dest: row_steps_frame)

lemma grows_trans:
  assumes "grows t d d'" "grows t d' d''"
  shows "grows t d d''"
proof -
  from assms obtain d1 new d2 new' where
    g: "progresses d d1" "d' = d1 @ new" "list_all recoverable new" "list_all (\<lambda>r. t < CreatedAt r) new"
      "progresses d' d2" "d'' = d2 @ new'" "list_all recoverable new'" "list_all (\<lambda>r. t < CreatedAt r) new'" "wf_table d''"
    by (auto simp: grows_def)
  then obtain d3 d4 where d: "d2 = d3 @ d4" "progresses d1 d3" "progresses new d4"
    by (auto simp: list_all2_append1)
  have "list_all recoverable (d4 @ new')" "list_all (\<lambda>r. t < CreatedAt r) (d4 @ new')"
    using progresses_recoverable[OF d(3) g(3)] progresses_later[OF d(3) g(4)] g(7,8) by simp_all
  with progresses_trans[OF g(1) d(2)] d(1) g(6,9) show ?thesis
    unfolding grows_def by (intro conjI exI[of _ d3] exI[of _ "d4 @ new'"]) simp_all
qed

lemma write_evolves: "table_evolves d (snd (write_result (pgx_repository rp) c m pe d))"
  by (auto simp: write_result_def pgx_repository_def pgx_evolves split: option.splits)

text \<open>A poll is its fetch, followed by what the others do and the write of the result if there was a message.\<close>

lemma poll_after_fetch:
  assumes d: "wf_table (db s)" and ok: "turn_ok t (Poll it)"
  shows "grows t (snd (pgx_FetchAndLockToPublishing rp (fetchCtx it) (db s)))
    (db (take_turn rp P cfg (Poll it) s))"
proof -
  let ?w = "start_worker cfg (pgx_repository rp) P" and ?f = "snd (pgx_FetchAndLockToPublishing rp (fetchCtx it) (db s))"
  have wf: "wf_table ?f" by (rule table_evolves_wf[OF pgx_evolves(1)[OF d] d])
  obtain err s' where p: "processOne ?w it s = (err, s')" by fastforce
  from p have "grows t ?f (db s')"
  proof (cases rule: processOne_cases)
    case (published m d0 d1 b1 pe b d' b' e)
    then have g1: "grows t ?f d1" using ok wf by (metis fst_conv snd_conv start_worker_simps(1) pgx_ops(1) turn_ok.simps(2))
    then have g2: "grows t d1 d'" using ok grows_wf published(4) by (metis fst_conv turn_ok.simps(2))
    have "grows t d' (db s')"
      using evolves_grows[OF write_evolves grows_wf[OF g2], of t rp "cleanupCtx it" m pe] published(5) by simp
    with grows_trans[OF grows_trans[OF g1 g2]] show ?thesis by blast
  qed (use wf in \<open>simp add: progresses_grows\<close>)
  with p show ?thesis by simp
qed

lemma write_grows:
  assumes "wf_table d" "turn_ok t (Write c params)"
  shows "grows t d (snd (pgx_Insert rp c params d))"
proof -
  obtain res d' where ins: "pgx_Insert rp c params d = (res, d')" by fastforce
  have c: "wf_ctx c" using assms(2) by simp
  have added: "grows t d d'" if "insert_stmt c params d = Inr (d', r)" for r
  proof -
    from that have "d' = d @ [r]" "recoverable r" "t < CreatedAt r"
      using assms(2) by (auto simp: insert_stmt_def recoverable_def Let_def split: sum.splits option.splits if_splits)
    with insert_stmt_wf[OF assms(1) that] show ?thesis
      unfolding grows_def by (intro conjI exI[of _ d] exI[of _ "[r]"]) simp_all
  qed
  have same: "grows t d d" using assms(1) by (simp add: progresses_grows)
  from c ins have "grows t d d'" by (cases rule: pgx_Insert_cases) (use added same in auto)
  with ins show ?thesis by simp
qed

lemma turn_grows:
  assumes d: "wf_table (db s)" and ok: "turn_ok t u"
  shows "grows t (db s) (db (take_turn rp P cfg u s))"
proof (cases u)
  case (Poll it)
  with grows_trans[OF evolves_grows[OF pgx_evolves(1)[OF d] d] poll_after_fetch[OF d]] ok show ?thesis by blast
qed (use ok write_grows[OF d] evolves_grows[OF pgx_evolves(5) d] evolves_grows[OF pgx_evolves(8) d] in simp_all)

lemma grows_backlog:
  assumes "grows t d d'"
  shows "backlog t d' \<le> backlog t d \<and> (backlog t d' = backlog t d \<longrightarrow> before t d' = before t d)"
proof -
  from assms obtain d1 new where g: "progresses d d1" "d' = d1 @ new" "list_all (\<lambda>r. t < CreatedAt r) new"
    by (auto simp: grows_def)
  have "before t new = []" using g(3) by (auto simp: before_def filter_empty_conv list_all_iff)
  then have "before t d' = before t d1" by (simp add: g(2) before_def)
  then show ?thesis using progresses_backlog[OF g(1), of t] by (simp add: backlog_def)
qed

lemma grows_recoverable: "grows t d d' \<Longrightarrow> list_all recoverable d \<Longrightarrow> list_all recoverable d'"
  by (auto simp: grows_def dest: progresses_recoverable)

section \<open>Undisturbed polls use up no last attempt\<close>

text \<open>
  No row that could still be retried becomes FAILED without an attempt left: the worker whose
  row is not touched meanwhile knows its attempt count and gives it up as DEAD instead.
\<close>

definition spares :: "Outbox list \<Rightarrow> Outbox list \<Rightarrow> bool" where
  "spares d d' \<longleftrightarrow> (\<forall>i r. row_of d i = Some r \<longrightarrow> (\<exists>r'. row_of d' i = Some r' \<and> (exhausted r' \<longrightarrow> exhausted r)))"

lemma spares_trans: "spares d d' \<Longrightarrow> spares d' d'' \<Longrightarrow> spares d d''"
  unfolding spares_def by meson

lemma spares_rows:
  "(\<And>i. rel_option Q (row_of d i) (row_of d' i)) \<Longrightarrow> (\<And>r r'. Q r r' \<Longrightarrow> exhausted r' \<Longrightarrow> exhausted r) \<Longrightarrow> spares d d'"
  unfolding spares_def by (metis option_rel_Some1)

lemma fetch_spares:
  assumes "wf_table d" "wf_ctx c"
  shows "spares d (snd (pgx_FetchAndLockToPublishing rp c d))"
  unfolding snd_pgx_fetch
  by (rule spares_rows[OF run_fetch_effect[OF assms, of _ 1]]) (auto simp: maybe_picked_up_def picked_up_def exhausted_def)

lemma requeue_spares: "wf_table d \<Longrightarrow> spares d (snd (pgx_RequeueFailed rp c d))"
  by (rule spares_rows[OF pgx_requeue_rows]) (auto simp: maybe_requeued_def became_enqueued_def exhausted_def)

lemma revive_spares: "spares d (snd (pgx_ReviveStuckPublishing rp c d))"
proof (cases rule: run_statement_cases[of "sql_update (stuck rp c) (set_revived rp c)" d "outcome c"])
  have ids: "ID r' = ID r" if "set_revived rp c r = Inr r'" for r r'
    using that by (auto simp: set_revived_def split: sum.splits if_splits)
  have step: "spares d d'" if "sql_update (stuck rp c) (set_revived rp c) d = Inr (d', n)" for d' n
    by (rule spares_rows[OF sql_update_lookup[OF that]], erule ids)
      (auto simp: updated_row_def exhausted_def revived_def CanRetry_def split: if_splits dest!: set_revived_Inr)
  have same: "spares d d" by (auto simp: spares_def)
  {
    case answered
    with step show ?thesis by (auto simp: pgx_ReviveStuckPublishing_def rows_affected_def)
  next
    case lost
    with step show ?thesis by (auto simp: pgx_ReviveStuckPublishing_def rows_affected_def)
  next
    case refused
    with same show ?thesis by (auto simp: pgx_ReviveStuckPublishing_def rows_affected_def)
  next
    case failed
    with same show ?thesis by (auto simp: pgx_ReviveStuckPublishing_def rows_affected_def)
  }
qed

lemma write_spares:
  assumes d: "wf_table d" and c: "wf_ctx c" and m: "row_of d (ID m) = Some r1" "m = r1\<lparr>NextRetryAt := None\<rparr>"
    and r1: "AttemptCount r1 < 2 ^ 31" "0 \<le> AttemptCount r1"
  shows "spares d (snd (write_result (pgx_repository rp) c m pe d))"
proof -
  obtain e d' where w: "write_result (pgx_repository rp) c m pe d = (e, d')" by fastforce
  have "settles row_of (ID m) (settled_as m pe) d (e, d')"
    using outbox_repository.write_result_settles[OF pgx.outbox_repository_axioms[of rp] d c, of m pe] w by simp
  then have "spares d d'"
  proof (cases rule: settles_cases)
    case (effect x x')
    then have "settled_as m pe r1 x'" using m(1) by simp
    with m(2) r1 have "\<not> exhausted x'"
      by (auto simp: settled_as_def effect_defs exhausted_def WillExceedMaxAttemptsAfterFailure_def wrap64_id in_int64_def
          split: option.splits if_splits)
    with effect(4) show ?thesis by (auto simp: spares_def)
  qed (auto simp: spares_def)
  with w show ?thesis by simp
qed

lemma poll_spares:
  assumes d: "wf_table (db s)" "list_all recoverable (db s)" and ok: "turn_ok t (Poll it)" "undisturbed (Poll it)"
  shows "spares (db s) (db (take_turn rp P cfg (Poll it) s))"
proof -
  from ok have c: "wf_ctx (fetchCtx it)" "wf_ctx (cleanupCtx it)"
    "\<And>d b. beforePublish it d b = (d, b)" "\<And>d b. meanwhile it d b = (d, b)" by simp_all
  note f = fetch_spares[OF d(1) c(1), of rp]
  obtain err s' where p: "processOne (start_worker cfg (pgx_repository rp) P) it s = (err, s')" by fastforce
  from p have "spares (snd (pgx_FetchAndLockToPublishing rp (fetchCtx it) (db s))) (db s')"
  proof (cases rule: processOne_cases)
    case (published m d1 d1' b1 pe b d' b' e)
    have f: "pgx_FetchAndLockToPublishing rp (fetchCtx it) (db s) = (Inr m, d1)" using published(1) by simp
    have d1: "wf_table d1" using table_evolves_wf[OF pgx_evolves(1)[OF d(1)] d(1), of rp "fetchCtx it"] f by simp
    from pgx.fetch_ok[OF d(1) c(1) published(1)[simplified start_worker_simps]] obtain r r1 where
      r: "row_of (db s) (ID m) = Some r" "Status r = OutboxStatusEnqueued" "picked_up r r1"
        "row_of d1 (ID m) = Some r1" "m = r1\<lparr>NextRetryAt := None\<rparr>"
      by (auto simp: fetched_def)
    have "recoverable r" using d(2) r(1) by (auto simp: list_all_iff dest: lookup_by_SomeD)
    then have "AttemptCount r1 < 2 ^ 31" "0 \<le> AttemptCount r1"
      using r(2,3) by (auto simp: recoverable_def exhausted_def picked_up_def)
    from write_spares[OF d1 c(2) r(4,5) this, of rp pe] published(2,4,5) c(3,4) f
    show ?thesis by simp
  qed (simp add: spares_def)
  with spares_trans[OF f] p show ?thesis by simp
qed

lemma turn_spares:
  assumes d: "wf_table (db s)" "list_all recoverable (db s)" and ok: "turn_ok t u" "undisturbed u"
  shows "spares (db s) (db (take_turn rp P cfg u s))"
proof (cases u)
  case (Write c params)
  obtain res d' where ins: "pgx_Insert rp c params (db s) = (res, d')" by fastforce
  from pgx_Insert_grows[OF d(1) _ ins] ok Write ins show ?thesis
    by (auto simp: spares_def lookup_by_def find_append)
qed (use ok d poll_spares[OF d] requeue_spares revive_spares in simp_all)

section \<open>A fair turn moves a waiting row\<close>

lemma grows_row:
  assumes "grows t d d'" "row_of d i = Some r"
  shows "\<exists>r'. row_of d' i = Some r' \<and> row_step\<^sup>*\<^sup>* r r'"
proof -
  from assms(1) obtain d1 new where g: "progresses d d1" "d' = d1 @ new" by (auto simp: grows_def)
  have "rel_option row_step\<^sup>*\<^sup>* (row_of d i) (row_of d1 i)"
    by (rule list_all2_lookup[OF g(1)]) (auto dest: row_steps_frame)
  with assms(2) obtain r' where "row_of d1 i = Some r'" "row_step\<^sup>*\<^sup>* r r'"
    by (auto simp: option_rel_Some1)
  then show ?thesis by (auto simp: g(2) lookup_by_def find_append)
qed

lemma row_moved:
  assumes r: "row_of d i = Some r" "CreatedAt r \<le> t" and r1: "row_of d1 i = Some r1" "weight r1 < weight r"
    and g: "grows t d1 d'"
  shows "before t d' \<noteq> before t d"
proof
  assume eq: "before t d' = before t d"
  from grows_row[OF g r1(1)] r1(2) obtain r' where r': "row_of d' i = Some r'" "weight r' < weight r"
    by (auto dest: row_steps_lighter)
  have "r \<in> set (before t d)" "ID r = i" using r by (auto simp: before_def dest: lookup_by_SomeD)
  with eq have "r \<in> set d'" by (metis before_def filter_is_subset subsetD)
  with grows_wf[OF g] \<open>ID r = i\<close> have "row_of d' i = Some r" by (simp add: wf_table_ids lookup_by_eq_Some)
  with r' show False by simp
qed

lemma grows_same: "wf_table d \<Longrightarrow> grows t d d"
  by (simp add: progresses_grows)

lemma requeue_moves:
  assumes wf: "wf_table d" and c: "outcome c = Delivered"
    and r: "row_of d i = Some r" "CreatedAt r \<le> t" "Status r = OutboxStatusFailed" "recoverable r" "\<not> exhausted r"
    and due: "\<forall>j n. the (NextRetryAt r) \<le> clock c j n"
  shows "before t (snd (pgx_RequeueFailed rp c d)) \<noteq> before t d"
proof (rule row_moved[OF r(1,2)])
  let ?r = "r\<lparr>Status := OutboxStatusEnqueued, UpdatedAt := clock c (ID r) 0\<rparr>" and ?d = "snd (pgx_RequeueFailed rp c d)"
  have wf': "wf_table ?d" by (rule table_evolves_wf[OF pgx_evolves(5) wf])
  then show "grows t ?d ?d" by (rule grows_same)
  have "requeue_due c r" using r(3-5) due by (auto simp: requeue_due_def recoverable_def exhausted_def)
  then have "?r \<in> set ?d"
    using r(1) c sql_update_map[of "requeue_due c"]
    by (force simp: pgx_RequeueFailed_def rows_affected_def set_enqueued_def[abs_def] dest: lookup_by_SomeD)
  with wf' r(1) show "row_of ?d i = Some ?r" by (auto simp: wf_table_ids lookup_by_eq_Some dest: lookup_by_SomeD)
  show "weight ?r < weight r" using r(3,5) by (simp add: weight_def attempts_left_def)
qed

lemma set_revived_total:
  assumes "recoverable r" "stuck rp c r" "default_backoff rp" "fair_revive u (Revive c)"
  obtains r' where "set_revived rp c r = Inr r'"
proof -
  have a: "0 \<le> AttemptCount r" "AttemptCount r < 2 ^ 31 - 1" "MaxAttempts r \<le> 44"
    using assms(1,2) by (auto simp: recoverable_def exhausted_def stuck_def)
  have "\<exists>d. pg_backoff c (backoffBase rp) (backoffMax rp) (ID r) (AttemptCount r) = Inr d"
    if "AttemptCount r + 1 < MaxAttempts r"
    by (rule pg_backoff_default[of c rp "AttemptCount r" "ID r"]) (use that a assms(3,4) in auto)
  with a that show thesis by (fastforce simp: set_revived_def int4_def not_le)
qed

lemma revive_moves:
  assumes wf: "wf_table d" and c: "fair_revive u (Revive c)" and rp: "default_backoff rp"
    and rec: "list_all recoverable d"
    and r: "row_of d i = Some r" "CreatedAt r \<le> t" "Status r = OutboxStatusPublishing"
    and due: "UpdatedAt r + to_int64 (Seconds (stuckPublishingThreshold rp)) * 1000000 < u"
  shows "before t (snd (pgx_ReviveStuckPublishing rp c d)) \<noteq> before t d"
proof -
  obtain d' n where u: "sql_update (stuck rp c) (set_revived rp c) d = Inr (d', n)"
    using sql_update_total[of d "stuck rp c" "set_revived rp c"] set_revived_total[OF _ _ rp c] rec
    unfolding list_all_iff by metis
  with c have d': "snd (pgx_ReviveStuckPublishing rp c d) = d'"
    by (simp add: pgx_ReviveStuckPublishing_def rows_affected_def)
  have ids: "ID r' = ID r" if "set_revived rp c r = Inr r'" for r r'
    using that by (auto simp: set_revived_def split: sum.splits if_splits)
  have "stuck rp c r" using r(3) due c by (auto simp: stuck_def) (smt (verit))
  with sql_update_lookup[OF u, of ID i] ids r(1) obtain r' where
    r': "row_of d' i = Some r'" "set_revived rp c r = Inr r'"
    by (auto simp: option_rel_Some1 updated_row_def)
  have "weight r' < weight r" by (rule row_step_lighter[OF set_revived_step[OF r'(2) r(3)]])
  moreover have "wf_table d'" using table_evolves_wf[OF pgx_evolves(8) wf, of rp c] d' by simp
  ultimately show ?thesis using row_moved[OF r(1,2) r'(1) _ grows_same] d' by simp
qed

lemma fetch_takes_oldest:
  assumes wf: "wf_table d" and c: "wf_ctx c" "outcome c = Delivered" and r: "r \<in> set (available c d)"
  obtains m d' x where "pgx_FetchAndLockToPublishing rp c d = (Inr m, d')" "fetched row_of d d' m"
    "x \<in> set d" "ID x = ID m" "CreatedAt x \<le> CreatedAt r"
proof -
  let ?xs = "sort_key CreatedAt (available c d)"
  obtain d' ms where f: "fetch_stmt c 1 d = Inr (d', ms)"
    by (cases "fetch_stmt c 1 d") (auto simp: fetch_stmt_def Let_def split: sum.splits dest!: sql_update_errorD)
  note picks = fetch_stmt_picks[OF wf c(1) f] and rows = fetch_stmt_rows[OF wf c(1) f]
  from r have "?xs \<noteq> []" by (metis empty_iff empty_set set_sort)
  then obtain x where x: "take 1 ?xs = [x]" by (cases ?xs) auto
  have "length ms = 1" using picks r by (cases "available c d") auto
  then obtain m where m: "ms = [m]" by (auto simp: length_Suc_conv)
  with picks x have "ID x = ID m" by simp
  moreover have "x \<in> set ?xs" using x by (metis in_set_takeD list.set_intros(1))
  moreover have "CreatedAt x \<le> CreatedAt r"
  proof -
    have "r \<in> set (take 1 ?xs @ drop 1 ?xs)" using r by simp
    with x take_sorted_least[of x 1 CreatedAt "available c d" r] show ?thesis
      by (auto simp del: append_take_drop_id)
  qed
  moreover have "pgx_FetchAndLockToPublishing rp c d = (Inr m, d')"
    using f m c(2) by (simp add: pgx_FetchAndLockToPublishing_def)
  ultimately show thesis using that rows m by (auto simp: available_def)
qed

lemma fetch_moves:
  assumes wf: "wf_table d" and c: "wf_ctx c" "outcome c = Delivered" "\<forall>i. \<not> locked c i"
    and r: "r \<in> set d" "CreatedAt r \<le> t" "Status r = OutboxStatusEnqueued"
    and g: "grows t (snd (pgx_FetchAndLockToPublishing rp c d)) d'"
  shows "before t d' \<noteq> before t d"
proof -
  have "r \<in> set (available c d)" using r c(3) by (auto simp: available_def dest: lookup_by_SomeD)
  then obtain m d1 x where f: "pgx_FetchAndLockToPublishing rp c d = (Inr m, d1)" "fetched row_of d d1 m"
    "x \<in> set d" "ID x = ID m" "CreatedAt x \<le> CreatedAt r"
    by (rule fetch_takes_oldest[OF wf c(1,2)])
  from f(2) obtain y y1 where y: "row_of d (ID m) = Some y" "Status y = OutboxStatusEnqueued"
    "picked_up y y1" "row_of d1 (ID m) = Some y1" by (auto simp: fetched_def)
  have "y = x" using y(1) f(3,4) wf by (simp add: wf_table_ids lookup_by_eq_Some) (metis wf_table_ids lookup_by_in_set option.inject wf y(1))
  with f(5) r(2) have "CreatedAt y \<le> t" by simp
  moreover have "weight y1 < weight y" using y(2,3) by (auto simp: picked_up_def weight_def attempts_left_def)
  ultimately show ?thesis using row_moved[OF y(1) _ y(4)] g f(1) by simp
qed

section \<open>Every message is settled\<close>

lemma history_inv:
  assumes "wf_table (db s)" "list_all recoverable (db s)" "\<forall>k. turn_ok t (sched k)"
  shows "wf_table (db (history rp P cfg sched s n)) \<and> list_all recoverable (db (history rp P cfg sched s n)) \<and>
    grows t (db (history rp P cfg sched s n)) (db (history rp P cfg sched s (Suc n)))"
proof (induction n)
  case 0
  with turn_grows[OF assms(1), of t "sched 0"] assms show ?case by simp
next
  case (Suc n)
  let ?s = "history rp P cfg sched s (Suc n)"
  from Suc have d: "wf_table (db ?s)" "list_all recoverable (db ?s)"
    by (auto dest: grows_recoverable grows_wf simp del: history.simps)
  with turn_grows[OF d(1) assms(3)[rule_format, of "Suc n"], of rp P cfg] show ?case
    by (simp only: history.simps(2)[of rp P cfg sched s "Suc n"] simp_thms)
qed

lemma history_spares:
  assumes "wf_table (db s)" "list_all recoverable (db s)" "\<forall>k. turn_ok t (sched k)" "\<forall>k. undisturbed (sched k)"
    "row_of (db s) i = Some r"
  shows "\<exists>r'. row_of (db (history rp P cfg sched s n)) i = Some r' \<and> (exhausted r' \<longrightarrow> exhausted r)"
proof (induction n)
  case (Suc n)
  have "spares (db (history rp P cfg sched s n)) (db (history rp P cfg sched s (Suc n)))"
    using history_inv[OF assms(1-3), of rp P cfg n] turn_spares[of "history rp P cfg sched s n" t "sched n"] assms(3,4)
    by simp
  with Suc show ?case unfolding spares_def by blast
qed (use assms(5) in simp)

text \<open>Where nothing before \<open>t\<close> changes any more, every row before \<open>t\<close> is settled.\<close>

lemma stable_finished:
  assumes wf: "wf_table (db s)" "list_all recoverable (db s)" and ok: "\<forall>k. turn_ok t (sched k)"
    and fair: "fair sched" and rp: "default_backoff rp"
    and stable: "\<And>n. N \<le> n \<Longrightarrow> before t (db (history rp P cfg sched s n)) = before t (db (history rp P cfg sched s N))"
    and r: "r \<in> set (before t (db (history rp P cfg sched s N)))"
  shows "terminal r \<or> exhausted r"
proof (rule ccontr)
  assume live: "\<not> (terminal r \<or> exhausted r)"
  let ?h = "history rp P cfg sched s"
  have still: "before t (db (take_turn rp P cfg (sched k) (?h k))) = before t (db (?h k))" if "N \<le> k" for k
    using stable[of k] stable[of "Suc k"] that by simp
  have inv: "wf_table (db (?h k))" "list_all recoverable (db (?h k))" for k
    using history_inv[OF wf ok, of rp P cfg k] by auto
  have at: "row_of (db (?h k)) (ID r) = Some r" "r \<in> set (db (?h k))" "CreatedAt r \<le> t" if "N \<le> k" for k
    using before_row[OF inv(1), of r t k] r[folded stable[OF that]] by (auto simp: set_before)
  have rec: "recoverable r" using at(2)[of N] inv(2)[of N] by (auto simp: list_all_iff)
  consider "Status r = OutboxStatusEnqueued" | "Status r = OutboxStatusFailed" | "Status r = OutboxStatusPublishing"
    using live by (cases "Status r") auto
  then show False
  proof cases
    case 1
    obtain k it where k: "N \<le> k" "sched k = Poll it" "fair_poll (Poll it)"
      using fairD(1)[OF fair] by blast
    have "before t (db (take_turn rp P cfg (Poll it) (?h k))) \<noteq> before t (db (?h k))"
      using ok[rule_format, of k] k
      by (intro fetch_moves[OF inv(1) _ _ _ at(2,3)[OF k(1)] 1 poll_after_fetch[OF inv(1)]]) auto
    with still[OF k(1)] k(2) show False by simp
  next
    case 2
    obtain k c where k: "N \<le> k" "sched k = Requeue c" "fair_requeue (the (NextRetryAt r)) (Requeue c)"
      using fairD(2)[OF fair] by blast
    with requeue_moves[OF inv(1) _ at(1,3)[OF k(1)] 2 rec, of c rp] live still[OF k(1)] show False by simp
  next
    case 3
    let ?u = "UpdatedAt r + to_int64 (Seconds (stuckPublishingThreshold rp)) * 1000000 + 1"
    obtain k c where k: "N \<le> k" "sched k = Revive c" "fair_revive ?u (Revive c)"
      using fairD(3)[OF fair] by blast
    with revive_moves[OF inv(1) k(3) rp inv(2) at(1,3)[OF k(1)] 3] still[OF k(1)] show False by simp
  qed
qed


section \<open>A late failure strands a message\<close>

text \<open>
  Between the fetch and the write of a slow worker the recovery may revive its row and another
  worker fetch it again.  The late \<open>UpdateToFailed\<close> then counts an attempt on the row of the
  other worker, without looking at \<open>max_attempts\<close>: the row can become FAILED with no attempt
  left, which neither \<open>RequeueFailed\<close> nor any other operation ever picks up again.
\<close>

definition sample_short :: "OutboxStatus \<Rightarrow> int \<Rightarrow> Outbox" where
  "sample_short st n = (sample_row st n)\<lparr>MaxAttempts := 3, UpdatedAt := 0\<rparr>"

definition failing_publisher :: "unit BatchPublisher" where
  "failing_publisher =
     \<lparr>Publish = (\<lambda>m b. (Some (ErrorString ''EOF''), b)),
      PublishBatch = (\<lambda>ms b. (map (\<lambda>m. \<lparr>OutboxID = ID m, MessageID = [], Success = False,
        ResultError = Some (ErrorString ''EOF'')\<rparr>) ms, b)),
      MaxBatchSize = 10\<rparr>"

definition sample_revived :: "Outbox list" where
  "sample_revived = snd (pgx_RequeueFailed sample_repo (sample_ctx 2000000000)
     (snd (pgx_ReviveStuckPublishing sample_repo (sample_ctx 1000000000) [sample_short OutboxStatusPublishing 1])))"

definition sample_late :: "Outbox list \<Rightarrow> goerr option \<times> Outbox list" where
  "sample_late = write_result (pgx_repository sample_repo) (sample_ctx 2000000000)
     (sample_short OutboxStatusPublishing 1) (Some (ErrorString ''EOF''))"

definition sample_taken :: Outbox where
  "sample_taken = (sample_short OutboxStatusPublishing 2)\<lparr>ErrorMessage := Some ''revived from PUBLISHING (crash recovery)'',
     NextRetryAt := Some 1001000000, UpdatedAt := 2000000000\<rparr>"

definition stranded :: "Outbox list \<Rightarrow> bool" where
  "stranded d \<longleftrightarrow> map (\<lambda>r. (ID r, Status r, AttemptCount r, MaxAttempts r)) d = [(''u1'', OutboxStatusFailed, 3, 3)]"

lemma sample_late_run:
  "pgx_FetchAndLockToPublishing sample_repo (sample_ctx 0) [sample_short OutboxStatusEnqueued 1] =
     (Inr (sample_short OutboxStatusPublishing 1), [sample_short OutboxStatusPublishing 1])"
  "pgx_FetchAndLockToPublishing sample_repo (sample_ctx 2000000000) sample_revived =
     (Inr (sample_taken\<lparr>NextRetryAt := None\<rparr>), [sample_taken])"
  "stranded (snd (UpdateToFailed (pgx_repository sample_repo) (sample_ctx 2000000000) ''u1'' ''EOF'' [sample_taken]))"
  by code_simp+

lemma sample_late_stranded: "stranded (snd (sample_late [sample_taken]))"
  using sample_late_run(3)
  by (simp add: sample_late_def write_result_def TruncateErrorMessage_short IsRetryable.simps
      WillExceedMaxAttemptsAfterFailure_def wrap64_id in_int64_def sample_short_def sample_row_def)

lemma stranded_no_step: "stranded [r] \<Longrightarrow> \<not> row_step r r'"
  by (auto simp: stranded_def elim!: row_stepE)

lemma late_failure_strands:
  "\<exists>r pcs. (sys_step True sample_repo failing_publisher)\<^sup>*\<^sup>*
      ([sample_short OutboxStatusEnqueued 1], (), \<lambda>_. Idle) ([r], (), pcs) \<and>
     Status r = OutboxStatusFailed \<and> (\<forall>r'. \<not> row_step r r')"
proof -
  let ?st = "sys_step True sample_repo failing_publisher" and ?e = "Some (ErrorString ''EOF'')"
  let ?m = "sample_short OutboxStatusPublishing 1"
  let ?p0 = "(\<lambda>_. Idle)(0 := Holding [?m])" and ?p1 = "(\<lambda>_. Idle)(0 := Answered [(?m, ?e)])"
  let ?d = "[sample_taken]" and ?t = "sample_taken\<lparr>NextRetryAt := None\<rparr>"
  note f = sample_late_run(2) and str = sample_late_stranded
  have "?st ([sample_short OutboxStatusEnqueued 1], (), \<lambda>_. Idle) ([?m], (), ?p0)"
    by (rule sys_step.fetch[OF _ _ sample_late_run(1)]) simp_all
  moreover have "?st ([?m], (), ?p0) ([?m], (), ?p1)"
    using sys_step.publish[of ?p0 0 ?m failing_publisher "()" ?e "()" True sample_repo "[?m]"]
    by (simp add: failing_publisher_def)
  moreover have "?st ([?m], (), ?p1)
      (snd (pgx_ReviveStuckPublishing sample_repo (sample_ctx 1000000000) [?m]), (), ?p1)"
    by (rule sys_step.revive) simp_all
  moreover have "?st (snd (pgx_ReviveStuckPublishing sample_repo (sample_ctx 1000000000) [?m]), (), ?p1)
      (sample_revived, (), ?p1)"
    unfolding sample_revived_def by (rule sys_step.requeue) simp
  moreover have "?st (sample_revived, (), ?p1) (?d, (), ?p1(1 := Holding [?t]))"
    by (rule sys_step.fetch[OF _ _ f]) simp_all
  moreover have "?st (?d, (), ?p1(1 := Holding [?t])) (snd (sample_late ?d), (), (?p1(1 := Holding [?t]))(0 := Answered ([] @ [])))"
    by (rule sys_step.settle[where c = "sample_ctx 2000000000" and m = ?m and pe = ?e and e = "fst (sample_late ?d)"])
      (simp_all add: sample_late_def)
  ultimately have run: "?st\<^sup>*\<^sup>* ([sample_short OutboxStatusEnqueued 1], (), \<lambda>_. Idle)
      (snd (sample_late ?d), (), (?p1(1 := Holding [?t]))(0 := Answered ([] @ [])))"
    by (meson converse_rtranclp_into_rtranclp r_into_rtranclp)
  from str obtain r where r: "snd (sample_late ?d) = [r]" by (auto simp: stranded_def)
  with str stranded_no_step[of r] have "Status r = OutboxStatusFailed" "\<forall>r'. \<not> row_step r r'"
    by (auto simp: stranded_def)
  with run r show ?thesis by metis
qed

section \<open>A fair run\<close>

definition sample_turns :: "nat \<Rightarrow> sqs_service turn" where
  "sample_turns n = (if n mod 3 = 0 then Poll sample_iteration
     else if n mod 3 = 1 then Requeue (sample_ctx (int n)) else Revive (sample_ctx (int n)))"

lemma sample_turns_fair: "fair sample_turns"
proof -
  have "\<exists>k \<ge> n. fair_poll (sample_turns k)" for n
    by (intro exI[of _ "3 * n"]) (simp add: sample_turns_def)
  moreover have "\<exists>k \<ge> n. fair_requeue t (sample_turns k)" for n t
    by (intro exI[of _ "3 * (n + nat t) + 1"]) (auto simp: sample_turns_def sample_ctx_def)
  moreover have "\<exists>k \<ge> n. fair_revive t (sample_turns k)" for n t
  proof (intro exI[of _ "2 + 3 * (n + nat t)"] conjI)
    have "(2 + 3 * (n + nat t)) mod 3 = 2" by (simp only: mod_mult_self2) simp
    then show "fair_revive t (sample_turns (2 + 3 * (n + nat t)))"
      using sample_imul_spec[of "int (2 + 3 * (n + nat t))"]
      by (auto simp: sample_turns_def) (simp_all add: sample_ctx_def)
  qed simp
  ultimately show ?thesis by (simp add: fair_def)
qed


end
