(* ===== verification/Inbox.thy ===== *)
theory Inbox
  imports Pgx_Repo Gorm_Repo
begin

text \<open>
  The consumer inbox: \<open>src/core/inbox_repository.go\<close> (the interface and \<open>NopInboxRepository\<close>)
  and its implementations \<open>src/contrib/pgx/inbox_repo.go\<close> and \<open>src/contrib/gorm/inbox_repo.go\<close> on a
  table with the primary key \<open>(consumer_name, event_id)\<close>.  A \<open>uuid.UUID\<close> is its 16 bytes.  The
  contract consumers rely on is the locale \<open>inbox_repository\<close>: the inbox is a set of completed
  events that only \<open>Complete\<close> adds to.  \<open>WithTx\<close> only selects the connection.
\<close>

section \<open>The interface\<close>

type_synonym uuid = string

definition uuid_Nil :: uuid where
  "uuid_Nil = replicate 16 (CHR 0x00)"

record ConsumerInbox =
  ConsumerName :: string
  EventID :: uuid
  CompletedAt :: time

record ('c, 's) InboxRepository =
  IsProcessed :: "'c \<Rightarrow> string \<Rightarrow> uuid \<Rightarrow> 's \<Rightarrow> goerr + bool"
  Complete :: "'c \<Rightarrow> string \<Rightarrow> uuid \<Rightarrow> 's \<Rightarrow> goerr option \<times> 's"
  GetByEventID :: "'c \<Rightarrow> string \<Rightarrow> uuid \<Rightarrow> 's \<Rightarrow> goerr + ConsumerInbox"
  InboxDeleteOlderThan :: "'c \<Rightarrow> duration \<Rightarrow> 's \<Rightarrow> (goerr + int) \<times> 's"

definition is_record :: "string \<Rightarrow> uuid \<Rightarrow> ConsumerInbox \<Rightarrow> bool" where
  "is_record consumerName eventID r \<longleftrightarrow> ConsumerName r = consumerName \<and> EventID r = eventID"

section \<open>pgx\<close>

definition pgx_NewInboxRepository :: "Option list \<Rightarrow> goerr + string" where
  "pgx_NewInboxRepository opts =
     (case applyOptions opts of
        Inl e \<Rightarrow> Inl e
      | Inr cfg \<Rightarrow>
          (case ValidateTableName (InboxTableName cfg) of
             Some err \<Rightarrow>
               Inl (WrapError (''invalid inbox table name '' @ CHR 0x22 # InboxTableName cfg @ CHR 0x22 # '': '') err [])
           | None \<Rightarrow> Inr (InboxTableName cfg)))"

definition pgx_IsProcessed :: "pg_ctx \<Rightarrow> string \<Rightarrow> uuid \<Rightarrow> ConsumerInbox list \<Rightarrow> goerr + bool" where
  "pgx_IsProcessed c consumerName eventID rs =
     (case run_query (outcome c)
        (text_args [consumerName] (\<lambda>rs. Inr (list_ex (is_record consumerName eventID) rs)) rs) of
        Inl err \<Rightarrow> Inl (WrapError ''failed to check inbox record: '' err [])
      | Inr exists \<Rightarrow> Inr exists)"

text \<open>\<open>INSERT ... ON CONFLICT (consumer_name, event_id) DO NOTHING\<close>.\<close>

definition complete_stmt ::
  "pg_ctx \<Rightarrow> string \<Rightarrow> uuid \<Rightarrow> ConsumerInbox list \<Rightarrow> goerr + ConsumerInbox list \<times> nat" where
  "complete_stmt c consumerName eventID rs =
     (if list_ex (is_record consumerName eventID) rs then Inr (rs, 0)
      else Inr (rs @ [\<lparr>ConsumerName = consumerName, EventID = eventID, CompletedAt = clock c eventID 0\<rparr>], 1))"

definition pgx_Complete ::
  "pg_ctx \<Rightarrow> string \<Rightarrow> uuid \<Rightarrow> ConsumerInbox list \<Rightarrow> goerr option \<times> ConsumerInbox list" where
  "pgx_Complete c consumerName eventID rs =
     (case run_statement (outcome c) (text_args [consumerName] (complete_stmt c consumerName eventID)) rs of
        (Inl err, rs') \<Rightarrow> (Some (WrapError ''failed to insert inbox completion record: '' err []), rs')
      | (Inr _, rs') \<Rightarrow> (None, rs'))"

definition pgx_GetByEventID ::
  "pg_ctx \<Rightarrow> string \<Rightarrow> uuid \<Rightarrow> ConsumerInbox list \<Rightarrow> goerr + ConsumerInbox" where
  "pgx_GetByEventID c consumerName eventID rs =
     (case run_query (outcome c)
        (text_args [consumerName]
           (\<lambda>rs. case find (is_record consumerName eventID) rs of
              None \<Rightarrow> Inl (Sentinel PgxErrNoRows) | Some r \<Rightarrow> Inr r) rs) of
        Inl err \<Rightarrow>
          if errors_Is err PgxErrNoRows then Inl (Sentinel ErrNotFound)
          else Inl (WrapError ''failed to get inbox record: '' err [])
      | Inr r \<Rightarrow> Inr r)"

definition pgx_InboxDeleteOlderThan ::
  "pg_ctx \<Rightarrow> duration \<Rightarrow> ConsumerInbox list \<Rightarrow> (goerr + int) \<times> ConsumerInbox list" where
  "pgx_InboxDeleteOlderThan c olderThan rs =
     (case run_statement (outcome c)
        (sql_delete (\<lambda>r. CompletedAt r < clock c (EventID r) 0 - Microseconds olderThan)) rs of
        (Inl err, rs') \<Rightarrow> (Inl (WrapError ''failed to delete old inbox records: '' err []), rs')
      | (Inr n, rs') \<Rightarrow> (Inr (int n), rs'))"

definition pgx_inbox :: "(pg_ctx, ConsumerInbox list) InboxRepository" where
  "pgx_inbox = \<lparr>IsProcessed = pgx_IsProcessed, Complete = pgx_Complete, GetByEventID = pgx_GetByEventID,
     InboxDeleteOlderThan = pgx_InboxDeleteOlderThan\<rparr>"

section \<open>GORM\<close>

definition gorm_NewInboxRepository :: "gorm_Option list \<Rightarrow> goerr + string" where
  "gorm_NewInboxRepository opts =
     (case gorm_applyOptions opts of
        Inl e \<Rightarrow> Inl e
      | Inr cfg \<Rightarrow>
          (case ValidateTableName (g_InboxTableName cfg) of
             Some err \<Rightarrow>
               Inl (WrapError (''invalid inbox table name '' @ CHR 0x22 # g_InboxTableName cfg @ CHR 0x22 # '': '') err [])
           | None \<Rightarrow> Inr (g_InboxTableName cfg)))"

record consumerInboxModel =
  cm_ConsumerName :: string
  cm_EventID :: uuid
  cm_CompletedAt :: time

definition inbox_modelToCore :: "consumerInboxModel \<Rightarrow> ConsumerInbox" where
  "inbox_modelToCore m =
     \<lparr>ConsumerName = cm_ConsumerName m, EventID = cm_EventID m, CompletedAt = cm_CompletedAt m\<rparr>"

definition scan_inbox :: "ConsumerInbox \<Rightarrow> consumerInboxModel" where
  "scan_inbox r =
     \<lparr>cm_ConsumerName = ConsumerName r, cm_EventID = EventID r, cm_CompletedAt = CompletedAt r\<rparr>"

definition gorm_IsProcessed :: "pg_ctx \<Rightarrow> string \<Rightarrow> uuid \<Rightarrow> ConsumerInbox list \<Rightarrow> goerr + bool" where
  "gorm_IsProcessed c consumerName eventID rs =
     (case run_query (outcome c)
        (text_args [consumerName] (\<lambda>rs. Inr (length (filter (is_record consumerName eventID) rs))) rs) of
        Inl err \<Rightarrow> Inl (WrapError ''failed to check inbox record: '' err [])
      | Inr cnt \<Rightarrow> Inr (cnt > 0))"

definition gorm_Complete ::
  "pg_ctx \<Rightarrow> string \<Rightarrow> uuid \<Rightarrow> ConsumerInbox list \<Rightarrow> goerr option \<times> ConsumerInbox list" where
  "gorm_Complete c consumerName eventID rs =
     (case run_statement (outcome c) (text_args [consumerName] (complete_stmt c consumerName eventID)) rs of
        (Inl err, rs') \<Rightarrow> (Some (WrapError ''failed to insert inbox completion record: '' err []), rs')
      | (Inr _, rs') \<Rightarrow> (None, rs'))"

text \<open>\<open>First\<close> orders by a column of the primary key and takes one row.\<close>

definition gorm_GetByEventID ::
  "pg_ctx \<Rightarrow> string \<Rightarrow> uuid \<Rightarrow> ConsumerInbox list \<Rightarrow> goerr + ConsumerInbox" where
  "gorm_GetByEventID c consumerName eventID rs =
     (case run_query (outcome c)
        (text_args [consumerName]
           (\<lambda>rs. case sort_key ConsumerName (filter (is_record consumerName eventID) rs) of
              [] \<Rightarrow> Inl (Sentinel GormErrRecordNotFound) | r # _ \<Rightarrow> Inr (scan_inbox r)) rs) of
        Inl err \<Rightarrow>
          if errors_Is err GormErrRecordNotFound then Inl (Sentinel ErrNotFound)
          else Inl (WrapError ''failed to get inbox record: '' err [])
      | Inr model \<Rightarrow> Inr (inbox_modelToCore model))"

definition gorm_InboxDeleteOlderThan ::
  "pg_ctx \<Rightarrow> duration \<Rightarrow> ConsumerInbox list \<Rightarrow> (goerr + int) \<times> ConsumerInbox list" where
  "gorm_InboxDeleteOlderThan c olderThan rs =
     (case run_statement (outcome c)
        (sql_delete (\<lambda>r. CompletedAt r < clock c (EventID r) 0 - Microseconds olderThan)) rs of
        (Inl err, rs') \<Rightarrow> (Inl (WrapError ''failed to delete old inbox records: '' err []), rs')
      | (Inr n, rs') \<Rightarrow> (Inr (int n), rs'))"

definition gorm_inbox :: "(pg_ctx, ConsumerInbox list) InboxRepository" where
  "gorm_inbox = \<lparr>IsProcessed = gorm_IsProcessed, Complete = gorm_Complete, GetByEventID = gorm_GetByEventID,
     InboxDeleteOlderThan = gorm_InboxDeleteOlderThan\<rparr>"

section \<open>The null object\<close>

definition NewNopInboxRepository :: "('c, 's) InboxRepository" where
  "NewNopInboxRepository =
     \<lparr>IsProcessed = (\<lambda>c consumerName eventID s. Inr False),
      Complete = (\<lambda>c consumerName eventID s. (None, s)),
      GetByEventID = (\<lambda>c consumerName eventID s. Inl (Sentinel ErrNotFound)),
      InboxDeleteOlderThan = (\<lambda>c olderThan s. (Inr 0, s))\<rparr>"

section \<open>The contract\<close>

locale inbox_repository =
  fixes R :: "('c, 's, 'm) InboxRepository_scheme"
    and completed :: "'s \<Rightarrow> (string \<times> uuid) set"
    and inv :: "'s \<Rightarrow> bool"
    and okc :: "'c \<Rightarrow> bool"
  assumes is_processed: "IsProcessed R c n e s = Inr b \<Longrightarrow> b \<longleftrightarrow> (n, e) \<in> completed s"
    and complete_inv: "inv s \<Longrightarrow> inv (snd (Complete R c n e s))"
    and complete_ok: "Complete R c n e s = (None, s') \<Longrightarrow> completed s' = insert (n, e) (completed s)"
    and complete_err: "Complete R c n e s = (Some err, s') \<Longrightarrow>
      completed s' = completed s \<or> completed s' = insert (n, e) (completed s)"
    and get_ok: "inv s \<Longrightarrow> okc c \<Longrightarrow> GetByEventID R c n e s = Inr r \<Longrightarrow>
      (n, e) \<in> completed s \<and> ConsumerName r = n \<and> EventID r = e"
    and get_missing: "inv s \<Longrightarrow> okc c \<Longrightarrow> GetByEventID R c n e s = Inl err \<Longrightarrow> errors_Is err ErrNotFound \<Longrightarrow>
      (n, e) \<notin> completed s"
    and delete_inv: "inv s \<Longrightarrow> inv (snd (InboxDeleteOlderThan R c d s))"
    and delete_shrinks: "completed (snd (InboxDeleteOlderThan R c d s)) \<subseteq> completed s"
begin

text \<open>What a consumer may conclude: an event it completed stays completed until it is deleted.\<close>

lemma complete_then_processed:
  "Complete R c n e s = (None, s') \<Longrightarrow> IsProcessed R c' n e s' = Inr b \<Longrightarrow> b"
  using complete_ok is_processed by blast

lemma complete_keeps:
  "Complete R c n e s = (r, s') \<Longrightarrow> completed s \<subseteq> completed s'"
  using complete_ok complete_err by (cases r) blast+

end


section \<open>Both implementations meet it\<close>

definition inbox_key :: "ConsumerInbox \<Rightarrow> string \<times> uuid" where
  "inbox_key r = (ConsumerName r, EventID r)"

definition completed_events :: "ConsumerInbox list \<Rightarrow> (string \<times> uuid) set" where
  "completed_events rs = inbox_key ` set rs"

definition wf_inbox :: "ConsumerInbox list \<Rightarrow> bool" where
  "wf_inbox rs \<longleftrightarrow> distinct (map inbox_key rs)"

lemma list_ex_is_record: "list_ex (is_record n e) rs \<longleftrightarrow> (n, e) \<in> completed_events rs"
  by (auto simp: list_ex_iff is_record_def completed_events_def inbox_key_def)

lemma find_is_record:
  "find (is_record n e) rs = Some r \<Longrightarrow> (n, e) \<in> completed_events rs \<and> ConsumerName r = n \<and> EventID r = e"
  "find (is_record n e) rs = None \<longleftrightarrow> (n, e) \<notin> completed_events rs"
  by (auto simp: find_Some_iff find_None_iff is_record_def completed_events_def inbox_key_def)

lemma complete_stmt_effect:
  "complete_stmt c n e rs = Inr (rs', k) \<Longrightarrow>
     completed_events rs' = insert (n, e) (completed_events rs) \<and> (wf_inbox rs \<longrightarrow> wf_inbox rs')"
  by (auto simp: complete_stmt_def list_ex_is_record completed_events_def wf_inbox_def inbox_key_def
      split: if_splits)

lemma pgx_Complete_cases:
  assumes "pgx_Complete c n e rs = (res, rs')"
  obtains (unchanged) err where "res = Some err" "rs' = rs" "outcome c = Delivered \<longrightarrow> \<not> valid_text n"
  | (added) k where "complete_stmt c n e rs = Inr (rs', k)" "valid_text n" "res = None \<longleftrightarrow> outcome c = Delivered"
  by (cases rule: run_statement_cases[of "text_args [n] (complete_stmt c n e)" rs "outcome c"])
    (use assms in \<open>auto simp: pgx_Complete_def text_args_def complete_stmt_def split: if_splits\<close>)

lemma pgx_Complete_effect:
  assumes "pgx_Complete c n e rs = (res, rs')"
  shows "(wf_inbox rs \<longrightarrow> wf_inbox rs') \<and>
    (completed_events rs' = insert (n, e) (completed_events rs) \<or> res \<noteq> None \<and> rs' = rs)"
  using assms by (cases rule: pgx_Complete_cases) (use complete_stmt_effect in blast)+

text \<open>GORM counts the records and sorts them; on unique keys that is the same answer.\<close>

lemma gorm_IsProcessed_eq: "gorm_IsProcessed c n e rs = pgx_IsProcessed c n e rs"
proof -
  have "0 < length (filter (is_record n e) rs) \<longleftrightarrow> list_ex (is_record n e) rs"
    by (auto simp: list_ex_iff filter_empty_conv)
  then show ?thesis
    by (cases "outcome c") (auto simp: gorm_IsProcessed_def pgx_IsProcessed_def text_args_def)
qed

lemma unique_record:
  assumes "wf_inbox rs"
  shows "filter (is_record n e) rs = (case find (is_record n e) rs of None \<Rightarrow> [] | Some r \<Rightarrow> [r])"
  using assms
proof (induction rs)
  case (Cons r rs)
  have "filter (is_record n e) rs = []" if "is_record n e r"
    using that Cons.prems by (auto simp: filter_empty_conv wf_inbox_def inbox_key_def is_record_def rev_image_eqI)
  with Cons show ?case by (auto simp: wf_inbox_def)
qed simp

lemma gorm_GetByEventID_eq:
  assumes "wf_inbox rs" "wf_ctx c"
  shows "gorm_GetByEventID c n e rs = pgx_GetByEventID c n e rs"
  using unique_record[OF assms(1), of n e] wf_ctx_outcome[OF assms(2)]
  by (cases "outcome c")
    (auto simp: gorm_GetByEventID_def pgx_GetByEventID_def text_args_def inbox_modelToCore_def scan_inbox_def
      invalid_byte_sequence_def foreign_not_Is split: option.splits)

lemma gorm_other_eqs:
  "gorm_Complete = pgx_Complete" "gorm_InboxDeleteOlderThan = pgx_InboxDeleteOlderThan"
  by (simp_all add: fun_eq_iff gorm_Complete_def pgx_Complete_def gorm_InboxDeleteOlderThan_def
      pgx_InboxDeleteOlderThan_def)

lemma pgx_GetByEventID_ok:
  "pgx_GetByEventID c n e rs = Inr r \<Longrightarrow> (n, e) \<in> completed_events rs \<and> ConsumerName r = n \<and> EventID r = e"
  using find_is_record(1)[of n e rs r]
  by (cases "outcome c") (auto simp: pgx_GetByEventID_def text_args_def split: if_splits option.splits)

lemma pgx_GetByEventID_missing:
  "wf_ctx c \<Longrightarrow> pgx_GetByEventID c n e rs = Inl err \<Longrightarrow> errors_Is err ErrNotFound \<Longrightarrow>
   (n, e) \<notin> completed_events rs"
  using find_is_record(2)[of n e rs] wf_ctx_outcome[of c]
  by (cases "outcome c")
    (auto simp: pgx_GetByEventID_def text_args_def invalid_byte_sequence_def foreign_not_Is
      split: if_splits option.splits)

lemma pgx_inbox_delete:
  assumes "pgx_InboxDeleteOlderThan c d rs = (res, rs')"
  shows "(wf_inbox rs \<longrightarrow> wf_inbox rs') \<and> completed_events rs' \<subseteq> completed_events rs"
proof -
  let ?P = "\<lambda>r. CompletedAt r < clock c (EventID r) 0 - Microseconds d"
  have "rs' = rs \<or> rs' = filter (\<lambda>r. \<not> ?P r) rs"
    using assms by (cases "outcome c") (auto simp: pgx_InboxDeleteOlderThan_def sql_delete_def)
  then show ?thesis by (auto simp: wf_inbox_def completed_events_def distinct_map_filter)
qed

lemma pgx_IsProcessed_ok: "pgx_IsProcessed c n e rs = Inr b \<Longrightarrow> b \<longleftrightarrow> (n, e) \<in> completed_events rs"
  by (cases "outcome c") (auto simp: pgx_IsProcessed_def text_args_def list_ex_is_record split: if_splits)

interpretation pgx_inbox: inbox_repository pgx_inbox completed_events wf_inbox wf_ctx
proof unfold_locales
  show "wf_inbox (snd (Complete pgx_inbox c n e s))" if "wf_inbox s" for c n e s
    using that pgx_Complete_effect[of c n e s] by (cases "pgx_Complete c n e s") (auto simp: pgx_inbox_def)
  show "completed_events s' = insert (n, e) (completed_events s)" if "Complete pgx_inbox c n e s = (None, s')" for c n e s s'
    using that pgx_Complete_effect[of c n e s None s'] by (auto simp: pgx_inbox_def)
  show "completed_events s' = completed_events s \<or> completed_events s' = insert (n, e) (completed_events s)"
    if "Complete pgx_inbox c n e s = (Some err, s')" for c n e s s' err
    using that pgx_Complete_effect[of c n e s _ s'] by (auto simp: pgx_inbox_def)
  show "wf_inbox (snd (InboxDeleteOlderThan pgx_inbox c d s))" if "wf_inbox s" for c d s
    using that pgx_inbox_delete[of c d s] by (cases "pgx_InboxDeleteOlderThan c d s") (auto simp: pgx_inbox_def)
  show "completed_events (snd (InboxDeleteOlderThan pgx_inbox c d s)) \<subseteq> completed_events s" for c d s
    using pgx_inbox_delete[of c d s] by (cases "pgx_InboxDeleteOlderThan c d s") (auto simp: pgx_inbox_def)
qed (simp_all add: pgx_inbox_def pgx_IsProcessed_ok pgx_GetByEventID_ok pgx_GetByEventID_missing)


lemma gorm_inbox_fields:
  "IsProcessed gorm_inbox = IsProcessed pgx_inbox" "Complete gorm_inbox = Complete pgx_inbox"
  "InboxDeleteOlderThan gorm_inbox = InboxDeleteOlderThan pgx_inbox"
  "wf_inbox rs \<Longrightarrow> wf_ctx c \<Longrightarrow> GetByEventID gorm_inbox c n e rs = GetByEventID pgx_inbox c n e rs"
  by (simp_all add: gorm_inbox_def pgx_inbox_def gorm_other_eqs fun_eq_iff gorm_IsProcessed_eq gorm_GetByEventID_eq)

interpretation gorm_inbox: inbox_repository gorm_inbox completed_events wf_inbox wf_ctx
  by (unfold_locales, unfold gorm_inbox_fields(1-3), simp_all only: gorm_inbox_fields(4))
    (fact pgx_inbox.is_processed pgx_inbox.complete_inv pgx_inbox.complete_ok pgx_inbox.complete_err
      pgx_inbox.get_ok pgx_inbox.get_missing pgx_inbox.delete_inv pgx_inbox.delete_shrinks)+

section \<open>Properties\<close>

text \<open>
  C29: an event completed by a consumer is found completed from then on, in whichever of the two
  repositories it is looked up; completing it again succeeds and changes nothing, the first
  completion time included; and no other event or consumer is affected.
\<close>

theorem inbox_roundtrip:
  assumes wf: "wf_inbox rs" and fin: "pgx_Complete c n e rs = (None, rs')" and d: "outcome c' = Delivered"
  shows "wf_inbox rs' \<and> pgx_IsProcessed c' n e rs' = Inr True \<and> gorm_IsProcessed c' n e rs' = Inr True \<and>
    pgx_Complete c' n e rs' = (None, rs') \<and>
    (\<exists>r. pgx_GetByEventID c' n e rs' = Inr r \<and> ConsumerName r = n \<and> EventID r = e \<and>
       ((n, e) \<notin> completed_events rs \<longrightarrow> CompletedAt r = clock c e 0)) \<and>
    ((n', e') \<noteq> (n, e) \<longrightarrow> pgx_IsProcessed c'' n' e' rs' = pgx_IsProcessed c'' n' e' rs)"
proof -
  from fin obtain k where st: "complete_stmt c n e rs = Inr (rs', k)" and v: "valid_text n"
    by (cases rule: pgx_Complete_cases) auto
  note eff = complete_stmt_effect[OF st]
  have p: "pgx_IsProcessed c' n e rs' = Inr True" and "pgx_Complete c' n e rs' = (None, rs')"
    using eff v d by (simp_all add: pgx_IsProcessed_def pgx_Complete_def text_args_def complete_stmt_def list_ex_is_record)
  moreover have "list_ex (is_record n' e') rs' = list_ex (is_record n' e') rs" if "(n', e') \<noteq> (n, e)"
    using eff that by (auto simp: list_ex_is_record)
  moreover have "\<exists>r. find (is_record n e) rs' = Some r \<and> ((n, e) \<notin> completed_events rs \<longrightarrow> CompletedAt r = clock c e 0)"
  proof (cases "(n, e) \<in> completed_events rs")
    case True
    with eff find_is_record(2)[of n e rs'] show ?thesis by (cases "find (is_record n e) rs'") auto
  next
    case False
    with st find_is_record(2)[of n e rs] show ?thesis
      by (auto simp: complete_stmt_def list_ex_is_record find_append is_record_def)
  qed
  ultimately show ?thesis
    using wf eff v d p find_is_record(1)[of n e rs']
    by (auto simp: gorm_IsProcessed_eq pgx_GetByEventID_def pgx_IsProcessed_def text_args_def)
qed

theorem inbox_roundtrip_witness:
  "\<exists>rs'. pgx_Complete (sample_ctx 7) ''order'' (replicate 16 (CHR 0x01)) [] = (None, rs') \<and>
     gorm_IsProcessed (sample_ctx 9) ''order'' (replicate 16 (CHR 0x01)) rs' = Inr True"
proof -
  have "valid_text ''order''" by code_simp
  then obtain rs' where "pgx_Complete (sample_ctx 7) ''order'' (replicate 16 (CHR 0x01)) [] = (None, rs')"
    by (simp add: pgx_Complete_def text_args_def complete_stmt_def sample_ctx_def)
  with inbox_roundtrip[OF _ this sample_ctx_outcome] show ?thesis by (auto simp: wf_inbox_def)
qed

end
