(* ===== verification/App_Database.thy ===== *)
theory App_Database
  imports Pgx_Correct Inbox
begin

text \<open>
  The data of the example application: \<open>src/examples/app/internal/domain\<close>, the repositories of
  \<open>src/examples/app/internal/repository\<close> on the tables of
  \<open>src/examples/app/migrations/002_app_tables.sql\<close> (with their keys, length limits and checks), and
  the transactions around them.  A statement that fails inside a transaction makes every caller
  return, so the deferred \<open>Rollback\<close> discards the transaction; a lost reply to \<open>Commit\<close> leaves the
  effect in place.  Every call gets an \<open>app_ctx\<close> with what the database, the clock,
  \<open>uuid.New\<close>, \<open>UUID.String\<close> and \<open>json.Marshal\<close> answer.
\<close>

section \<open>Domain (internal/domain)\<close>

definition OrderStatusPending :: string where "OrderStatusPending = ''pending''"
definition OrderStatusConfirmed :: string where "OrderStatusConfirmed = ''confirmed''"
definition UserStatusActive :: string where "UserStatusActive = ''active''"
definition NotificationTypeEmail :: string where "NotificationTypeEmail = ''email''"
definition NotificationStatusPending :: string where "NotificationStatusPending = ''pending''"
definition NotificationStatusSent :: string where "NotificationStatusSent = ''sent''"

record Order =
  o_ID :: uuid
  o_UserID :: uuid
  o_ProductID :: string
  o_Quantity :: int
  o_TotalPrice :: int
  o_Status :: string
  o_CreatedAt :: time
  o_UpdatedAt :: time

record CreateOrderRequest =
  cr_UserID :: uuid
  cr_ProductID :: string
  cr_Quantity :: int
  cr_TotalPrice :: int

record Inventory =
  iv_ProductID :: string
  iv_Quantity :: int
  iv_Reserved :: int
  iv_UpdatedAt :: time

record User =
  u_ID :: uuid
  u_Email :: string
  u_Name :: string
  u_Status :: string
  u_CreatedAt :: time
  u_UpdatedAt :: time

record CreateUserRequest =
  cu_Email :: string
  cu_Name :: string

record UpdateUserRequest =
  uu_Name :: string
  uu_Status :: string

record Notification =
  n_ID :: uuid
  n_Type :: string
  n_Recipient :: string
  n_Subject :: string
  n_Body :: string
  n_Status :: string
  n_CreatedAt :: time
  n_UpdatedAt :: time

record SendNotificationRequest =
  sn_Type :: string
  sn_Recipient :: string
  sn_Subject :: string
  sn_Body :: string

record order_confirmation =
  oc_event_id :: uuid
  oc_order_id :: uuid
  oc_user_id :: uuid
  oc_product_id :: string
  oc_quantity :: int

record welcome_credit =
  wc_event_id :: uuid
  wc_user_id :: uuid
  wc_credit_amount :: int

record app_db =
  t_users :: "User list"
  t_orders :: "Order list"
  t_inventory :: "Inventory list"
  t_notifications :: "Notification list"
  t_order_confirmations :: "order_confirmation list"
  t_user_welcome_credits :: "welcome_credit list"
  t_outbox :: "Outbox list"
  t_inbox :: "ConsumerInbox list"

section \<open>Columns\<close>

definition check_violation :: goerr where
  "check_violation = PgError ''23514'' ''new row violates check constraint''"

definition string_too_long :: goerr where
  "string_too_long = PgError ''22001'' ''value too long for type character varying''"

text \<open>Characters of a valid UTF-8 text: its bytes that do not continue a sequence.\<close>

definition characters :: "string \<Rightarrow> nat" where
  "characters x = length (filter (\<lambda>c. \<not> (128 \<le> (of_char c :: nat) \<and> (of_char c :: nat) < 192)) x)"

definition varchar :: "(nat \<times> string) list \<Rightarrow> ('s \<Rightarrow> goerr + 'a) \<Rightarrow> 's \<Rightarrow> goerr + 'a" where
  "varchar cols stmt s =
     (if list_all (\<lambda>(n, x). characters x \<le> n) cols then stmt s else Inl string_too_long)"

definition int4_args :: "int list \<Rightarrow> ('s \<Rightarrow> goerr + 'a) \<Rightarrow> 's \<Rightarrow> goerr + 'a" where
  "int4_args xs stmt s =
     (if list_all (\<lambda>x. - (2 ^ 31) \<le> x \<and> x < 2 ^ 31) xs then stmt s else Inl integer_out_of_range)"

text \<open>An \<open>INSERT\<close> of a row into a table with unique keys.\<close>

definition sql_insert :: "('r \<Rightarrow> 'r \<Rightarrow> bool) \<Rightarrow> 'r \<Rightarrow> 'r list \<Rightarrow> goerr + 'r list \<times> nat" where
  "sql_insert clash r rs = (if list_ex (clash r) rs then Inl unique_violation else Inr (rs @ [r], 1))"

definition sql_insert_or_ignore :: "('r \<Rightarrow> 'r \<Rightarrow> bool) \<Rightarrow> 'r \<Rightarrow> 'r list \<Rightarrow> goerr + 'r list \<times> nat" where
  "sql_insert_or_ignore clash r rs = (if list_ex (clash r) rs then Inr (rs, 0) else Inr (rs @ [r], 1))"

text \<open>How the repositories treat an \<open>Exec\<close>: an error is wrapped, no affected row may be an error.\<close>

definition executed :: "string \<Rightarrow> (goerr + nat) \<times> 's \<Rightarrow> goerr option \<times> 's" where
  "executed wrap res = (case res of (Inl err, s) \<Rightarrow> (Some (WrapError wrap err []), s) | (Inr n, s) \<Rightarrow> (None, s))"

definition executed_some :: "string \<Rightarrow> goerr \<Rightarrow> (goerr + nat) \<times> 's \<Rightarrow> goerr option \<times> 's" where
  "executed_some wrap none res =
     (case res of
        (Inl err, s) \<Rightarrow> (Some (WrapError wrap err []), s)
      | (Inr n, s) \<Rightarrow> (if n = 0 then Some none else None, s))"

section \<open>Inventory (repository/inventory.go)\<close>

definition check_inventory :: "Inventory \<Rightarrow> goerr + Inventory" where
  "check_inventory r =
     (if 0 \<le> iv_Quantity r \<and> 0 \<le> iv_Reserved r \<and> iv_Reserved r \<le> iv_Quantity r then Inr r
      else Inl check_violation)"

definition set_stock :: "pg_ctx \<Rightarrow> int \<Rightarrow> int \<Rightarrow> Inventory \<Rightarrow> goerr + Inventory" where
  "set_stock c quantity reserved r =
     (case int4 quantity of
        Inl e \<Rightarrow> Inl e
      | Inr q \<Rightarrow>
          (case int4 reserved of
             Inl e \<Rightarrow> Inl e
           | Inr v \<Rightarrow>
               check_inventory
                 (r\<lparr>iv_Quantity := q, iv_Reserved := v, iv_UpdatedAt := clock c (iv_ProductID r) 0\<rparr>)))"

definition GetByProductID :: "pg_ctx \<Rightarrow> string \<Rightarrow> Inventory list \<Rightarrow> goerr + Inventory" where
  "GetByProductID c productID rs =
     (case run_query (outcome c)
        (text_args [productID] (\<lambda>rs. case lookup_by iv_ProductID rs productID of
           None \<Rightarrow> Inl (Sentinel PgxErrNoRows) | Some r \<Rightarrow> Inr r) rs) of
        Inl err \<Rightarrow> Inl (WrapError ''failed to get inventory: '' err [])
      | Inr r \<Rightarrow> Inr r)"

definition Reserve :: "pg_ctx \<Rightarrow> string \<Rightarrow> int \<Rightarrow> Inventory list \<Rightarrow> goerr option \<times> Inventory list" where
  "Reserve c productID quantity rs =
     executed_some ''failed to reserve inventory: ''
       (ErrorString (''insufficient inventory for product '' @ productID))
       (run_statement (outcome c)
          (text_args [productID] (int4_args [quantity]
            (sql_update (\<lambda>r. iv_ProductID r = productID \<and> iv_Quantity r - iv_Reserved r \<ge> quantity)
               (\<lambda>r. set_stock c (iv_Quantity r) (iv_Reserved r + quantity) r)))) rs)"

definition Decrease :: "pg_ctx \<Rightarrow> string \<Rightarrow> int \<Rightarrow> Inventory list \<Rightarrow> goerr option \<times> Inventory list" where
  "Decrease c productID quantity rs =
     executed_some ''failed to decrease inventory: ''
       (ErrorString (''insufficient reserved inventory for product '' @ productID))
       (run_statement (outcome c)
          (text_args [productID] (int4_args [quantity]
            (sql_update (\<lambda>r. iv_ProductID r = productID \<and> iv_Reserved r \<ge> quantity)
               (\<lambda>r. set_stock c (iv_Quantity r - quantity) (iv_Reserved r - quantity) r)))) rs)"

definition ReleaseReservation :: "pg_ctx \<Rightarrow> string \<Rightarrow> int \<Rightarrow> Inventory list \<Rightarrow> goerr option \<times> Inventory list" where
  "ReleaseReservation c productID quantity rs =
     executed_some ''failed to release reservation: ''
       (ErrorString (''insufficient reserved inventory for product '' @ productID))
       (run_statement (outcome c)
          (text_args [productID] (int4_args [quantity]
            (sql_update (\<lambda>r. iv_ProductID r = productID \<and> iv_Reserved r \<ge> quantity)
               (\<lambda>r. set_stock c (iv_Quantity r) (iv_Reserved r - quantity) r)))) rs)"

section \<open>Orders (repository/order.go)\<close>

definition Order_Create :: "pg_ctx \<Rightarrow> Order \<Rightarrow> Order list \<Rightarrow> goerr option \<times> Order list" where
  "Order_Create c order rs =
     executed ''failed to create order: ''
       (run_statement (outcome c)
          (text_args [o_ProductID order, o_Status order] (int4_args [o_Quantity order, o_TotalPrice order]
            (varchar [(255, o_ProductID order), (50, o_Status order)]
              (sql_insert (\<lambda>r r'. o_ID r = o_ID r') order)))) rs)"

definition Order_GetByID :: "pg_ctx \<Rightarrow> uuid \<Rightarrow> Order list \<Rightarrow> goerr + Order" where
  "Order_GetByID c i rs =
     (case run_query (outcome c)
        (case lookup_by o_ID rs i of None \<Rightarrow> Inl (Sentinel PgxErrNoRows) | Some r \<Rightarrow> Inr r) of
        Inl err \<Rightarrow> Inl (WrapError ''failed to get order: '' err [])
      | Inr r \<Rightarrow> Inr r)"

definition Order_UpdateStatus ::
  "(uuid \<Rightarrow> string) \<Rightarrow> pg_ctx \<Rightarrow> uuid \<Rightarrow> string \<Rightarrow> Order list \<Rightarrow> goerr option \<times> Order list" where
  "Order_UpdateStatus uuid_text c i status rs =
     executed_some ''failed to update order status: '' (ErrorString (''order not found: '' @ uuid_text i))
       (run_statement (outcome c)
          (text_args [status] (sql_update (\<lambda>r. o_ID r = i)
            (varchar [(50, status)] (\<lambda>r. Inr (r\<lparr>o_Status := status, o_UpdatedAt := clock c [] 0\<rparr>))))) rs)"

section \<open>Users (repository/user.go)\<close>

definition User_Create :: "pg_ctx \<Rightarrow> User \<Rightarrow> User list \<Rightarrow> goerr option \<times> User list" where
  "User_Create c user rs =
     executed ''failed to create user: ''
       (run_statement (outcome c)
          (text_args [u_Email user, u_Name user, u_Status user]
            (varchar [(255, u_Email user), (255, u_Name user), (50, u_Status user)]
              (sql_insert (\<lambda>r r'. u_ID r = u_ID r' \<or> u_Email r = u_Email r') user))) rs)"

definition find_user :: "string \<Rightarrow> pg_ctx \<Rightarrow> (User \<Rightarrow> bool) \<Rightarrow> User list \<Rightarrow> goerr + User" where
  "find_user wrap c P rs =
     (case run_query (outcome c) (case find P rs of None \<Rightarrow> Inl (Sentinel PgxErrNoRows) | Some r \<Rightarrow> Inr r) of
        Inl err \<Rightarrow> Inl (WrapError wrap err [])
      | Inr r \<Rightarrow> Inr r)"

definition User_GetByID :: "pg_ctx \<Rightarrow> uuid \<Rightarrow> User list \<Rightarrow> goerr + User" where
  "User_GetByID c i rs = find_user ''failed to get user: '' c (\<lambda>r. u_ID r = i) rs"

definition GetByEmail :: "pg_ctx \<Rightarrow> string \<Rightarrow> User list \<Rightarrow> goerr + User" where
  "GetByEmail c email rs =
     (if valid_text email then find_user ''failed to get user by email: '' c (\<lambda>r. u_Email r = email) rs
      else Inl (WrapError ''failed to get user by email: '' invalid_byte_sequence []))"

text \<open>\<open>COALESCE(NULLIF($1, ''), name)\<close>: an empty argument keeps the old value.\<close>

definition coalesce_nullif :: "string \<Rightarrow> string \<Rightarrow> string" where
  "coalesce_nullif new old = (if new = [] then old else new)"

definition User_Update ::
  "(uuid \<Rightarrow> string) \<Rightarrow> pg_ctx \<Rightarrow> uuid \<Rightarrow> UpdateUserRequest \<Rightarrow> User list \<Rightarrow> goerr option \<times> User list" where
  "User_Update uuid_text c i req rs =
     executed_some ''failed to update user: '' (ErrorString (''user not found: '' @ uuid_text i))
       (run_statement (outcome c)
          (text_args [uu_Name req, uu_Status req]
            (sql_update (\<lambda>r. u_ID r = i)
               (varchar [(255, uu_Name req), (50, uu_Status req)]
                 (\<lambda>r. Inr (r\<lparr>u_Name := coalesce_nullif (uu_Name req) (u_Name r),
                      u_Status := coalesce_nullif (uu_Status req) (u_Status r), u_UpdatedAt := clock c [] 0\<rparr>))))) rs)"

section \<open>Notifications (repository/notification.go)\<close>

definition Notification_Create :: "pg_ctx \<Rightarrow> Notification \<Rightarrow> Notification list \<Rightarrow> goerr option \<times> Notification list" where
  "Notification_Create c n rs =
     executed ''failed to create notification: ''
       (run_statement (outcome c)
          (text_args [n_Type n, n_Recipient n, n_Subject n, n_Body n, n_Status n]
            (varchar [(50, n_Type n), (255, n_Recipient n), (50, n_Status n)]
              (sql_insert_or_ignore (\<lambda>r r'. n_ID r = n_ID r') n))) rs)"

definition Notification_UpdateStatus ::
  "(uuid \<Rightarrow> string) \<Rightarrow> pg_ctx \<Rightarrow> uuid \<Rightarrow> string \<Rightarrow> Notification list \<Rightarrow> goerr option \<times> Notification list" where
  "Notification_UpdateStatus uuid_text c i status rs =
     executed_some ''failed to update notification status: ''
       (ErrorString (''notification not found: '' @ uuid_text i))
       (run_statement (outcome c)
          (text_args [status] (sql_update (\<lambda>r. n_ID r = i)
            (varchar [(50, status)] (\<lambda>r. Inr (r\<lparr>n_Status := status, n_UpdatedAt := clock c [] 0\<rparr>))))) rs)"

text \<open>The same statement outside a transaction.\<close>

definition UpdateStatusWithPool ::
  "(uuid \<Rightarrow> string) \<Rightarrow> pg_ctx \<Rightarrow> uuid \<Rightarrow> string \<Rightarrow> Notification list \<Rightarrow> goerr option \<times> Notification list" where
  "UpdateStatusWithPool uuid_text c i status rs =
     executed_some ''failed to update notification status: ''
       (ErrorString (''notification not found: '' @ uuid_text i))
       (run_statement (outcome c)
          (text_args [status] (sql_update (\<lambda>r. n_ID r = i)
            (varchar [(50, status)] (\<lambda>r. Inr (r\<lparr>n_Status := status, n_UpdatedAt := clock c [] 0\<rparr>))))) rs)"

definition Notification_GetByID :: "pg_ctx \<Rightarrow> uuid \<Rightarrow> Notification list \<Rightarrow> goerr + Notification" where
  "Notification_GetByID c i rs =
     (case run_query (outcome c)
        (case lookup_by n_ID rs i of None \<Rightarrow> Inl (Sentinel PgxErrNoRows) | Some r \<Rightarrow> Inr r) of
        Inl err \<Rightarrow> Inl (WrapError ''failed to get notification: '' err [])
      | Inr r \<Rightarrow> Inr r)"

end
