(* ===== verification/App_Services.thy ===== *)
theory App_Services
  imports App_Database
begin

text \<open>
  The services of the example application (\<open>src/examples/app/internal/service\<close>): each changes its
  business tables and inserts the event into the outbox in one transaction.  The properties are
  what the transactional outbox is for: the change and its event commit together or not at all, and the
  stock adds up through any interleaving of orders, confirmations and dispatchers.
\<close>

section \<open>Transactions\<close>

datatype ('a, 'd) tx_end = Abort goerr | Leave 'a | Commit 'a 'd

text \<open>
  \<open>pool.Begin\<close>, the body, and \<open>tx.Commit\<close>; a body that returns before \<open>Commit\<close>, with an error or
  without, is undone by the deferred \<open>Rollback\<close>.
\<close>

definition transaction ::
  "conn_outcome \<Rightarrow> conn_outcome \<Rightarrow> ('d \<Rightarrow> ('a, 'd) tx_end) \<Rightarrow> 'd \<Rightarrow> (goerr + 'a) \<times> 'd" where
  "transaction b cm body db =
     (case run_query b (Inr ()) of
        Inl err \<Rightarrow> (Inl (WrapError ''failed to begin transaction: '' err []), db)
      | Inr _ \<Rightarrow>
          (case body db of
             Abort err \<Rightarrow> (Inl err, db)
           | Leave a \<Rightarrow> (Inr a, db)
           | Commit a db' \<Rightarrow>
               (case run_statement cm (\<lambda>_. Inr (db', a)) db of
                  (Inl err, d) \<Rightarrow> (Inl (WrapError ''failed to commit transaction: '' err []), d)
                | (Inr a, d) \<Rightarrow> (Inr a, d))))"

text \<open>What the outside answers in one call of a service.\<close>

datatype app_event =
    EvOrderCreated uuid uuid string int int time
  | EvOrderConfirmed uuid uuid string int
  | EvUserRegistered uuid string string time
  | EvUserUpdated uuid string string time
  | EvNotificationSend uuid string string string string time

record app_ctx =
  a_begin :: conn_outcome
  a_stmt :: "nat \<Rightarrow> pg_ctx"
  a_commit :: conn_outcome
  a_uuid :: uuid
  a_now :: "nat \<Rightarrow> time"
  a_uuid_text :: "uuid \<Rightarrow> string"
  a_marshal :: "app_event \<Rightarrow> goerr + string"
  a_repo :: pgx_repo

definition wf_app_ctx :: "app_ctx \<Rightarrow> bool" where
  "wf_app_ctx a \<longleftrightarrow> (\<forall>n. wf_ctx (a_stmt a n))"

text \<open>Marshal the event and insert it with the \<open>n\<close>-th statement of the transaction.\<close>

definition insert_event ::
  "app_ctx \<Rightarrow> nat \<Rightarrow> string \<Rightarrow> app_event \<Rightarrow> string \<Rightarrow> int \<Rightarrow> Outbox list \<Rightarrow> goerr + Outbox list" where
  "insert_event a n eventType ev key attempts rs =
     (case a_marshal a ev of
        Inl err \<Rightarrow> Inl (WrapError ''failed to marshal event: '' err [])
      | Inr payload \<Rightarrow>
          (case pgx_Insert (a_repo a) (a_stmt a n)
             \<lparr>p_EventType = eventType, p_Payload = Some payload, p_Metadata = None,
              p_IdempotencyKey = key, p_MaxAttempts = attempts\<rparr> rs of
             (Inl err, _) \<Rightarrow> Inl (WrapError ''failed to insert outbox message: '' err [])
           | (Inr _, rs') \<Rightarrow> Inr rs'))"

section \<open>Orders (service/order.go)\<close>

definition new_order :: "app_ctx \<Rightarrow> CreateOrderRequest \<Rightarrow> Order" where
  "new_order a req =
     \<lparr>o_ID = a_uuid a, o_UserID = cr_UserID req, o_ProductID = cr_ProductID req,
      o_Quantity = cr_Quantity req, o_TotalPrice = cr_TotalPrice req, o_Status = OrderStatusPending,
      o_CreatedAt = a_now a 0, o_UpdatedAt = a_now a 1\<rparr>"

definition create_order_body :: "app_ctx \<Rightarrow> CreateOrderRequest \<Rightarrow> app_db \<Rightarrow> (Order, app_db) tx_end" where
  "create_order_body a req db =
     (case Reserve (a_stmt a 0) (cr_ProductID req) (cr_Quantity req) (t_inventory db) of
        (Some err, _) \<Rightarrow> Abort (WrapError ''failed to reserve inventory: '' err [])
      | (None, stock) \<Rightarrow>
          let order = new_order a req
          in case Order_Create (a_stmt a 1) order (t_orders db) of
               (Some err, _) \<Rightarrow> Abort (WrapError ''failed to create order: '' err [])
             | (None, os) \<Rightarrow>
                 (case insert_event a 2 ''order.created''
                    (EvOrderCreated (o_ID order) (o_UserID order) (o_ProductID order) (o_Quantity order)
                       (o_TotalPrice order) (o_CreatedAt order))
                    (a_uuid_text a (o_ID order)) 5 (t_outbox db) of
                    Inl err \<Rightarrow> Abort err
                  | Inr ob \<Rightarrow> Commit order (db\<lparr>t_inventory := stock, t_orders := os, t_outbox := ob\<rparr>)))"

definition CreateOrder :: "app_ctx \<Rightarrow> CreateOrderRequest \<Rightarrow> app_db \<Rightarrow> (goerr + Order) \<times> app_db" where
  "CreateOrder a req db = transaction (a_begin a) (a_commit a) (create_order_body a req) db"

text \<open>\<open>GetByID\<close> reads through the pool, outside the transaction.\<close>

definition confirm_order_body :: "app_ctx \<Rightarrow> uuid \<Rightarrow> app_db \<Rightarrow> (unit, app_db) tx_end" where
  "confirm_order_body a orderID db =
     (case Order_GetByID (a_stmt a 0) orderID (t_orders db) of
        Inl err \<Rightarrow> Abort (WrapError ''failed to get order: '' err [])
      | Inr order \<Rightarrow>
          (case Order_UpdateStatus (a_uuid_text a) (a_stmt a 1) orderID OrderStatusConfirmed (t_orders db) of
             (Some err, _) \<Rightarrow> Abort (WrapError ''failed to update order status: '' err [])
           | (None, os) \<Rightarrow>
               (case Decrease (a_stmt a 2) (o_ProductID order) (o_Quantity order) (t_inventory db) of
                  (Some err, _) \<Rightarrow> Abort (WrapError ''failed to decrease inventory: '' err [])
                | (None, stock) \<Rightarrow>
                    (case insert_event a 3 ''order.confirmed''
                       (EvOrderConfirmed orderID (o_UserID order) (o_ProductID order) (o_Quantity order))
                       (''order-confirmed-'' @ a_uuid_text a orderID) 5 (t_outbox db) of
                       Inl err \<Rightarrow> Abort err
                     | Inr ob \<Rightarrow> Commit () (db\<lparr>t_orders := os, t_inventory := stock, t_outbox := ob\<rparr>)))))"

definition ConfirmOrder :: "app_ctx \<Rightarrow> uuid \<Rightarrow> app_db \<Rightarrow> (goerr + unit) \<times> app_db" where
  "ConfirmOrder a orderID db = transaction (a_begin a) (a_commit a) (confirm_order_body a orderID) db"

section \<open>Users (service/user.go)\<close>

definition register_user_body :: "app_ctx \<Rightarrow> CreateUserRequest \<Rightarrow> app_db \<Rightarrow> (User, app_db) tx_end" where
  "register_user_body a req db =
     (let user = \<lparr>u_ID = a_uuid a, u_Email = cu_Email req, u_Name = cu_Name req, u_Status = UserStatusActive,
                  u_CreatedAt = a_now a 0, u_UpdatedAt = a_now a 1\<rparr>
      in case User_Create (a_stmt a 0) user (t_users db) of
           (Some err, _) \<Rightarrow> Abort (WrapError ''failed to create user: '' err [])
         | (None, us) \<Rightarrow>
             (case insert_event a 1 ''user.registered''
                (EvUserRegistered (u_ID user) (u_Email user) (u_Name user) (u_CreatedAt user))
                (a_uuid_text a (u_ID user)) 5 (t_outbox db) of
                Inl err \<Rightarrow> Abort err
              | Inr ob \<Rightarrow> Commit user (db\<lparr>t_users := us, t_outbox := ob\<rparr>)))"

definition RegisterUser :: "app_ctx \<Rightarrow> CreateUserRequest \<Rightarrow> app_db \<Rightarrow> (goerr + User) \<times> app_db" where
  "RegisterUser a req db = transaction (a_begin a) (a_commit a) (register_user_body a req) db"

text \<open>The idempotency key carries \<open>time.Now().UnixNano()\<close>; \<open>%d\<close> of a number is \<open>int_text\<close>.\<close>

definition int_text :: "int \<Rightarrow> string" where
  "int_text x = (if x < 0 then CHR ''-'' # itoa (nat (- x)) else itoa (nat x))"

definition update_user_body :: "app_ctx \<Rightarrow> uuid \<Rightarrow> UpdateUserRequest \<Rightarrow> app_db \<Rightarrow> (unit, app_db) tx_end" where
  "update_user_body a userID req db =
     (case User_Update (a_uuid_text a) (a_stmt a 0) userID req (t_users db) of
        (Some err, _) \<Rightarrow> Abort (WrapError ''failed to update user: '' err [])
      | (None, us) \<Rightarrow>
          (case insert_event a 1 ''user.updated''
             (EvUserUpdated userID (uu_Name req) (uu_Status req) (a_now a 0))
             (''user-updated-'' @ a_uuid_text a userID @ ''-'' @ int_text (a_now a 1)) 5 (t_outbox db) of
             Inl err \<Rightarrow> Abort err
           | Inr ob \<Rightarrow> Commit () (db\<lparr>t_users := us, t_outbox := ob\<rparr>)))"

definition UpdateUser :: "app_ctx \<Rightarrow> uuid \<Rightarrow> UpdateUserRequest \<Rightarrow> app_db \<Rightarrow> (goerr + unit) \<times> app_db" where
  "UpdateUser a userID req db = transaction (a_begin a) (a_commit a) (update_user_body a userID req) db"

section \<open>Notifications (service/notification.go)\<close>

definition send_notification_body ::
  "app_ctx \<Rightarrow> SendNotificationRequest \<Rightarrow> app_db \<Rightarrow> (Notification, app_db) tx_end" where
  "send_notification_body a req db =
     (let n = \<lparr>n_ID = a_uuid a, n_Type = sn_Type req, n_Recipient = sn_Recipient req, n_Subject = sn_Subject req,
               n_Body = sn_Body req, n_Status = NotificationStatusPending, n_CreatedAt = a_now a 0,
               n_UpdatedAt = a_now a 1\<rparr>
      in case Notification_Create (a_stmt a 0) n (t_notifications db) of
           (Some err, _) \<Rightarrow> Abort (WrapError ''failed to create notification: '' err [])
         | (None, ns) \<Rightarrow>
             (case insert_event a 1 (''notification.'' @ n_Type n)
                (EvNotificationSend (n_ID n) (n_Type n) (n_Recipient n) (n_Subject n) (n_Body n) (n_CreatedAt n))
                (a_uuid_text a (n_ID n)) 3 (t_outbox db) of
                Inl err \<Rightarrow> Abort err
              | Inr ob \<Rightarrow> Commit n (db\<lparr>t_notifications := ns, t_outbox := ob\<rparr>)))"

definition SendNotification ::
  "app_ctx \<Rightarrow> SendNotificationRequest \<Rightarrow> app_db \<Rightarrow> (goerr + Notification) \<times> app_db" where
  "SendNotification a req db = transaction (a_begin a) (a_commit a) (send_notification_body a req) db"

end
