(* ===== verification/App_Stock.thy ===== *)
theory App_Stock
  imports App_Services
begin

text \<open>
  What the services of the example application keep: a transaction takes effect whole or not at
  all (\<open>transaction_cases\<close>), an order and its event commit together, and the stock
  adds up (\<open>balanced\<close>) in every state reachable by orders, confirmations, the other services and
  any dispatcher working on the same outbox table.
\<close>

section \<open>What a committed call has done\<close>

lemma transaction_cases:
  assumes "transaction b cm body db = (res, db')"
  obtains (unchanged) "db' = db" "\<And>x y. body db = Commit x y \<Longrightarrow> \<exists>e. res = Inl e"
  | (committed) x where "body db = Commit x db'" "res = Inr x \<or> (\<exists>e e'. res = Inl e \<and> cm = ReplyLost e')"
  using assms by (cases b; cases cm; cases "body db") (auto simp: transaction_def)

definition outbox_keys :: "Outbox list \<Rightarrow> (string \<times> string) set" where
  "outbox_keys rs = (\<lambda>r. (EventType r, IdempotencyKey r)) ` set rs"

lemma insert_event_added:
  assumes "insert_event a n et ev key k rs = Inr rs'"
  shows "\<exists>r. rs' = rs @ [r] \<and> EventType r = et \<and> IdempotencyKey r = key \<and> Status r = OutboxStatusEnqueued \<and>
    (et, key) \<notin> outbox_keys rs \<and> (wf_table rs \<longrightarrow> wf_table rs')"
proof -
  obtain payload r where p: "pgx_Insert (a_repo a) (a_stmt a n)
      \<lparr>p_EventType = et, p_Payload = Some payload, p_Metadata = None, p_IdempotencyKey = key,
       p_MaxAttempts = k\<rparr> rs = (Inr r, rs')"
    using assms by (auto simp: insert_event_def split: sum.splits prod.splits)
  note i = pgx_Insert_added[OF p, THEN conjunct2]
  from insert_stmt_Inr[OF i] insert_stmt_wf[OF _ i] show ?thesis
    by (auto simp: inserted_def same_event_def outbox_keys_def)
qed

lemma run_statement_Inr [sql_simps]:
  "run_statement oc stmt s = (Inr x, s') \<longleftrightarrow> oc = Delivered \<and> stmt s = Inr (s', x)"
  by (cases oc; cases "stmt s") auto

lemma sql_insert_Inr [sql_simps]:
  "sql_insert clash r rs = Inr (rs', n) \<longleftrightarrow> rs' = rs @ [r] \<and> n = 1 \<and> \<not> list_ex (clash r) rs"
  by (auto simp: sql_insert_def)

lemma int4_args_Inr [simp]:
  "int4_args xs stmt s = Inr z \<longleftrightarrow> list_all (\<lambda>x. - (2 ^ 31) \<le> x \<and> x < 2 ^ 31) xs \<and> stmt s = Inr z"
  by (simp add: int4_args_def)

lemma varchar_Inr [simp]:
  "varchar cols stmt s = Inr z \<longleftrightarrow> list_all (\<lambda>(n, x). characters x \<le> n) cols \<and> stmt s = Inr z"
  by (simp add: varchar_def)

lemma executed_some_None [sql_simps]:
  "executed_some w e (run_statement oc stmt rs) = (None, rs') \<longleftrightarrow> (\<exists>n. n \<noteq> 0 \<and> oc = Delivered \<and> stmt rs = Inr (rs', n))"
  by (cases oc; cases "stmt rs") (auto simp: executed_some_def split: if_splits)

lemma executed_None [sql_simps]:
  "executed w (run_statement oc stmt rs) = (None, rs') \<longleftrightarrow> (\<exists>n. oc = Delivered \<and> stmt rs = Inr (rs', n))"
  by (cases oc; cases "stmt rs") (auto simp: executed_def)

section \<open>The inventory\<close>

abbreviation stock_row :: "Inventory list \<Rightarrow> string \<Rightarrow> Inventory option" where
  "stock_row \<equiv> lookup_by iv_ProductID"

lemma set_stock_Inr:
  "set_stock c q v r = Inr r' \<Longrightarrow> iv_ProductID r' = iv_ProductID r \<and> iv_Quantity r' = q \<and> iv_Reserved r' = v \<and>
     0 \<le> v \<and> v \<le> q"
  by (auto simp: set_stock_def check_inventory_def split: sum.splits if_splits)

text \<open>One product's quantity and reservation move by \<open>dq\<close> and \<open>dr\<close>, within the bounds of the table.\<close>

definition moved :: "string \<Rightarrow> int \<Rightarrow> int \<Rightarrow> Inventory list \<Rightarrow> Inventory list \<Rightarrow> bool" where
  "moved p dq dr rs rs' \<longleftrightarrow> distinct (map iv_ProductID rs') \<and>
     (\<exists>r r'. stock_row rs p = Some r \<and> stock_row rs' = (stock_row rs)(p \<mapsto> r') \<and>
        iv_Quantity r' = iv_Quantity r + dq \<and> iv_Reserved r' = iv_Reserved r + dr \<and>
        0 \<le> iv_Reserved r' \<and> iv_Reserved r' \<le> iv_Quantity r')"

lemma stock_update:
  assumes u: "sql_update (\<lambda>r. iv_ProductID r = p \<and> Q r)
      (\<lambda>r. set_stock c (iv_Quantity r + dq) (iv_Reserved r + dr) r) rs = Inr (rs', n)"
    and n: "n \<noteq> 0" and d: "distinct (map iv_ProductID rs)"
  shows "moved p dq dr rs rs'"
proof -
  have key: "iv_ProductID r' = iv_ProductID r"
    if "set_stock c (iv_Quantity r + dq) (iv_Reserved r + dr) r = Inr r'" for r r'
    using set_stock_Inr[OF that] by simp
  from sql_update_by_id[OF u key d] n obtain r r' where
    r: "stock_row rs p = Some r" "set_stock c (iv_Quantity r + dq) (iv_Reserved r + dr) r = Inr r'"
      "stock_row rs' = (stock_row rs)(p := Some r')"
    by auto
  have "map iv_ProductID rs' = map iv_ProductID rs" by (rule sql_update_keys[OF u]) (rule key)
  with d r set_stock_Inr[OF r(2)] show ?thesis unfolding moved_def by (intro conjI exI[of _ r] exI[of _ r']) simp_all
qed

lemma Reserve_moves:
  assumes "Reserve c p q rs = (None, rs')" "distinct (map iv_ProductID rs)"
  shows "moved p 0 q rs rs'"
  using assms(1) by (auto simp: Reserve_def sql_simps intro!: stock_update[OF _ _ assms(2)])

lemma Decrease_moves:
  assumes "Decrease c p q rs = (None, rs')" "distinct (map iv_ProductID rs)"
  shows "moved p (- q) (- q) rs rs'"
  using assms(1) by (auto simp: Decrease_def sql_simps intro!: stock_update[OF _ _ assms(2)])

section \<open>Sums over the orders\<close>

definition ordered :: "string \<Rightarrow> string \<Rightarrow> Order list \<Rightarrow> int" where
  "ordered st p os = (\<Sum>x\<leftarrow>os. if o_ProductID x = p \<and> o_Status x = st then o_Quantity x else 0)"

lemma ordered_snoc:
  "ordered st p (os @ [x]) = ordered st p os + (if o_ProductID x = p \<and> o_Status x = st then o_Quantity x else 0)"
  by (simp add: ordered_def)

lemma list_all2_in_set: "list_all2 R xs ys \<Longrightarrow> y \<in> set ys \<Longrightarrow> \<exists>x \<in> set xs. R x y"
  by (induction rule: list_all2_induct) auto

lemma sql_update_none: "(\<And>r. r \<in> set rs \<Longrightarrow> \<not> P r) \<Longrightarrow> sql_update P g rs = Inr (rs, 0)"
  by (induction rs) auto

text \<open>An update of the one row with a key changes a sum by the difference of that row.\<close>

lemma sum_update_by_key:
  assumes "sql_update (\<lambda>r. k r = i) g rs = Inr (rs', n)" "distinct (map k rs)" "lookup_by k rs i = Some r"
    "g r = Inr r'"
  shows "(\<Sum>x\<leftarrow>rs'. f x) = (\<Sum>x\<leftarrow>rs. f x) + (f r' - f r :: int)"
  using assms
proof (induction rs arbitrary: rs' n)
  case (Cons x rs)
  show ?case
  proof (cases "k x = i")
    case True
    with Cons.prems have x: "x = r" by (simp add: lookup_by_def)
    have "sql_update (\<lambda>r. k r = i) g rs = Inr (rs, 0)"
      using Cons.prems(2) True by (intro sql_update_none) (auto simp: image_iff)
    with Cons.prems(1,4) True x have "rs' = r' # rs" by simp
    with x show ?thesis by simp
  next
    case False
    with Cons.prems obtain rs'' m where "sql_update (\<lambda>r. k r = i) g rs = Inr (rs'', m)" "rs' = x # rs''"
      by (auto split: sum.splits)
    with Cons False show ?thesis by (simp add: lookup_by_def)
  qed
qed (simp add: lookup_by_def)

section \<open>The stock adds up\<close>

text \<open>
  The reservation of a product is what its pending orders want, and what is left plus
  what was sold is the original stock; a confirmed order has its event in the outbox.
\<close>

definition stock_fits :: "(string \<Rightarrow> int) \<Rightarrow> Order list \<Rightarrow> string \<Rightarrow> Inventory \<Rightarrow> bool" where
  "stock_fits stock os p r \<longleftrightarrow>
     iv_Reserved r = ordered OrderStatusPending p os \<and>
     iv_Quantity r + ordered OrderStatusConfirmed p os = stock p \<and>
     0 \<le> iv_Reserved r \<and> iv_Reserved r \<le> iv_Quantity r"

definition confirmed_key :: "(uuid \<Rightarrow> string) \<Rightarrow> uuid \<Rightarrow> string \<times> string" where
  "confirmed_key uuid_text i = (''order.confirmed'', ''order-confirmed-'' @ uuid_text i)"

definition order_traced :: "(uuid \<Rightarrow> string) \<Rightarrow> (string \<times> string) set \<Rightarrow> Order \<Rightarrow> bool" where
  "order_traced uuid_text keys x \<longleftrightarrow>
     o_Status x = OrderStatusPending \<or> o_Status x = OrderStatusConfirmed \<and> confirmed_key uuid_text (o_ID x) \<in> keys"

definition balanced :: "(uuid \<Rightarrow> string) \<Rightarrow> (string \<Rightarrow> int) \<Rightarrow> app_db \<Rightarrow> bool" where
  "balanced uuid_text stock db \<longleftrightarrow>
     wf_table (t_outbox db) \<and> distinct (map iv_ProductID (t_inventory db)) \<and> distinct (map o_ID (t_orders db)) \<and>
     (\<forall>p r. stock_row (t_inventory db) p = Some r \<longrightarrow> stock_fits stock (t_orders db) p r) \<and>
     (\<forall>x \<in> set (t_orders db). order_traced uuid_text (outbox_keys (t_outbox db)) x)"

lemma order_traced_mono: "order_traced ut K x \<Longrightarrow> K \<subseteq> K' \<Longrightarrow> order_traced ut K' x"
  by (auto simp: order_traced_def)

lemma tracks_keys: "tracks rs rs' \<Longrightarrow> wf_table rs \<Longrightarrow> outbox_keys rs \<subseteq> outbox_keys rs'"
proof
  fix k
  assume t: "tracks rs rs'" and wf: "wf_table rs" and "k \<in> outbox_keys rs"
  then obtain r where r: "r \<in> set rs" "k = (EventType r, IdempotencyKey r)" by (auto simp: outbox_keys_def)
  with wf have "row_of rs (ID r) = Some r" by (auto simp: wf_table_def intro: lookup_by_in_set)
  with t obtain r' where r': "row_of rs' (ID r) = Some r'" "row_step\<^sup>*\<^sup>* r r'" by (auto simp: tracks_def)
  from r'(2) have "EventType r' = EventType r \<and> IdempotencyKey r' = IdempotencyKey r"
    by (induction rule: rtranclp_induct) (auto simp: row_step_frame)
  with r(2) lookup_by_SomeD[OF r'(1)] show "k \<in> outbox_keys rs'"
    by (auto simp: outbox_keys_def intro!: image_eqI[of _ _ r'])
qed

text \<open>What leaves orders and inventory alone and only adds to the keys of the outbox keeps the balance.\<close>

lemma balanced_frame:
  assumes "balanced ut stock db" "t_orders db' = t_orders db" "t_inventory db' = t_inventory db"
    "wf_table (t_outbox db')" "outbox_keys (t_outbox db) \<subseteq> outbox_keys (t_outbox db')"
  shows "balanced ut stock db'"
  using assms order_traced_mono unfolding balanced_def by metis

lemma balanced_events:
  assumes "balanced ut stock db" "insert_event a n et ev key k (t_outbox db) = Inr ob"
    "t_orders db' = t_orders db" "t_inventory db' = t_inventory db" "t_outbox db' = ob"
  shows "balanced ut stock db'"
  using insert_event_added[OF assms(2)] assms
  by (intro balanced_frame[OF assms(1)]) (auto simp: outbox_keys_def balanced_def)

lemma OrderStatus_distinct [simp]:
  "OrderStatusPending \<noteq> OrderStatusConfirmed" "OrderStatusConfirmed \<noteq> OrderStatusPending"
  by (simp_all add: OrderStatusPending_def OrderStatusConfirmed_def)

lemma moved_fits:
  assumes m: "moved p dq dr rs rs'" and fit: "\<And>q r. stock_row rs q = Some r \<Longrightarrow> stock_fits stock os q r"
    and pend: "\<And>q. ordered OrderStatusPending q os' = ordered OrderStatusPending q os + (if q = p then dr else 0)"
    and conf: "\<And>q. ordered OrderStatusConfirmed q os' = ordered OrderStatusConfirmed q os - (if q = p then dq else 0)"
    and q: "stock_row rs' q = Some r"
  shows "stock_fits stock os' q r"
proof -
  from m obtain x x' where x: "stock_row rs p = Some x" "stock_row rs' = (stock_row rs)(p \<mapsto> x')"
    "iv_Quantity x' = iv_Quantity x + dq" "iv_Reserved x' = iv_Reserved x + dr" "0 \<le> iv_Reserved x'"
    "iv_Reserved x' \<le> iv_Quantity x'"
    by (auto simp: moved_def)
  show ?thesis
  proof (cases "q = p")
    case True
    with x q fit[OF x(1)] show ?thesis by (simp add: stock_fits_def pend conf)
  next
    case False
    with x(2) q have "stock_fits stock os q r" by (intro fit) simp
    with False show ?thesis by (simp add: stock_fits_def pend conf)
  qed
qed

lemma create_order_commit:
  assumes c: "create_order_body a req db = Commit x db'" and d: "distinct (map iv_ProductID (t_inventory db))"
  shows "x = new_order a req \<and> a_uuid a \<notin> o_ID ` set (t_orders db) \<and>
    (\<exists>iv r. db' = db\<lparr>t_inventory := iv, t_orders := t_orders db @ [new_order a req], t_outbox := t_outbox db @ [r]\<rparr> \<and>
       moved (cr_ProductID req) 0 (cr_Quantity req) (t_inventory db) iv \<and> EventType r = ''order.created'' \<and>
       IdempotencyKey r = a_uuid_text a (a_uuid a) \<and> Status r = OutboxStatusEnqueued \<and>
       (wf_table (t_outbox db) \<longrightarrow> wf_table (t_outbox db @ [r])))"
proof -
  let ?o = "new_order a req"
  from c obtain iv os ob where
    iv: "Reserve (a_stmt a 0) (cr_ProductID req) (cr_Quantity req) (t_inventory db) = (None, iv)"
    and os: "Order_Create (a_stmt a 1) ?o (t_orders db) = (None, os)"
    and ob: "\<exists>ev. insert_event a 2 ''order.created'' ev (a_uuid_text a (o_ID ?o)) 5 (t_outbox db) = Inr ob"
    and db': "db' = db\<lparr>t_inventory := iv, t_orders := os, t_outbox := ob\<rparr>"
    by (auto simp: create_order_body_def Let_def split: prod.splits option.splits sum.splits)
  have "x = ?o" using c by (simp add: create_order_body_def Let_def split: prod.splits option.splits sum.splits)
  moreover have "os = t_orders db @ [?o]" "o_ID ?o \<notin> o_ID ` set (t_orders db)"
    using os by (auto simp: Order_Create_def sql_simps list_ex_iff)
  moreover have "o_ID ?o = a_uuid a" by (simp add: new_order_def)
  moreover from ob obtain r where "ob = t_outbox db @ [r]" "EventType r = ''order.created''"
    "IdempotencyKey r = a_uuid_text a (o_ID ?o)" "Status r = OutboxStatusEnqueued" "wf_table (t_outbox db) \<longrightarrow> wf_table ob"
    using insert_event_added by blast
  ultimately show ?thesis
    using Reserve_moves[OF iv d] db' by (intro conjI exI[of _ iv] exI[of _ r]) simp_all
qed

lemma create_order_balanced [keeps_inv]:
  assumes b: "balanced ut stock db" and c: "create_order_body a req db = Commit x db'"
  shows "balanced ut stock db'"
proof -
  let ?o = "new_order a req" and ?os = "t_orders db @ [new_order a req]"
  have d: "distinct (map iv_ProductID (t_inventory db))" using b by (simp add: balanced_def)
  from create_order_commit[OF c d] obtain iv r where id: "a_uuid a \<notin> o_ID ` set (t_orders db)"
    and db': "db' = db\<lparr>t_inventory := iv, t_orders := ?os, t_outbox := t_outbox db @ [r]\<rparr>"
    and iv: "moved (cr_ProductID req) 0 (cr_Quantity req) (t_inventory db) iv"
    and wf: "wf_table (t_outbox db) \<longrightarrow> wf_table (t_outbox db @ [r])"
    by blast
  have keys: "outbox_keys (t_outbox db) \<subseteq> outbox_keys (t_outbox db @ [r])" by (auto simp: outbox_keys_def)
  have o: "o_ProductID ?o = cr_ProductID req" "o_Quantity ?o = cr_Quantity req" "o_Status ?o = OrderStatusPending"
    "o_ID ?o = a_uuid a" by (simp_all add: new_order_def)
  have "stock_fits stock ?os p y" if "stock_row iv p = Some y" for p y
    by (rule moved_fits[OF iv _ _ _ that, of stock "t_orders db"])
      (use b in \<open>simp_all add: balanced_def ordered_snoc o\<close>)
  moreover have "order_traced ut (outbox_keys (t_outbox db @ [r])) y" if "y \<in> set ?os" for y
  proof (cases "y = ?o")
    case True
    then show ?thesis by (simp add: order_traced_def o)
  next
    case False
    with that b have "order_traced ut (outbox_keys (t_outbox db)) y" by (simp add: balanced_def)
    then show ?thesis by (rule order_traced_mono) (rule keys)
  qed
  ultimately show ?thesis using b iv wf id by (auto simp: balanced_def db' moved_def o)
qed

lemma confirm_order_balanced [keeps_inv]:
  assumes b: "balanced ut stock db" and c: "confirm_order_body a i db = Commit x db'" and ut: "a_uuid_text a = ut"
  shows "balanced ut stock db'"
proof -
  from c obtain y iv os ob where
    y: "Order_GetByID (a_stmt a 0) i (t_orders db) = Inr y"
    and os: "Order_UpdateStatus ut (a_stmt a 1) i OrderStatusConfirmed (t_orders db) = (None, os)"
    and iv: "Decrease (a_stmt a 2) (o_ProductID y) (o_Quantity y) (t_inventory db) = (None, iv)"
    and ob: "\<exists>ev. insert_event a 3 ''order.confirmed'' ev (''order-confirmed-'' @ ut i) 5 (t_outbox db) = Inr ob"
    and db': "db' = db\<lparr>t_orders := os, t_inventory := iv, t_outbox := ob\<rparr>"
    by (auto simp: confirm_order_body_def ut split: prod.splits option.splits sum.splits)
  have d: "distinct (map iv_ProductID (t_inventory db))" "distinct (map o_ID (t_orders db))"
    using b by (simp_all add: balanced_def)
  have row: "lookup_by o_ID (t_orders db) i = Some y"
    using y by (cases "outcome (a_stmt a 0)") (auto simp: Order_GetByID_def split: option.splits)
  from ob obtain ev where ev: "insert_event a 3 ''order.confirmed'' ev (''order-confirmed-'' @ ut i) 5 (t_outbox db) = Inr ob" ..
  from insert_event_added[OF ev] b obtain r where r: "ob = t_outbox db @ [r]" "wf_table ob" "(EventType r, IdempotencyKey r) = confirmed_key ut i"
    and new: "confirmed_key ut i \<notin> outbox_keys (t_outbox db)"
    by (auto simp: balanced_def confirmed_key_def)
  have keys: "outbox_keys ob = insert (confirmed_key ut i) (outbox_keys (t_outbox db))"
    by (auto simp: r(1) r(3)[symmetric] outbox_keys_def)
  have y': "y \<in> set (t_orders db)" "o_ID y = i" using row by (auto dest: lookup_by_SomeD)
  with b new have pending: "o_Status y = OrderStatusPending" by (auto simp: balanced_def order_traced_def)
  let ?g = "\<lambda>r. r\<lparr>o_Status := OrderStatusConfirmed, o_UpdatedAt := clock (a_stmt a 1) [] 0\<rparr>"
  let ?v = "varchar [(50, OrderStatusConfirmed)] (\<lambda>r. Inr (?g r))"
  from os obtain n where u: "sql_update (\<lambda>r. o_ID r = i) ?v (t_orders db) = Inr (os, n)"
    by (auto simp: Order_UpdateStatus_def sql_simps)
  have v: "?v y = Inr (?g y)" by (simp add: varchar_def characters_def OrderStatusConfirmed_def)
  have sum: "ordered st p os = ordered st p (t_orders db) +
      ((if o_ProductID y = p \<and> OrderStatusConfirmed = st then o_Quantity y else 0) -
       (if o_ProductID y = p \<and> OrderStatusPending = st then o_Quantity y else 0))" for st p
    using sum_update_by_key[OF u d(2) row v, of "\<lambda>x. if o_ProductID x = p \<and> o_Status x = st then o_Quantity x else 0"]
    by (simp add: ordered_def pending)
  have "stock_fits stock os p r" if "stock_row iv p = Some r" for p r
    by (rule moved_fits[OF Decrease_moves[OF iv d(1)] _ _ _ that, of stock "t_orders db"])
      (use b in \<open>simp_all add: balanced_def sum\<close>)
  moreover have "order_traced ut (outbox_keys ob) x" if "x \<in> set os" for x
  proof -
    from list_all2_in_set[OF sql_update_list_all2[OF u, THEN conjunct1] that] obtain z where
      z: "z \<in> set (t_orders db)" "updated_row (\<lambda>r. o_ID r = i) ?v z x" by blast
    with b have "order_traced ut (outbox_keys ob) z" by (auto simp: balanced_def keys order_traced_def)
    with z(2) show ?thesis by (cases "o_ID z = i") (auto simp: order_traced_def keys)
  qed
  moreover have "map o_ID os = map o_ID (t_orders db)" by (rule sql_update_keys[OF u]) auto
  ultimately show ?thesis
    using b Decrease_moves[OF iv d(1)] r(2) d(2) by (auto simp: balanced_def db' moved_def)
qed

section \<open>Every reachable state\<close>

inductive app_step :: "(uuid \<Rightarrow> string) \<Rightarrow> app_db \<Rightarrow> app_db \<Rightarrow> bool" for uuid_text where
  create: "a_uuid_text a = uuid_text \<Longrightarrow> app_step uuid_text db (snd (CreateOrder a req db))"
| confirm: "a_uuid_text a = uuid_text \<Longrightarrow> app_step uuid_text db (snd (ConfirmOrder a orderID db))"
| register: "a_uuid_text a = uuid_text \<Longrightarrow> app_step uuid_text db (snd (RegisterUser a reg db))"
| update: "a_uuid_text a = uuid_text \<Longrightarrow> app_step uuid_text db (snd (UpdateUser a userID upd db))"
| notify: "a_uuid_text a = uuid_text \<Longrightarrow> app_step uuid_text db (snd (SendNotification a ntf db))"
| dispatch: "outbox_step rp (t_outbox db) ob \<Longrightarrow> app_step uuid_text db (db\<lparr>t_outbox := ob\<rparr>)"

lemma transaction_keeps [keeps_inv]:
  assumes "P db" "\<And>x db'. body db = Commit x db' \<Longrightarrow> P db'"
  shows "P (snd (transaction b cm body db))"
proof (cases "transaction b cm body db")
  case (Pair res db')
  then show ?thesis by (cases rule: transaction_cases) (use assms Pair in auto)
qed

lemma other_services_balanced [keeps_inv]:
  assumes "balanced ut stock db"
  shows "register_user_body a reg db = Commit x db' \<Longrightarrow> balanced ut stock db'"
    "update_user_body a userID upd db = Commit y db' \<Longrightarrow> balanced ut stock db'"
    "send_notification_body a ntf db = Commit z db' \<Longrightarrow> balanced ut stock db'"
  by (auto simp: register_user_body_def update_user_body_def send_notification_body_def Let_def
      split: prod.splits option.splits sum.splits intro: balanced_events[OF assms])

lemma dispatch_balanced [keeps_inv]:
  assumes "outbox_step rp (t_outbox db) ob" "balanced ut stock db"
  shows "balanced ut stock (db\<lparr>t_outbox := ob\<rparr>)"
proof -
  have wf: "wf_table (t_outbox db)" using assms(2) by (simp add: balanced_def)
  note t = outbox_step_tracks[OF assms(1) wf]
  from t tracks_keys[OF t wf] show ?thesis by (intro balanced_frame[OF assms(2)]) (simp_all add: tracks_def)
qed

lemma app_step_balanced: "app_step ut db db' \<Longrightarrow> balanced ut stock db \<Longrightarrow> balanced ut stock db'"
  by (induction rule: app_step.induct, unfold CreateOrder_def ConfirmOrder_def RegisterUser_def UpdateUser_def
      SendNotification_def)
    (blast intro: keeps_inv)+

section \<open>Properties\<close>

text \<open>The goods that leave the shop for the orders of a product in one status: only positive quantities count.\<close>

definition units :: "string \<Rightarrow> string \<Rightarrow> Order list \<Rightarrow> int" where
  "units st p os = (\<Sum>x\<leftarrow>os. if o_ProductID x = p \<and> o_Status x = st then max 0 (o_Quantity x) else 0)"

lemma units_ordered:
  "\<forall>x \<in> set os. o_ProductID x = p \<longrightarrow> 0 \<le> o_Quantity x \<Longrightarrow> units st p os = ordered st p os"
  by (induction os) (auto simp: units_def ordered_def)


text \<open>
  C13: an order and its event are written together: a call of \<open>CreateOrder\<close> that returns the order has
  appended the order, reserved the goods and enqueued exactly one \<open>order.created\<close> event under
  the order's id; a call that fails has done all of that or nothing, and it can have done it only
  when the reply to the commit was lost.
\<close>

theorem CreateOrder_atomic:
  assumes "CreateOrder a req db = (res, db')" "distinct (map iv_ProductID (t_inventory db))"
  shows "(db' = db \<and> (\<exists>e. res = Inl e)) \<or>
    (t_orders db' = t_orders db @ [new_order a req] \<and>
     moved (cr_ProductID req) 0 (cr_Quantity req) (t_inventory db) (t_inventory db') \<and>
     (\<exists>r. t_outbox db' = t_outbox db @ [r] \<and> EventType r = ''order.created'' \<and>
        IdempotencyKey r = a_uuid_text a (a_uuid a) \<and> Status r = OutboxStatusEnqueued) \<and>
     t_users db' = t_users db \<and> t_notifications db' = t_notifications db \<and> t_inbox db' = t_inbox db \<and>
     (res = Inr (new_order a req) \<or> (\<exists>e e'. res = Inl e \<and> a_commit a = ReplyLost e')))"
  using assms(1)[unfolded CreateOrder_def]
proof (cases rule: transaction_cases)
  case unchanged
  moreover have "create_order_body a req db \<noteq> Leave x" for x
    by (auto simp: create_order_body_def Let_def split: prod.splits option.splits sum.splits)
  ultimately show ?thesis
    using assms(1) by (cases "create_order_body a req db"; cases "a_begin a")
      (auto simp: CreateOrder_def transaction_def)
next
  case (committed x)
  with create_order_commit[OF committed(1) assms(2)] show ?thesis by auto
qed

section \<open>A shop\<close>

definition sample_app :: "string \<Rightarrow> uuid \<Rightarrow> app_ctx" where
  "sample_app outbox_id new_id =
     \<lparr>a_begin = Delivered, a_stmt = (\<lambda>n. (sample_ctx 0)\<lparr>new_uuid := outbox_id\<rparr>), a_commit = Delivered,
      a_uuid = new_id, a_now = (\<lambda>_. 0), a_uuid_text = (\<lambda>u. u), a_marshal = (\<lambda>_. Inr ''{}''), a_repo = sample_repo\<rparr>"

definition sample_request :: "int \<Rightarrow> CreateOrderRequest" where
  "sample_request q = \<lparr>cr_UserID = ''u'', cr_ProductID = ''p'', cr_Quantity = q, cr_TotalPrice = 30\<rparr>"

definition sample_shop :: app_db where
  "sample_shop = \<lparr>t_users = [], t_orders = [],
     t_inventory = [\<lparr>iv_ProductID = ''p'', iv_Quantity = 10, iv_Reserved = 0, iv_UpdatedAt = 0\<rparr>],
     t_notifications = [], t_order_confirmations = [], t_user_welcome_credits = [], t_outbox = [], t_inbox = []\<rparr>"

abbreviation shop_ordered :: app_db where
  "shop_ordered \<equiv> snd (CreateOrder (sample_app ''e1'' ''o1'') (sample_request 3) sample_shop)"

abbreviation shop_confirmed :: app_db where
  "shop_confirmed \<equiv> snd (ConfirmOrder (sample_app ''e3'' []) ''o1''
     (snd (CreateOrder (sample_app ''e2'' ''o2'') (sample_request 3) shop_ordered)))"

lemma sample_shop_balanced: "balanced (\<lambda>u. u) (\<lambda>_. 10) sample_shop"
  by (auto simp: balanced_def sample_shop_def wf_table_def stock_fits_def ordered_def lookup_by_def)


theorem CreateOrder_atomic_witness:
  "\<exists>r. t_outbox shop_ordered = [r] \<and> EventType r = ''order.created'' \<and> IdempotencyKey r = ''o1'' \<and>
     t_orders shop_ordered = [new_order (sample_app ''e1'' ''o1'') (sample_request 3)]"
proof -
  obtain res where c: "CreateOrder (sample_app ''e1'' ''o1'') (sample_request 3) sample_shop = (res, shop_ordered)"
    by (metis prod.collapse)
  have "shop_ordered \<noteq> sample_shop" by code_simp
  with CreateOrder_atomic[OF c] show ?thesis
    by (simp add: sample_shop_def sample_app_def) metis
qed

text \<open>
  Only the outbox row protects a confirmed order from being confirmed again: once the dispatcher has
  published the events and the retention job (\<open>DeleteOlderThan\<close>) has removed them, confirming the first order
  again succeeds and takes the goods reserved for the second order, whose confirmation then fails.
\<close>

abbreviation cleaned :: "app_db \<Rightarrow> app_db" where
  "cleaned db \<equiv> db\<lparr>t_outbox := snd (pgx_DeleteOlderThan sample_repo (sample_ctx 1) [OutboxStatusPublished] 0
     (snd (pgx_UpdateBatchToPublished sample_repo (sample_ctx 0) [''e1'', ''e2'', ''e3'']
        (snd (pgx_FetchLockAndMarkPublishing sample_repo (sample_ctx 0) 10 (t_outbox db))))))\<rparr>"

theorem confirm_again_after_cleanup:
  "let (res, db) = ConfirmOrder (sample_app ''e4'' []) ''o1'' (cleaned shop_confirmed)
   in res = Inr () \<and> map_option iv_Reserved (stock_row (t_inventory db) ''p'') = Some 0 \<and>
      ordered OrderStatusPending ''p'' (t_orders db) = 3 \<and>
      isl (fst (ConfirmOrder (sample_app ''e5'' []) ''o2'' db))"
  by code_simp

text \<open>Nothing checks that a requested quantity is positive: a negative order releases other reservations.\<close>

theorem negative_order_releases:
  "let (res, db) = CreateOrder (sample_app ''e2'' ''o2'') (sample_request (- 3)) shop_ordered
   in \<not> isl res \<and> map_option iv_Reserved (stock_row (t_inventory db) ''p'') = Some 0"
  by code_simp

end
