(* ===== verification/App_Benchmark.thy ===== *)
theory App_Benchmark
  imports App_Services
begin

text \<open>
  \<open>src/examples/app/benchmark/main.go\<close>: the load generator of the example.  Modelled are the
  statistics (sorting, average, percentiles, with Go's 64-bit and float64 arithmetic), the
  counting of requests, the channel between the sender and its workers, and the
  output; the HTTP client, \<open>encoding/json\<close>, \<open>encoding/csv\<close> and the formatting verbs for floats
  and times are parameters.
\<close>

section \<open>The statistics\<close>

text \<open>\<open>sortLatencies\<close>: two nested loops that swap neighbours in place.\<close>

definition swap_at :: "nat \<Rightarrow> duration list \<Rightarrow> duration list" where
  "swap_at j xs = (if xs ! j > xs ! (j + 1) then xs[j := xs ! (j + 1), j + 1 := xs ! j] else xs)"

function sort_inner :: "nat \<Rightarrow> nat \<Rightarrow> duration list \<Rightarrow> duration list" where
  "sort_inner j m xs = (if j < m then sort_inner (j + 1) m (swap_at j xs) else xs)"
  by auto
termination by (relation "measure (\<lambda>(j, m, xs). m - j)") auto

function sort_outer :: "nat \<Rightarrow> nat \<Rightarrow> duration list \<Rightarrow> duration list" where
  "sort_outer i n xs = (if i < n - 1 then sort_outer (i + 1) n (sort_inner 0 (n - i - 1) xs) else xs)"
  by auto
termination by (relation "measure (\<lambda>(i, n, xs). n - i)") auto

definition sortLatencies :: "duration list \<Rightarrow> duration list" where
  "sortLatencies latencies = sort_outer 0 (length latencies) latencies"

declare sort_inner.simps [simp del] sort_outer.simps [simp del]

lemma sort_unfold:
  "j < m \<Longrightarrow> sort_inner j m xs = sort_inner (j + 1) m (swap_at j xs)" "\<not> j < m \<Longrightarrow> sort_inner j m xs = xs"
  "i < n - 1 \<Longrightarrow> sort_outer i n xs = sort_outer (i + 1) n (sort_inner 0 (n - i - 1) xs)"
  "\<not> i < n - 1 \<Longrightarrow> sort_outer i n xs = xs"
  by (simp_all add: sort_inner.simps[of j m xs] sort_outer.simps[of i n xs])

definition calculateAvgLatency :: "duration list \<Rightarrow> string + duration" where
  "calculateAvgLatency latencies =
     (let total = foldl (\<lambda>t l. wrap64 (t + l)) 0 latencies
      in if latencies = [] then Inl ''integer divide by zero''
         else Inr (go_quot total (int (length latencies))))"

text \<open>An index outside of the slice panics.\<close>

definition calculatePercentile :: "duration list \<Rightarrow> rat \<Rightarrow> string + duration" where
  "calculatePercentile sortedLatencies percentile =
     (let n = int (length sortedLatencies);
          index = to_int64 (float64 (of_int n * float64 percentile));
          index = (if index \<ge> n then n - 1 else index)
      in if index < 0 then Inl ''index out of range'' else Inr (sortedLatencies ! nat index))"

text \<open>The latencies of a result; the values in milliseconds are derived from these.\<close>

record latency_stats =
  MinLatency :: duration
  MaxLatency :: duration
  AvgLatency :: duration
  P50Latency :: duration
  P95Latency :: duration
  P99Latency :: duration

definition milliseconds :: "duration \<Rightarrow> rat" where
  "milliseconds d = float64 (float64 (of_int (go_quot d 1000)) / 1000)"

definition summarise :: "duration list \<Rightarrow> string + latency_stats" where
  "summarise latencies =
     (if latencies = [] then Inr \<lparr>MinLatency = 0, MaxLatency = 0, AvgLatency = 0, P50Latency = 0, P95Latency = 0, P99Latency = 0\<rparr>
      else
        let s = sortLatencies latencies
        in case (calculateAvgLatency s, calculatePercentile s (50 / 100),
                 calculatePercentile s (95 / 100), calculatePercentile s (99 / 100)) of
             (Inr avg, Inr p50, Inr p95, Inr p99) \<Rightarrow>
               Inr \<lparr>MinLatency = s ! 0, MaxLatency = s ! (length s - 1), AvgLatency = avg,
                    P50Latency = p50, P95Latency = p95, P99Latency = p99\<rparr>
           | _ \<Rightarrow> Inl ''panic'')"

section \<open>The requests\<close>

record BenchmarkConfig =
  bc_APIEndpoint :: string
  bc_NumRequests :: int
  bc_Concurrency :: int
  bc_RequestType :: string
  bc_Duration :: duration

text \<open>The common part of the three senders: marshal, post, expect the status 201.\<close>

definition post_created ::
  "(string \<Rightarrow> string \<Rightarrow> goerr + int) \<Rightarrow> string \<Rightarrow> goerr + string \<Rightarrow> goerr option" where
  "post_created post url marshalled =
     (case marshalled of
        Inl err \<Rightarrow> Some err
      | Inr body \<Rightarrow>
          (case post url body of
             Inl err \<Rightarrow> Some err
           | Inr status \<Rightarrow>
               if status \<noteq> 201 then Some (ErrorString (''unexpected status code: '' @ int_text status)) else None))"

text \<open>Go's remainder; the three calls of \<open>time.Now\<close> give three readings of the clock.\<close>

definition go_rem :: "int \<Rightarrow> int \<Rightarrow> int" where
  "go_rem a b = a - go_quot a b * b"

definition pad3 :: "int \<Rightarrow> string" where
  "pad3 x = (let t = int_text x in replicate (3 - length t) (CHR ''0'') @ t)"

definition order_request :: "uuid \<Rightarrow> int \<Rightarrow> int \<Rightarrow> int \<Rightarrow> CreateOrderRequest" where
  "order_request userID now1 now2 now3 =
     \<lparr>cr_UserID = userID, cr_ProductID = ''product-'' @ pad3 (1 + go_rem now1 5),
      cr_Quantity = 1 + go_rem now2 10, cr_TotalPrice = 1000 + go_rem now3 9000\<rparr>"

definition sendOrderRequest ::
  "(string \<Rightarrow> string \<Rightarrow> goerr + int) \<Rightarrow> (CreateOrderRequest \<Rightarrow> goerr + string) \<Rightarrow> string \<Rightarrow>
   uuid \<Rightarrow> int \<Rightarrow> int \<Rightarrow> int \<Rightarrow> goerr option" where
  "sendOrderRequest post marshal endpoint userID now1 now2 now3 =
     post_created post (endpoint @ ''/api/orders'') (marshal (order_request userID now1 now2 now3))"

definition sendUserRequest ::
  "(string \<Rightarrow> string \<Rightarrow> goerr + int) \<Rightarrow> (CreateUserRequest \<Rightarrow> goerr + string) \<Rightarrow> string \<Rightarrow>
   uuid \<Rightarrow> int \<Rightarrow> goerr option" where
  "sendUserRequest post marshal endpoint u now =
     post_created post (endpoint @ ''/api/users'')
       (marshal \<lparr>cu_Email = ''user-'' @ take 8 u @ ''@example.com'', cu_Name = ''User '' @ int_text (go_rem now 10000)\<rparr>)"

definition notifTypes :: "string list" where
  "notifTypes = [''email'', ''sms'', ''push'']"

definition sendNotificationRequest ::
  "(string \<Rightarrow> string \<Rightarrow> goerr + int) \<Rightarrow> (SendNotificationRequest \<Rightarrow> goerr + string) \<Rightarrow> string \<Rightarrow>
   uuid \<Rightarrow> int \<Rightarrow> string + goerr option" where
  "sendNotificationRequest post marshal endpoint u now =
     (let k = go_rem now (int (length notifTypes))
      in if k < 0 then Inl ''index out of range''
         else Inr (post_created post (endpoint @ ''/api/notifications'')
           (marshal \<lparr>sn_Type = notifTypes ! nat k, sn_Recipient = ''user-'' @ take 8 u @ ''@example.com'',
              sn_Subject = ''Benchmark Test Notification'', sn_Body = ''This is a benchmark test notification.''\<rparr>)))"

section \<open>The worker pool\<close>

record bench_counters =
  totalRequests :: int
  successRequests :: int
  failedRequests :: int
  latencies :: "duration list"

definition no_requests :: bench_counters where
  "no_requests = \<lparr>totalRequests = 0, successRequests = 0, failedRequests = 0, latencies = []\<rparr>"

definition record_request :: "duration \<Rightarrow> goerr option \<Rightarrow> bench_counters \<Rightarrow> bench_counters" where
  "record_request latency err c =
     (let c = c\<lparr>latencies := latencies c @ [latency], totalRequests := wrap64 (totalRequests c + 1)\<rparr>
      in case err of
           None \<Rightarrow> c\<lparr>successRequests := wrap64 (successRequests c + 1)\<rparr>
         | Some e \<Rightarrow> c\<lparr>failedRequests := wrap64 (failedRequests c + 1)\<rparr>)"

definition known_type :: "BenchmarkConfig \<Rightarrow> bool" where
  "known_type cfg \<longleftrightarrow> bc_RequestType cfg \<in> {''order'', ''user'', ''notification''}"

text \<open>
  The sender and its workers around the channel of capacity \<open>NumRequests\<close>: a worker that
  receives a request records its outcome, or, when the type is unknown, ends.
\<close>

record pool =
  sent :: nat
  queued :: nat
  workers :: nat
  counters :: bench_counters

definition worker_takes :: "BenchmarkConfig \<Rightarrow> duration \<Rightarrow> goerr option \<Rightarrow> pool \<Rightarrow> pool" where
  "worker_takes cfg latency err p =
     (if known_type cfg then p\<lparr>counters := record_request latency err (counters p)\<rparr>
      else p\<lparr>workers := workers p - 1\<rparr>)"

inductive pool_step :: "BenchmarkConfig \<Rightarrow> pool \<Rightarrow> pool \<Rightarrow> bool" for cfg where
  send: "int (queued p) < bc_NumRequests cfg \<Longrightarrow> pool_step cfg p (p\<lparr>sent := sent p + 1, queued := queued p + 1\<rparr>)"
| hand_over: "queued p = 0 \<Longrightarrow> 0 < workers p \<Longrightarrow>
    pool_step cfg p (worker_takes cfg latency err (p\<lparr>sent := sent p + 1\<rparr>))"
| receive: "0 < queued p \<Longrightarrow> 0 < workers p \<Longrightarrow>
    pool_step cfg p (worker_takes cfg latency err (p\<lparr>queued := queued p - 1\<rparr>))"

text \<open>Making a channel of negative size panics.\<close>

definition start_pool :: "BenchmarkConfig \<Rightarrow> string + pool" where
  "start_pool cfg =
     (if bc_NumRequests cfg < 0 then Inl ''makechan: size out of range''
      else Inr \<lparr>sent = 0, queued = 0, workers = nat (bc_Concurrency cfg), counters = no_requests\<rparr>)"

section \<open>The result\<close>

record BenchmarkResult =
  br_Config :: BenchmarkConfig
  br_Timestamp :: time
  br_Counters :: bench_counters
  br_Duration :: duration
  br_RequestsPerSec :: "rat option"
  br_Stats :: latency_stats

text \<open>A float division by zero is not a number, \<open>None\<close>.\<close>

definition benchmark_result ::
  "BenchmarkConfig \<Rightarrow> time \<Rightarrow> duration \<Rightarrow> bench_counters \<Rightarrow> string + BenchmarkResult" where
  "benchmark_result cfg startTime d c =
     (case summarise (latencies c) of
        Inl p \<Rightarrow> Inl p
      | Inr st \<Rightarrow>
          Inr \<lparr>br_Config = cfg, br_Timestamp = startTime, br_Counters = c, br_Duration = d,
               br_RequestsPerSec = (if Seconds d = 0 then None
                 else Some (float64 (float64 (of_int (totalRequests c)) / Seconds d))),
               br_Stats = st\<rparr>)"

section \<open>The output\<close>

datatype bench_output = Printed string | WroteFile string string

definition csv_header :: "string list" where
  "csv_header =
     [''timestamp'', ''os'', ''arch'', ''num_cpu'', ''go_version'', ''request_type'', ''endpoint'', ''concurrency'',
      ''total_requests'', ''success_requests'', ''failed_requests'', ''duration_ms'', ''requests_per_sec'',
      ''min_latency_ms'', ''avg_latency_ms'', ''max_latency_ms'', ''p50_latency_ms'', ''p95_latency_ms'', ''p99_latency_ms'']"

record SystemInfo =
  si_OS :: string
  si_Arch :: string
  si_NumCPU :: int
  si_GoVersion :: string

text \<open>\<open>two\<close> stands for the verb \<open>%.2f\<close> and \<open>rfc3339\<close> for the time format.\<close>

definition csv_record ::
  "(rat option \<Rightarrow> string) \<Rightarrow> (time \<Rightarrow> string) \<Rightarrow> SystemInfo \<Rightarrow> BenchmarkResult \<Rightarrow> string list" where
  "csv_record two rfc3339 sys r =
     (let c = br_Counters r; st = br_Stats r; ms = (\<lambda>d. two (Some (milliseconds d)))
      in [rfc3339 (br_Timestamp r), si_OS sys, si_Arch sys, int_text (si_NumCPU sys), si_GoVersion sys,
          bc_RequestType (br_Config r), bc_APIEndpoint (br_Config r), int_text (bc_Concurrency (br_Config r)),
          int_text (totalRequests c), int_text (successRequests c), int_text (failedRequests c),
          int_text (go_quot (br_Duration r) 1000000), two (br_RequestsPerSec r),
          ms (MinLatency st), ms (AvgLatency st), ms (MaxLatency st), ms (P50Latency st), ms (P95Latency st), ms (P99Latency st)])"

definition generateCSV ::
  "(string list list \<Rightarrow> goerr + string) \<Rightarrow> (rat option \<Rightarrow> string) \<Rightarrow> (time \<Rightarrow> string) \<Rightarrow> SystemInfo \<Rightarrow>
   BenchmarkResult \<Rightarrow> goerr + string" where
  "generateCSV write two rfc3339 sys r = write [csv_header, csv_record two rfc3339 sys r]"

text \<open>The text report; \<open>dur\<close> stands for \<open>Duration.String\<close>, the verb \<open>%v\<close>.\<close>

definition formatTextOutput ::
  "(rat option \<Rightarrow> string) \<Rightarrow> (time \<Rightarrow> string) \<Rightarrow> (duration \<Rightarrow> string) \<Rightarrow> SystemInfo \<Rightarrow> BenchmarkResult \<Rightarrow> string" where
  "formatTextOutput two rfc3339 dur sys r =
     (let c = br_Counters r; st = br_Stats r; ms = (\<lambda>d. dur d @ '' ('' @ two (Some (milliseconds d)) @ ''ms)'')
      in concat (map (\<lambda>l. l @ [CHR 0x0A])
        [[], ''=== System Info ==='',
         ''OS:                 '' @ si_OS sys,
         ''Arch:               '' @ si_Arch sys,
         ''CPU:                '' @ int_text (si_NumCPU sys) @ '' cores'',
         ''Go:                 '' @ si_GoVersion sys,
         [], ''=== Benchmark Config ==='',
         ''Timestamp:          '' @ rfc3339 (br_Timestamp r),
         ''Request Type:       '' @ bc_RequestType (br_Config r),
         ''Endpoint:           '' @ bc_APIEndpoint (br_Config r),
         ''Concurrency:        '' @ int_text (bc_Concurrency (br_Config r)),
         [], ''=== Results ==='',
         ''Total Requests:     '' @ int_text (totalRequests c),
         ''Success Requests:   '' @ int_text (successRequests c),
         ''Failed Requests:    '' @ int_text (failedRequests c),
         ''Duration:           '' @ dur (br_Duration r),
         ''Requests/sec:       '' @ two (br_RequestsPerSec r),
         [], ''=== Latency ==='',
         ''Min:                '' @ ms (MinLatency st),
         ''Avg:                '' @ ms (AvgLatency st),
         ''Max:                '' @ ms (MaxLatency st),
         ''P50:                '' @ ms (P50Latency st),
         ''P95:                '' @ ms (P95Latency st),
         ''P99:                '' @ ms (P99Latency st)]))"

definition outputResults ::
  "(BenchmarkResult \<Rightarrow> goerr + string) \<Rightarrow> (BenchmarkResult \<Rightarrow> goerr + string) \<Rightarrow> (BenchmarkResult \<Rightarrow> string) \<Rightarrow>
   (string \<Rightarrow> string \<Rightarrow> goerr option) \<Rightarrow> BenchmarkResult \<Rightarrow> string \<Rightarrow> string \<Rightarrow> goerr + bench_output" where
  "outputResults marshalIndent csv formatText writeFile result fmt outputPath =
     (let output =
        (if fmt = ''json'' then
           (case marshalIndent result of
              Inl err \<Rightarrow> Inl (WrapError ''failed to marshal JSON: '' err []) | Inr b \<Rightarrow> Inr b)
         else if fmt = ''csv'' then
           (case csv result of
              Inl err \<Rightarrow> Inl (WrapError ''failed to generate CSV: '' err []) | Inr b \<Rightarrow> Inr b)
         else if fmt = ''text'' then Inr (formatText result)
         else Inl (ErrorString (''unsupported format: '' @ fmt)))
      in case output of
           Inl err \<Rightarrow> Inl err
         | Inr b \<Rightarrow>
             if outputPath \<noteq> [] then
               (case writeFile outputPath b of
                  Some err \<Rightarrow> Inl (WrapError ''failed to write file: '' err [])
                | None \<Rightarrow> Inr (WroteFile outputPath b))
             else Inr (Printed b))"

record formats =
  fo_json :: "BenchmarkResult \<Rightarrow> goerr + string"
  fo_csv :: "string list list \<Rightarrow> goerr + string"
  fo_two :: "rat option \<Rightarrow> string"
  fo_rfc3339 :: "time \<Rightarrow> string"
  fo_duration :: "duration \<Rightarrow> string"

text \<open>The exit code of the command, once the benchmark has run, and what it has put out.\<close>

definition bench_exit ::
  "formats \<Rightarrow> SystemInfo \<Rightarrow> (string \<Rightarrow> string \<Rightarrow> goerr option) \<Rightarrow> BenchmarkResult \<Rightarrow> string \<Rightarrow> string \<Rightarrow> int \<times> bench_output option" where
  "bench_exit f sys writeFile result fmt outputPath =
     (case outputResults (fo_json f) (generateCSV (fo_csv f) (fo_two f) (fo_rfc3339 f) sys)
             (formatTextOutput (fo_two f) (fo_rfc3339 f) (fo_duration f) sys) writeFile result fmt outputPath of
        Inl err \<Rightarrow> (1, None)
      | Inr out \<Rightarrow> (0, Some out))"

section \<open>Sorting is sorting\<close>

lemma length_swap_at [simp]: "length (swap_at j xs) = length xs"
  by (simp add: swap_at_def)

lemma mset_swap_at [simp]: "j + 1 < length xs \<Longrightarrow> mset (swap_at j xs) = mset xs"
  by (simp add: swap_at_def mset_swap)

lemma swap_at_nth:
  assumes "j + 1 < length xs"
  shows "swap_at j xs ! j = min (xs ! j) (xs ! (j + 1))" "swap_at j xs ! (j + 1) = max (xs ! j) (xs ! (j + 1))"
    "k \<noteq> j \<Longrightarrow> k \<noteq> j + 1 \<Longrightarrow> swap_at j xs ! k = xs ! k"
  using assms by (auto simp: swap_at_def min_def max_def nth_list_update)

text \<open>One pass carries the largest of the first \<open>m + 1\<close> latencies to place \<open>m\<close>.\<close>

lemma sort_inner_pass:
  assumes "j \<le> m" "m < length xs" "\<forall>k < j. xs ! k \<le> xs ! j"
  shows "length (sort_inner j m xs) = length xs \<and> mset (sort_inner j m xs) = mset xs \<and>
    (\<forall>k \<le> m. sort_inner j m xs ! k \<le> sort_inner j m xs ! m) \<and>
    (\<forall>k. m < k \<and> k < length xs \<longrightarrow> sort_inner j m xs ! k = xs ! k)"
  using assms
proof (induction j m xs rule: sort_inner.induct)
  case (1 j m xs)
  show ?case
  proof (cases "j < m")
    case False
    with "1.prems" have "k \<le> m \<Longrightarrow> xs ! k \<le> xs ! m" for k by (cases "k = m") auto
    with False show ?thesis by (simp add: sort_unfold)
  next
    case True
    with "1.prems" have j: "j + 1 < length xs" by simp
    note nth = swap_at_nth[OF j]
    have "\<forall>k < j + 1. swap_at j xs ! k \<le> swap_at j xs ! (j + 1)"
    proof (intro allI impI)
      fix k assume "k < j + 1"
      with "1.prems"(3) nth show "swap_at j xs ! k \<le> swap_at j xs ! (j + 1)"
        by (cases "k = j") (auto simp: le_max_iff_disj)
    qed
    with "1.IH"[OF True] True j "1.prems" show ?thesis
      by (auto simp: sort_unfold(1) nth(3))
  qed
qed

lemma sort_inner_mset: "m < length xs \<Longrightarrow> mset (sort_inner 0 m xs) = mset xs \<and> length (sort_inner 0 m xs) = length xs"
  using sort_inner_pass[of 0 m xs] by simp

text \<open>After \<open>i\<close> passes the last \<open>i\<close> latencies are in place.\<close>

definition tail_sorted :: "nat \<Rightarrow> duration list \<Rightarrow> bool" where
  "tail_sorted k xs \<longleftrightarrow> (\<forall>a b. a < b \<and> k \<le> b \<and> b < length xs \<longrightarrow> xs ! a \<le> xs ! b)"

lemma in_set_take_nth: "x \<in> set (take k xs) \<longleftrightarrow> (\<exists>a < k. a < length xs \<and> x = xs ! a)"
  by (auto simp: in_set_conv_nth)

lemma tail_sorted_step:
  assumes "tail_sorted (m + 1) xs" "m < length xs"
  shows "tail_sorted m (sort_inner 0 m xs)"
proof -
  let ?ys = "sort_inner 0 m xs"
  have p: "length ?ys = length xs" "mset ?ys = mset xs" "\<forall>k \<le> m. ?ys ! k \<le> ?ys ! m"
    "\<forall>k. m < k \<and> k < length xs \<longrightarrow> ?ys ! k = xs ! k"
    using sort_inner_pass[of 0 m xs] assms(2) by auto
  have drop: "drop (m + 1) ?ys = drop (m + 1) xs" using p(1,4) by (auto intro!: nth_equalityI)
  have "mset (take (m + 1) ?ys) + mset (drop (m + 1) ?ys) = mset (take (m + 1) xs) + mset (drop (m + 1) xs)"
    using p(2) by (simp flip: mset_append)
  with drop have tk: "set (take (m + 1) ?ys) = set (take (m + 1) xs)" by (metis add_right_cancel mset_eq_setD)
  show ?thesis
    unfolding tail_sorted_def
  proof (intro allI impI)
    fix a b assume ab: "a < b \<and> m \<le> b \<and> b < length ?ys"
    show "?ys ! a \<le> ?ys ! b"
    proof (cases "b = m")
      case True
      with ab p(3) show ?thesis by simp
    next
      case False
      with ab p have yb: "?ys ! b = xs ! b" "m + 1 \<le> b" "b < length xs" by auto
      show ?thesis
      proof (cases "a \<le> m")
        case True
        with ab p(1) have "?ys ! a \<in> set (take (m + 1) ?ys)"
          unfolding in_set_take_nth by (intro exI[of _ a]) auto
        then obtain c where "c < m + 1" "?ys ! a = xs ! c" unfolding tk in_set_take_nth by blast
        with assms(1) yb show ?thesis by (auto simp: tail_sorted_def)
      next
        case False
        with ab p yb assms(1) show ?thesis by (auto simp: tail_sorted_def)
      qed
    qed
  qed
qed

lemma sort_outer_sorts:
  assumes "i \<le> n - 1" "n = length xs" "tail_sorted (n - i) xs"
  shows "mset (sort_outer i n xs) = mset xs \<and> sorted (sort_outer i n xs)"
  using assms
proof (induction i n xs rule: sort_outer.induct)
  case (1 i n xs)
  show ?case
  proof (cases "i < n - 1")
    case True
    then have m: "n - i - 1 < length xs" "n - (i + 1) = n - i - 1" "n - i - 1 + 1 = n - i" using "1.prems" by auto
    have "tail_sorted (n - (i + 1)) (sort_inner 0 (n - i - 1) xs)"
      using tail_sorted_step[of "n - i - 1" xs] m "1.prems"(3) by simp
    with "1.IH"[OF True] sort_inner_mset[OF m(1)] True "1.prems" show ?thesis
      by (simp add: sort_unfold(3))
  next
    case False
    with "1.prems" have "xs ! a \<le> xs ! b" if "a < b" "b < length xs" for a b
      using that by (auto simp: tail_sorted_def)
    then have "sorted xs" by (auto simp: sorted_iff_nth_mono_less)
    with False show ?thesis by (simp add: sort_unfold(4))
  qed
qed

text \<open>The bubble sort is the library's sort.\<close>

lemma sortLatencies_eq_sort: "sortLatencies xs = sort xs"
proof -
  have "tail_sorted (length xs) xs" by (simp add: tail_sorted_def)
  with sort_outer_sorts[of 0 "length xs" xs] have "mset (sortLatencies xs) = mset xs" "sorted (sortLatencies xs)"
    by (auto simp: sortLatencies_def)
  then show ?thesis by (metis properties_for_sort)
qed

section \<open>The statistics are right\<close>

definition percentile_index :: "nat \<Rightarrow> rat \<Rightarrow> nat" where
  "percentile_index n p = min (nat \<lfloor>float64 (of_nat n * float64 p)\<rfloor>) (n - 1)"

lemma percentile_rounding:
  assumes "0 < p" "p < 1"
  shows "of_nat n * p - of_nat n * p / 2 ^ 51 \<le> float64 (of_nat n * float64 p)"
    "float64 (of_nat n * float64 p) \<le> of_nat n * p + of_nat n * p / 2 ^ 51"
proof -
  let ?f = "float64 p"
  define x where "x = of_nat n * p"
  define y where "y = of_nat n * ?f"
  have f: "p - p / 2 ^ 53 \<le> ?f" "?f \<le> p + p / 2 ^ 53"
    using float64_error[of p] assms unfolding abs_le_iff by linarith+
  have x: "0 \<le> x" using assms by (simp add: x_def)
  have "x - x / 2 ^ 53 \<le> y" "y \<le> x + x / 2 ^ 53"
    using mult_left_mono[OF f(1), of "of_nat n"] mult_left_mono[OF f(2), of "of_nat n"]
    by (simp_all add: x_def y_def right_diff_distrib distrib_left mult_ac)
  moreover have "y - \<bar>y\<bar> / 2 ^ 53 \<le> float64 y" "float64 y \<le> y + \<bar>y\<bar> / 2 ^ 53"
    using float64_error[of y] unfolding abs_le_iff by linarith+
  moreover have "\<bar>y\<bar> = y" using calculation(1) x by simp
  ultimately have "x - x / 2 ^ 51 \<le> float64 y" "float64 y \<le> x + x / 2 ^ 51" using x by simp_all
  then show "of_nat n * p - of_nat n * p / 2 ^ 51 \<le> float64 (of_nat n * float64 p)"
    "float64 (of_nat n * float64 p) \<le> of_nat n * p + of_nat n * p / 2 ^ 51"
    by (simp_all only: x_def y_def)
qed

lemma percentile_nonneg:
  assumes "0 < p" "p < 1"
  shows "0 \<le> float64 (of_nat n * float64 p)"
proof -
  have "0 \<le> x - x / 2 ^ 51" if "0 \<le> x" for x :: rat using that by simp
  from this[of "of_nat n * p"] assms have "0 \<le> of_nat n * p - of_nat n * p / 2 ^ 51" by simp
  with percentile_rounding(1)[OF assms, of n] show ?thesis by (rule order_trans[rotated])
qed

lemma calculatePercentile_index:
  assumes "xs \<noteq> []" "0 < p" "p < 1"
  shows "calculatePercentile xs p = Inr (xs ! percentile_index (length xs) p)"
proof -
  define z where "z = \<lfloor>float64 (of_nat (length xs) * float64 p)\<rfloor>"
  have z: "0 \<le> z" "to_int64 (float64 (of_nat (length xs) * float64 p)) = z"
    using percentile_nonneg[OF assms(2,3), of "length xs"] by (simp_all add: z_def to_int64_def)
  have "nat (if int (length xs) \<le> z then int (length xs) - 1 else z) = min (nat z) (length xs - 1)"
    using z(1) by auto
  with z assms(1) show ?thesis
    by (auto simp: calculatePercentile_def percentile_index_def Let_def simp flip: z_def)
qed

lemma percentile_index_less: "0 < n \<Longrightarrow> percentile_index n p < n"
  by (auto simp: percentile_index_def)

lemma percentile_index_rank:
  assumes "0 < p" "p < 1" "0 < n" "n < 2 ^ 40"
  shows "of_nat n * p - 1 / 1000 < of_nat (percentile_index n p) + 1"
proof -
  define z where "z = float64 (of_nat n * float64 p)"
  define x where "x = of_nat n * p"
  have n: "(of_nat n :: rat) < 2 ^ 40" using assms(4) by (metis of_nat_less_iff of_nat_numeral of_nat_power)
  have x: "0 \<le> x" "x \<le> of_nat n" using assms by (simp_all add: x_def mult_left_le)
  have "x - x / 2 ^ 51 \<le> z" using percentile_rounding(1)[OF assms(1,2), of n] by (simp add: x_def z_def)
  then have xz: "x - 1 / 1000 < z" using n x by simp
  have fl: "z < of_int \<lfloor>z\<rfloor> + 1" "0 \<le> \<lfloor>z\<rfloor>"
    using floor_correct[of z] percentile_nonneg[OF assms(1,2), of n] by (simp_all add: z_def)
  show ?thesis
  proof (cases "nat \<lfloor>z\<rfloor> \<le> n - 1")
    case True
    then have "of_nat (percentile_index n p) = (of_int \<lfloor>z\<rfloor> :: rat)"
      using fl(2) by (simp add: percentile_index_def flip: z_def)
    with xz fl(1) show ?thesis by (simp add: x_def)
  next
    case False
    then have "percentile_index n p + 1 = n" using assms by (simp add: percentile_index_def flip: z_def)
    then have "of_nat (percentile_index n p) + 1 = (of_nat n :: rat)" by (metis of_nat_1 of_nat_add)
    with x(2) show ?thesis unfolding x_def by linarith
  qed
qed

lemma percentile_index_mono:
  assumes "0 < p" "p < 1" "0 < q" "q < 1" "p * (101 / 100) \<le> q"
  shows "percentile_index n p \<le> percentile_index n q"
proof -
  have "x + x / 2 ^ 51 \<le> y - y / 2 ^ 51" if "x * (101 / 100) \<le> y" "0 \<le> x" for x y :: rat using that by simp
  from this[of "of_nat n * p" "of_nat n * q"] mult_left_mono[OF assms(5), of "of_nat n"] assms
  have "of_nat n * p + of_nat n * p / 2 ^ 51 \<le> of_nat n * q - of_nat n * q / 2 ^ 51" by (simp add: mult.assoc)
  with percentile_rounding(2)[OF assms(1,2), of n] percentile_rounding(1)[OF assms(3,4), of n]
  have "float64 (of_nat n * float64 p) \<le> float64 (of_nat n * float64 q)" by linarith
  then show ?thesis unfolding percentile_index_def by (intro min.mono nat_mono floor_mono) simp_all
qed

text \<open>The sum of the latencies does not overflow as long as it stays below \<open>2^63\<close> ns, 292 years.\<close>

lemma average_exact:
  assumes "xs \<noteq> []" "\<forall>l \<in> set xs. 0 \<le> l" "sum_list xs < 2 ^ 63"
  shows "calculateAvgLatency xs = Inr (sum_list xs div int (length xs))"
proof -
  have "foldl (\<lambda>t l. wrap64 (t + l)) a ys = a + sum_list ys"
    if "0 \<le> a" "\<forall>l \<in> set ys. 0 \<le> l" "a + sum_list ys < 2 ^ 63" for a ys
    using that
  proof (induction ys arbitrary: a)
    case (Cons l ys)
    have "0 \<le> sum_list ys" using Cons.prems by (intro sum_list_nonneg) auto
    then have "in_int64 (a + l)" using Cons.prems by (auto simp: in_int64_def)
    with Cons.IH[of "a + l"] Cons.prems show ?case by simp
  qed simp
  from this[of 0 xs] assms have "foldl (\<lambda>t l. wrap64 (t + l)) 0 xs = sum_list xs" by simp
  moreover have "0 \<le> sum_list xs" using assms by (intro sum_list_nonneg) auto
  ultimately show ?thesis using assms(1) by (simp add: calculateAvgLatency_def go_quot_nonneg)
qed

text \<open>The share of the latencies up to a reported percentile.\<close>

abbreviation covers :: "duration list \<Rightarrow> rat \<Rightarrow> duration \<Rightarrow> bool" where
  "covers xs p v \<equiv> of_nat (length xs) * p - 1 / 1000 < of_nat (length (filter (\<lambda>l. l \<le> v) xs))"

lemma sorted_covers:
  assumes "sorted s" "s \<noteq> []" "length s < 2 ^ 40" "0 < p" "p < 1"
  shows "covers s p (s ! percentile_index (length s) p)"
proof -
  let ?i = "percentile_index (length s) p"
  have i: "?i < length s" using assms(2) by (simp add: percentile_index_less)
  have "\<forall>l \<in> set (take (Suc ?i) s). l \<le> s ! ?i"
    using assms(1) i by (auto simp: in_set_take_nth less_Suc_eq_le intro: sorted_nth_mono)
  then have "length (filter (\<lambda>l. l \<le> s ! ?i) (take (Suc ?i) s)) = Suc ?i" using i by (simp add: filter_True)
  then have "Suc ?i \<le> length (filter (\<lambda>l. l \<le> s ! ?i) (take (Suc ?i) s @ drop (Suc ?i) s))"
    by (simp only: filter_append length_append)
  then have "(of_nat ?i + 1 :: rat) \<le> of_nat (length (filter (\<lambda>l. l \<le> s ! ?i) s))"
    by (metis append_take_drop_id of_nat_Suc of_nat_le_iff add.commute)
  with percentile_index_rank[of p "length s"] assms show ?thesis by fastforce
qed

lemma filter_length_sort: "length (filter P (sort xs)) = length (filter P xs)"
  by (metis mset_filter mset_sort size_mset)

lemma sum_list_between:
  fixes xs :: "int list"
  assumes "\<forall>l \<in> set xs. a \<le> l \<and> l \<le> b"
  shows "a * int (length xs) \<le> sum_list xs \<and> sum_list xs \<le> b * int (length xs)"
  using assms by (induction xs) (auto simp: algebra_simps)

lemma sorted_ends:
  assumes "sorted s" "s \<noteq> []"
  shows "s ! 0 = Min (set s)" "s ! (length s - 1) = Max (set s)"
proof -
  have "0 < length s" "length s - 1 < length s" using assms(2) by simp_all
  then have "s ! 0 \<in> set s" "s ! (length s - 1) \<in> set s" by (simp_all only: nth_mem)
  moreover have "s ! 0 \<le> x" "x \<le> s ! (length s - 1)" if "x \<in> set s" for x
    using that assms(1) by (auto simp: in_set_conv_nth intro!: sorted_nth_mono)
  ultimately show "s ! 0 = Min (set s)" "s ! (length s - 1) = Max (set s)"
    by (auto intro!: Min_eqI[symmetric] Max_eqI[symmetric])
qed

lemma average_between:
  assumes "xs \<noteq> []" "\<forall>l \<in> set xs. a \<le> l \<and> l \<le> b"
  shows "a \<le> sum_list xs div int (length xs) \<and> sum_list xs div int (length xs) \<le> b"
proof -
  have n: "0 < int (length xs)" using assms(1) by simp
  note bd = sum_list_between[OF assms(2)]
  have "a * int (length xs) div int (length xs) \<le> sum_list xs div int (length xs)"
    "sum_list xs div int (length xs) \<le> b * int (length xs) div int (length xs)"
    using bd n by (intro zdiv_mono1; simp)+
  with n show ?thesis by simp
qed

lemma sum_list_sort: "sum_list (sort xs) = sum_list (xs :: int list)"
  by (metis mset_sort sum_mset_sum_list)

text \<open>
  C20: the statistics of a benchmark.  The bubble sort is a sort; minimum, maximum and
  percentiles are latencies that were measured, in the right order, the average lies between
  minimum and maximum, and the P50, P95 and P99 latencies cover their share of the requests.
\<close>

theorem benchmark_statistics:
  assumes "xs \<noteq> []" "\<forall>l \<in> set xs. 0 \<le> l" "sum_list xs < 2 ^ 63" "length xs < 2 ^ 40"
  shows "\<exists>r. summarise xs = Inr r \<and> sortLatencies xs = sort xs \<and>
    MinLatency r = Min (set xs) \<and> MaxLatency r = Max (set xs) \<and>
    MinLatency r \<le> AvgLatency r \<and> AvgLatency r \<le> MaxLatency r \<and>
    P50Latency r \<le> P95Latency r \<and> P95Latency r \<le> P99Latency r \<and>
    {P50Latency r, P95Latency r, P99Latency r} \<subseteq> set xs \<and>
    covers xs (50 / 100) (P50Latency r) \<and> covers xs (95 / 100) (P95Latency r) \<and> covers xs (99 / 100) (P99Latency r)"
proof -
  define s where "s = sort xs"
  have s: "sorted s" "set s = set xs" "length s = length xs" "sum_list s = sum_list xs"
    by (simp_all add: s_def sum_list_sort)
  then have ne: "s \<noteq> []" using assms(1) by auto
  have srt: "sortLatencies xs = s" by (simp add: s_def sortLatencies_eq_sort)
  let ?v = "\<lambda>p. s ! percentile_index (length s) p"
  have pc: "calculatePercentile s (50 / 100) = Inr (?v (50 / 100))" "calculatePercentile s (95 / 100) = Inr (?v (95 / 100))"
    "calculatePercentile s (99 / 100) = Inr (?v (99 / 100))"
    by (rule calculatePercentile_index[OF ne]; simp)+
  have i: "percentile_index (length s) p < length s" for p using ne by (simp add: percentile_index_less)
  have mono: "?v (50 / 100) \<le> ?v (95 / 100)" "?v (95 / 100) \<le> ?v (99 / 100)"
    by (rule sorted_nth_mono[OF s(1) percentile_index_mono i]; simp)+
  have mem: "?v p \<in> set xs" for p using nth_mem[OF i] s(2) by simp
  have cov: "covers xs p (?v p)" if "0 < p" "p < 1" for p
    using sorted_covers[OF s(1) ne _ that] s(3) assms(4) by (simp add: s_def filter_length_sort)
  have avg: "calculateAvgLatency s = Inr (sum_list xs div int (length xs))"
    using average_exact[OF ne] s assms by simp
  have bd: "Min (set xs) \<le> sum_list xs div int (length xs) \<and> sum_list xs div int (length xs) \<le> Max (set xs)"
    by (rule average_between[OF assms(1)]) simp
  show ?thesis
    using assms(1) srt pc mono mem cov[of "50 / 100"] cov[of "95 / 100"] cov[of "99 / 100"] avg bd sorted_ends[OF s(1) ne] s(2)
    by (simp add: summarise_def Let_def flip: s_def)
qed

section \<open>Every request is counted, and a sender that blocks\<close>

definition pool_ok :: "BenchmarkConfig \<Rightarrow> pool \<Rightarrow> bool" where
  "pool_ok cfg p \<longleftrightarrow> int (queued p) \<le> bc_NumRequests cfg \<and>
     (if known_type cfg
      then workers p = nat (bc_Concurrency cfg) \<and> sent p = queued p + length (latencies (counters p)) \<and>
        totalRequests (counters p) = wrap64 (int (length (latencies (counters p)))) \<and>
        wrap64 (successRequests (counters p) + failedRequests (counters p)) = totalRequests (counters p)
      else counters p = no_requests \<and> sent p + workers p = queued p + nat (bc_Concurrency cfg))"

lemma wrap64_Suc: "wrap64 (wrap64 (int n) + 1) = wrap64 (int (Suc n))"
  by (simp add: wrap64_add add.commute)

lemma record_request_simps:
  "latencies (record_request l e c) = latencies c @ [l]"
  "totalRequests (record_request l e c) = wrap64 (totalRequests c + 1)"
  "wrap64 (successRequests (record_request l e c) + failedRequests (record_request l e c)) =
     wrap64 (wrap64 (successRequests c + failedRequests c) + 1)"
  by (auto simp: record_request_def Let_def wrap64_add algebra_simps split: option.splits)

lemma pool_ok_step:
  assumes "pool_step cfg p q" "pool_ok cfg p"
  shows "pool_ok cfg q"
  using assms
proof (cases rule: pool_step.cases)
  case send
  with assms(2) show ?thesis by (auto simp: pool_ok_def)
next
  case (hand_over latency err)
  with assms(2) show ?thesis
    by (cases "known_type cfg") (auto simp: pool_ok_def worker_takes_def record_request_simps wrap64_Suc[simplified])
next
  case (receive latency err)
  with assms(2) show ?thesis
    by (cases "known_type cfg") (auto simp: pool_ok_def worker_takes_def record_request_simps wrap64_Suc[simplified])
qed

lemma pool_reachable_ok:
  assumes "start_pool cfg = Inr p" "(pool_step cfg)\<^sup>*\<^sup>* p q"
  shows "pool_ok cfg q"
  using assms(2)
proof (induction rule: rtranclp_induct)
  case base
  then show ?case using assms(1) by (auto simp: start_pool_def pool_ok_def no_requests_def in_int64_def split: if_splits)
qed (rule pool_ok_step)

text \<open>
  Once the channel is drained every request that was sent is counted, as a success or as a
  failure, with one latency each.
\<close>

lemma benchmark_counts:
  assumes "start_pool cfg = Inr p" "(pool_step cfg)\<^sup>*\<^sup>* p q" "known_type cfg" "queued q = 0" "sent q < 2 ^ 63"
  shows "totalRequests (counters q) = int (sent q) \<and> length (latencies (counters q)) = sent q"
proof -
  have "in_int64 (int (sent q))" using assms(5) by (simp add: in_int64_def)
  with pool_reachable_ok[OF assms(1,2)] assms(3,4) show ?thesis by (simp add: pool_ok_def)
qed

text \<open>
  With an unknown request type each worker ends at its first request, and the sender gets rid of
  \<open>NumRequests + Concurrency\<close> requests at most: a run limited by its duration blocks for ever
  in a send.
\<close>

lemma unknown_type_blocks:
  assumes "start_pool cfg = Inr p" "(pool_step cfg)\<^sup>*\<^sup>* p q" "\<not> known_type cfg"
  shows "sent q \<le> nat (bc_NumRequests cfg) + nat (bc_Concurrency cfg)"
  using pool_reachable_ok[OF assms(1,2)] assms(3) by (auto simp: pool_ok_def)

text \<open>The generated orders are for products 1 to 5 and for 1 to 10 pieces.\<close>

lemma order_request_range:
  assumes "0 \<le> now1" "0 \<le> now2"
  shows "1 \<le> cr_Quantity (order_request u now1 now2 now3) \<and> cr_Quantity (order_request u now1 now2 now3) \<le> 10 \<and>
    cr_ProductID (order_request u now1 now2 now3) \<in> (\<lambda>k. ''product-00'' @ [k]) ` set ''12345''"
proof -
  have rem: "go_rem a b = a mod b" if "0 \<le> a" "0 < b" for a b
    using that by (simp add: go_rem_def go_quot_nonneg minus_div_mult_eq_mod)
  have "map pad3 [1, 2, 3, 4, 5] = map (\<lambda>k. ''00'' @ [k]) ''12345''" by code_simp
  moreover have "now1 mod 5 \<in> {0, 1, 2, 3, 4}" by auto
  ultimately have "pad3 (1 + now1 mod 5) \<in> (\<lambda>k. ''00'' @ [k]) ` set ''12345''" by auto
  then show ?thesis using assms by (auto simp: order_request_def rem)
qed

theorem benchmark_statistics_witness:
  "\<exists>r. summarise [30, 10, 20] = Inr r \<and> MinLatency r = 10 \<and> MaxLatency r = 30 \<and> P50Latency r \<le> P95Latency r"
proof -
  have "Min {30, 10, 20 :: int} = 10" "Max {30, 10, 20 :: int} = 30" by (simp_all add: Min_insert2 Max_insert2)
  with benchmark_statistics[of "[30, 10, 20]"] show ?thesis by auto
qed

section \<open>Output\<close>

lemma csv_fields: "length (csv_record two rfc3339 sys r) = length csv_header"
  by (simp add: csv_record_def csv_header_def Let_def)

text \<open>
  The command succeeds exactly when the report was made in a known format and, with an output path, could
  be written; text needs nothing else.  An unknown format is found only when the benchmark is over.
\<close>

lemma bench_exit_code:
  "fst (bench_exit f sys writeFile r fmt path) = 0 \<longleftrightarrow>
     (\<exists>b. (fmt = ''json'' \<and> fo_json f r = Inr b \<or>
           fmt = ''csv'' \<and> fo_csv f [csv_header, csv_record (fo_two f) (fo_rfc3339 f) sys r] = Inr b \<or>
           fmt = ''text'' \<and> b = formatTextOutput (fo_two f) (fo_rfc3339 f) (fo_duration f) sys r) \<and>
          (path = [] \<or> writeFile path b = None))"
  by (auto simp: bench_exit_def outputResults_def generateCSV_def Let_def split: sum.split option.split)

end
