(* ===== verification/Go_Http.thy ===== *)
theory Go_Http
  imports Go_Errors
begin

text \<open>
  What the commands of the example use of \<open>net/http\<close>: requests, responses, \<open>http.Error\<close> and a
  \<open>ServeMux\<close> with exact patterns.  A path is taken without percent escapes.  A path that is not
  clean is redirected before any handler runs; \<open>clean_path_idem\<close> shows that the redirect
  leads to a path that is served.
\<close>

section \<open>Splitting and joining\<close>

fun split_on :: "'a \<Rightarrow> 'a list \<Rightarrow> 'a list list" where
  "split_on c [] = [[]]"
| "split_on c (x # xs) =
     (if x = c then [] # split_on c xs
      else case split_on c xs of [] \<Rightarrow> [[x]] | seg # segs \<Rightarrow> (x # seg) # segs)"

fun join_with :: "'a \<Rightarrow> 'a list list \<Rightarrow> 'a list" where
  "join_with c [] = []"
| "join_with c [s] = s"
| "join_with c (s # t # ss) = s @ c # join_with c (t # ss)"

lemma split_on_ne [simp]: "split_on c xs \<noteq> []"
  by (induction xs) (auto split: list.splits)

lemma split_on_free: "s \<in> set (split_on c xs) \<Longrightarrow> c \<notin> set s"
  by (induction xs arbitrary: s) (auto split: list.splits if_splits)

lemma split_on_append: "c \<notin> set s \<Longrightarrow> split_on c (s @ c # xs) = s # split_on c xs"
  by (induction s) auto

lemma split_on_single: "c \<notin> set s \<Longrightarrow> split_on c s = [s]"
  by (induction s) auto

lemma split_join: "ss \<noteq> [] \<Longrightarrow> (\<And>s. s \<in> set ss \<Longrightarrow> c \<notin> set s) \<Longrightarrow> split_on c (join_with c ss) = ss"
  by (induction c ss rule: join_with.induct) (auto simp: split_on_single split_on_append)

lemma join_split [simp]: "join_with c (split_on c xs) = xs"
proof (induction xs)
  case (Cons x xs)
  obtain s ss where "split_on c xs = s # ss" by (cases "split_on c xs") auto
  with Cons show ?case by (cases ss) auto
qed simp

section \<open>Clean paths\<close>

text \<open>The elements of a rooted path: empty ones and dots go, two dots remove their predecessor.\<close>

fun clean_segments :: "string list \<Rightarrow> string list \<Rightarrow> string list" where
  "clean_segments acc [] = rev acc"
| "clean_segments acc (s # ss) =
     (if s = [] \<or> s = ''.'' then clean_segments acc ss
      else if s = ''..'' then clean_segments (tl acc) ss
      else clean_segments (s # acc) ss)"

definition cleanPath :: "string \<Rightarrow> string" where
  "cleanPath p =
     (if p = [] then ''/''
      else
        let p = (if hd p = CHR ''/'' then p else CHR ''/'' # p);
            np = CHR ''/'' # join_with (CHR ''/'') (clean_segments [] (split_on (CHR ''/'') p))
        in if last p = CHR ''/'' \<and> np \<noteq> ''/'' then np @ ''/'' else np)"

definition plain :: "string \<Rightarrow> bool" where
  "plain s \<longleftrightarrow> s \<noteq> [] \<and> s \<noteq> ''.'' \<and> s \<noteq> ''..'' \<and> CHR ''/'' \<notin> set s"

lemma clean_segments_plain:
  "\<forall>s \<in> set acc. plain s \<Longrightarrow> \<forall>s \<in> set ss. CHR ''/'' \<notin> set s \<Longrightarrow> \<forall>s \<in> set (clean_segments acc ss). plain s"
proof (induction ss arbitrary: acc)
  case (Cons s ss)
  consider "s = [] \<or> s = ''.''" | "s = ''..''" | "\<not> (s = [] \<or> s = ''.'')" "s \<noteq> ''..''" by blast
  then show ?case
  proof cases
    case 1
    have "\<forall>x \<in> set (clean_segments acc ss). plain x" using Cons.IH[of acc] Cons.prems by simp
    with 1 show ?thesis by auto
  next
    case 2
    have "\<forall>x \<in> set (tl acc). plain x" using Cons.prems(1) by (cases acc) auto
    with Cons.IH[of "tl acc"] Cons.prems(2) have "\<forall>x \<in> set (clean_segments (tl acc) ss). plain x" by simp
    with 2 show ?thesis by simp
  next
    case 3
    then have "plain s" using Cons.prems(2) by (simp add: plain_def)
    with Cons.IH[of "s # acc"] Cons.prems have "\<forall>x \<in> set (clean_segments (s # acc) ss). plain x" by simp
    with 3 show ?thesis by simp
  qed
qed simp

lemma clean_segments_id: "(\<And>s. s \<in> set ss \<Longrightarrow> plain s) \<Longrightarrow> clean_segments acc ss = rev acc @ ss"
  by (induction ss arbitrary: acc) (auto simp: plain_def)

lemma clean_segments_blank: "clean_segments acc (ss @ [[]]) = clean_segments acc ss"
  by (induction acc ss rule: clean_segments.induct) auto

text \<open>A clean path is the root or plain elements with an optional slash behind.\<close>

definition rooted :: "string list \<Rightarrow> bool \<Rightarrow> string" where
  "rooted ss slash = CHR ''/'' # join_with (CHR ''/'') ss @ (if slash \<and> ss \<noteq> [] then ''/'' else [])"

lemma cleanPath_rooted: "\<exists>ss slash. cleanPath p = rooted ss slash \<and> (\<forall>s \<in> set ss. plain s)"
proof (cases "p = []")
  case True
  then show ?thesis by (intro exI[of _ "[]"]) (simp add: cleanPath_def rooted_def)
next
  case False
  define q where "q = (if hd p = CHR ''/'' then p else CHR ''/'' # p)"
  define ss where "ss = clean_segments [] (split_on (CHR ''/'') q)"
  have pl: "\<forall>s \<in> set ss. plain s"
    unfolding ss_def by (rule clean_segments_plain) (auto simp: split_on_free)
  have "join_with (CHR ''/'') ss \<noteq> []" if "ss \<noteq> []"
    using that pl by (cases ss rule: join_with.cases[of "(CHR ''/'', ss)" for ss]) (auto simp: plain_def)
  then have "cleanPath p = rooted ss (last q = CHR ''/'')"
    using False by (auto simp: cleanPath_def rooted_def Let_def simp flip: q_def ss_def)
  with pl show ?thesis by blast
qed

lemma split_rooted:
  assumes "\<forall>s \<in> set ss. plain s"
  shows "clean_segments [] (split_on (CHR ''/'') (rooted ss slash)) = ss"
proof (cases "ss = []")
  case True
  then show ?thesis by (simp add: rooted_def)
next
  case False
  have free: "CHR ''/'' \<notin> set s" if "s \<in> set ss" for s using assms that by (simp add: plain_def)
  have free': "CHR ''/'' \<notin> set s" if "s \<in> set (ss @ [[]])" for s using free that by auto
  have eq: "join_with (CHR ''/'') ss @ ''/'' = join_with (CHR ''/'') (ss @ [[]])"
    using False by (induction "CHR ''/''" ss rule: join_with.induct) auto
  have "split_on (CHR ''/'') (rooted ss slash) = [] # ss @ (if slash then [[]] else [])"
    using split_join[OF False free] split_join[of "ss @ [[]]", OF _ free'] False eq
    by (auto simp: rooted_def)
  then show ?thesis using clean_segments_id[of ss "[]"] assms by (auto simp: clean_segments_blank)
qed

lemma clean_path_idem: "cleanPath (cleanPath p) = cleanPath p"
proof -
  obtain ss slash where c: "cleanPath p = rooted ss slash" "\<forall>s \<in> set ss. plain s"
    using cleanPath_rooted by blast
  have l: "last (rooted ss slash) = CHR ''/'' \<longleftrightarrow> ss = [] \<or> slash"
  proof (cases "ss = [] \<or> slash")
    case False
    then have "join_with (CHR ''/'') ss \<noteq> [] \<and> last (join_with (CHR ''/'') ss) \<noteq> CHR ''/''"
      using c(2)
    proof (induction "CHR ''/''" ss rule: join_with.induct)
      case (2 s)
      then have "s \<noteq> []" "CHR ''/'' \<notin> set s" by (auto simp: plain_def)
      then have "last s \<noteq> CHR ''/''" by (metis last_in_set)
      with \<open>s \<noteq> []\<close> show ?case by simp
    qed auto
    with False show ?thesis by (simp add: rooted_def)
  qed (auto simp: rooted_def)
  have "join_with (CHR ''/'') ss \<noteq> []" if "ss \<noteq> []"
    using that c(2) by (cases ss rule: join_with.cases[of "(CHR ''/'', ss)" for ss]) (auto simp: plain_def)
  then have "cleanPath (rooted ss slash) = rooted ss slash"
    unfolding cleanPath_def using l split_rooted[OF c(2), of slash]
    by (auto simp: Let_def rooted_def)
  with c show ?thesis by simp
qed

section \<open>Requests, responses and the multiplexer\<close>

record http_request =
  r_Method :: string
  r_Path :: string
  r_Query :: "(string \<times> string) list"
  r_Body :: string

record http_response =
  w_Status :: int
  w_ContentType :: "string option"
  w_Location :: "string option"
  w_Body :: string

definition respond :: "int \<Rightarrow> string option \<Rightarrow> string \<Rightarrow> http_response" where
  "respond code ct body = \<lparr>w_Status = code, w_ContentType = ct, w_Location = None, w_Body = body\<rparr>"

definition http_Error :: "string \<Rightarrow> int \<Rightarrow> http_response" where
  "http_Error msg code = respond code (Some ''text/plain; charset=utf-8'') (msg @ [CHR 0x0A])"

text \<open>\<open>url.Values.Get\<close>: the first value of the key, or nothing.\<close>

definition query_get :: "http_request \<Rightarrow> string \<Rightarrow> string" where
  "query_get r k = (case map_of (r_Query r) k of Some v \<Rightarrow> v | None \<Rightarrow> [])"

type_synonym 's http_handler = "http_request \<Rightarrow> 's \<Rightarrow> http_response \<times> 's"
type_synonym 's ServeMux = "(string \<times> 's http_handler) list"

text \<open>Registering a pattern twice panics.\<close>

definition HandleFunc :: "string \<Rightarrow> 's http_handler \<Rightarrow> string + 's ServeMux \<Rightarrow> string + 's ServeMux" where
  "HandleFunc pat h mux =
     (case mux of
        Inl p \<Rightarrow> Inl p
      | Inr m \<Rightarrow> if pat \<in> fst ` set m then Inl (''http: multiple registrations for '' @ pat) else Inr (m @ [(pat, h)]))"

text \<open>The redirect of a path that is not clean; \<open>CONNECT\<close> requests are never redirected.\<close>

definition ServeHTTP :: "'s ServeMux \<Rightarrow> 's http_handler" where
  "ServeHTTP mux r s =
     (let p = (if r_Method r = ''CONNECT'' then r_Path r else cleanPath (r_Path r))
      in if p \<noteq> r_Path r
         then (\<lparr>w_Status = 301, w_ContentType = None, w_Location = Some p, w_Body = []\<rparr>, s)
         else case map_of mux p of
                Some h \<Rightarrow> h r s
              | None \<Rightarrow> (http_Error ''404 page not found'' 404, s))"

text \<open>Following a redirect never meets another one.\<close>

lemma redirect_once:
  fixes mux :: "'s ServeMux"
  assumes "ServeHTTP mux r s = (w, s')" "w_Location w = Some p" "\<And>pat h q t. (pat, h) \<in> set mux \<Longrightarrow> w_Location (fst (h q t)) = None"
  shows "s' = s \<and> w_Location (fst (ServeHTTP mux (r\<lparr>r_Path := p\<rparr>) s)) = None"
proof -
  have noloc: "w_Location (fst (case map_of mux p of Some h \<Rightarrow> h q t | None \<Rightarrow> (http_Error ''404 page not found'' 404, t))) = None" for p :: string and q t
    using assms(3) by (cases "map_of mux p") (auto simp: http_Error_def respond_def dest: map_of_SomeD)
  from assms(1,2) noloc[where p = "r_Path r" and q = r and t = s] have r: "r_Method r \<noteq> ''CONNECT''" "p = cleanPath (r_Path r)" "s' = s"
    by (auto simp: ServeHTTP_def Let_def split: if_splits)
  have "cleanPath p = p" using clean_path_idem r(2) by simp
  with r(1) have "ServeHTTP mux (r\<lparr>r_Path := p\<rparr>) s =
      (case map_of mux p of Some h \<Rightarrow> h (r\<lparr>r_Path := p\<rparr>) s | None \<Rightarrow> (http_Error ''404 page not found'' 404, s))"
    by (simp add: ServeHTTP_def)
  with noloc r show ?thesis by simp
qed

end
