(* ===== verification/App_Api.thy ===== *)
theory App_Api
  imports App_Stock App_Benchmark Go_Http
begin

text \<open>
  The HTTP API of the example (\<open>src/examples/app/internal/handler\<close>, \<open>cmd/api\<close>): handlers that check
  the method, decode the request, call a service and answer with a status.  JSON and
  \<open>uuid.Parse\<close> are the argument \<open>c\<close>; what the outside answers in one request are \<open>a\<close> and \<open>ping\<close>.
\<close>

record api_codec =
  decode_order :: "string \<Rightarrow> goerr + CreateOrderRequest"
  decode_user :: "string \<Rightarrow> goerr + CreateUserRequest"
  decode_update :: "string \<Rightarrow> goerr + UpdateUserRequest"
  decode_notification :: "string \<Rightarrow> goerr + SendNotificationRequest"
  parse_id :: "string \<Rightarrow> goerr + uuid"
  encode_order :: "Order \<Rightarrow> goerr + string"
  encode_user :: "User \<Rightarrow> goerr + string"
  encode_notification :: "Notification \<Rightarrow> goerr + string"

text \<open>
  The end of a handler: an error of the service is 500 with its text; otherwise 201 with the
  encoded object (an encoding error is dropped, after the status was written) or 200 with a
  fixed text.
\<close>

definition created :: "('x \<Rightarrow> goerr + string) \<Rightarrow> (goerr + 'x) \<times> 's \<Rightarrow> http_response \<times> 's" where
  "created enc out =
     (case out of
        (Inl err, s) \<Rightarrow> (http_Error (Error_text err) 500, s)
      | (Inr x, s) \<Rightarrow> (respond 201 (Some ''application/json'') (case enc x of Inl _ \<Rightarrow> [] | Inr t \<Rightarrow> t), s))"

definition done_text :: "string \<Rightarrow> (goerr + unit) \<times> 's \<Rightarrow> http_response \<times> 's" where
  "done_text t out =
     (case out of
        (Inl err, s) \<Rightarrow> (http_Error (Error_text err) 500, s)
      | (Inr _, s) \<Rightarrow> (respond 200 None t, s))"

definition api_CreateOrder :: "api_codec \<Rightarrow> app_ctx \<Rightarrow> app_db http_handler" where
  "api_CreateOrder c a r db =
     (if r_Method r \<noteq> ''POST'' then (http_Error ''Method not allowed'' 405, db)
      else case decode_order c (r_Body r) of
             Inl err \<Rightarrow> (http_Error ''Invalid request body'' 400, db)
           | Inr req \<Rightarrow> created (encode_order c) (CreateOrder a req db))"

definition api_ConfirmOrder :: "api_codec \<Rightarrow> app_ctx \<Rightarrow> app_db http_handler" where
  "api_ConfirmOrder c a r db =
     (if r_Method r \<noteq> ''POST'' then (http_Error ''Method not allowed'' 405, db)
      else
        let orderIDStr = query_get r ''order_id''
        in if orderIDStr = [] then (http_Error ''order_id is required'' 400, db)
           else case parse_id c orderIDStr of
                  Inl err \<Rightarrow> (http_Error ''Invalid order_id'' 400, db)
                | Inr orderID \<Rightarrow> done_text ''{\"status\":\"confirmed\"}'' (ConfirmOrder a orderID db))"

definition api_RegisterUser :: "api_codec \<Rightarrow> app_ctx \<Rightarrow> app_db http_handler" where
  "api_RegisterUser c a r db =
     (if r_Method r \<noteq> ''POST'' then (http_Error ''Method not allowed'' 405, db)
      else case decode_user c (r_Body r) of
             Inl err \<Rightarrow> (http_Error ''Invalid request body'' 400, db)
           | Inr req \<Rightarrow> created (encode_user c) (RegisterUser a req db))"

definition api_UpdateUser :: "api_codec \<Rightarrow> app_ctx \<Rightarrow> app_db http_handler" where
  "api_UpdateUser c a r db =
     (if r_Method r \<noteq> ''PUT'' then (http_Error ''Method not allowed'' 405, db)
      else
        let userIDStr = query_get r ''user_id''
        in if userIDStr = [] then (http_Error ''user_id is required'' 400, db)
           else case parse_id c userIDStr of
                  Inl err \<Rightarrow> (http_Error ''Invalid user_id'' 400, db)
                | Inr userID \<Rightarrow>
                    (case decode_update c (r_Body r) of
                       Inl err \<Rightarrow> (http_Error ''Invalid request body'' 400, db)
                     | Inr req \<Rightarrow> done_text ''{\"status\":\"updated\"}'' (UpdateUser a userID req db)))"

definition api_SendNotification :: "api_codec \<Rightarrow> app_ctx \<Rightarrow> app_db http_handler" where
  "api_SendNotification c a r db =
     (if r_Method r \<noteq> ''POST'' then (http_Error ''Method not allowed'' 405, db)
      else case decode_notification c (r_Body r) of
             Inl err \<Rightarrow> (http_Error ''Invalid request body'' 400, db)
           | Inr req \<Rightarrow> created (encode_notification c) (SendNotification a req db))"

definition api_health :: "goerr option \<Rightarrow> 's http_handler" where
  "api_health ping r s =
     (case ping of
        Some err \<Rightarrow> (respond 503 None (''Unhealthy: database unreachable'' @ [CHR 0x0A]), s)
      | None \<Rightarrow> (respond 200 None (''OK'' @ [CHR 0x0A]), s))"

definition api_mux :: "api_codec \<Rightarrow> app_ctx \<Rightarrow> goerr option \<Rightarrow> string + app_db ServeMux" where
  "api_mux c a ping =
     HandleFunc ''/health'' (api_health ping)
       (HandleFunc ''/api/notifications'' (api_SendNotification c a)
         (HandleFunc ''/api/users/update'' (api_UpdateUser c a)
           (HandleFunc ''/api/users'' (api_RegisterUser c a)
             (HandleFunc ''/api/orders/confirm'' (api_ConfirmOrder c a)
               (HandleFunc ''/api/orders'' (api_CreateOrder c a) (Inr []))))))"

section \<open>Every change has its event\<close>

text \<open>The event type an endpoint announces, when its request can be read.\<close>

definition api_event :: "api_codec \<Rightarrow> http_request \<Rightarrow> string option" where
  "api_event c r =
     (if r_Path r = ''/api/orders'' then Some ''order.created''
      else if r_Path r = ''/api/orders/confirm'' then Some ''order.confirmed''
      else if r_Path r = ''/api/users'' then Some ''user.registered''
      else if r_Path r = ''/api/users/update'' then Some ''user.updated''
      else if r_Path r = ''/api/notifications'' then
        (case decode_notification c (r_Body r) of Inl _ \<Rightarrow> None | Inr req \<Rightarrow> Some (''notification.'' @ sn_Type req))
      else None)"

definition one_event :: "string \<Rightarrow> Outbox list \<Rightarrow> Outbox list \<Rightarrow> bool" where
  "one_event et rs rs' \<longleftrightarrow> (\<exists>x. rs' = rs @ [x] \<and> EventType x = et \<and> Status x = OutboxStatusEnqueued)"

text \<open>What a handler may do: nothing, or commit one event, answered with success or a lost reply.\<close>

definition announces :: "conn_outcome \<Rightarrow> string option \<Rightarrow> app_db \<Rightarrow> http_response \<times> app_db \<Rightarrow> bool" where
  "announces cm et db out \<longleftrightarrow>
     (case out of (w, db') \<Rightarrow>
        db' = db \<and> w_Status w \<notin> {200, 201} \<or>
        (\<exists>e. et = Some e \<and> one_event e (t_outbox db) (t_outbox db')) \<and>
        (w_Status w \<in> {200, 201} \<or> w_Status w = 500 \<and> (\<exists>e. cm = ReplyLost e)))"

lemma announces_error: "code \<notin> {200, 201} \<Longrightarrow> announces cm et db (http_Error msg code, db)"
  by (simp add: announces_def http_Error_def respond_def)

lemma transaction_announces:
  assumes "\<And>x d. body db = Commit x d \<Longrightarrow> one_event e (t_outbox db) (t_outbox d)" "\<And>x. body db \<noteq> Leave x"
  obtains err where "transaction b cm body db = (Inl err, db)"
  | x d where "transaction b cm body db = (Inr x, d)" "one_event e (t_outbox db) (t_outbox d)"
  | err d e' where "transaction b cm body db = (Inl err, d)" "one_event e (t_outbox db) (t_outbox d)" "cm = ReplyLost e'"
  using assms by (cases b; cases cm; cases "body db") (auto simp: transaction_def)

lemma created_announces:
  assumes "\<And>x d. body db = Commit x d \<Longrightarrow> one_event e (t_outbox db) (t_outbox d)" "\<And>x. body db \<noteq> Leave x"
  shows "announces cm (Some e) db (created enc (transaction b cm body db))"
  by (rule transaction_announces[where body = body and db = db and e = e and b = b and cm = cm, OF assms])
    (auto simp: announces_def created_def http_Error_def respond_def)

lemma done_announces:
  assumes "\<And>x d. body db = Commit x d \<Longrightarrow> one_event e (t_outbox db) (t_outbox d)" "\<And>x. body db \<noteq> Leave x"
  shows "announces cm (Some e) db (done_text t (transaction b cm body db))"
  by (rule transaction_announces[where body = body and db = db and e = e and b = b and cm = cm, OF assms])
    (auto simp: announces_def done_text_def http_Error_def respond_def)

lemma insert_event_one: "insert_event a n et ev key k rs = Inr rs' \<Longrightarrow> one_event et rs rs'"
  by (drule insert_event_added) (auto simp: one_event_def)

lemmas body_splits = prod.splits option.splits sum.splits

lemma create_order_one: "create_order_body a req db = Commit x d \<Longrightarrow> one_event ''order.created'' (t_outbox db) (t_outbox d)"
  "create_order_body a req db \<noteq> Leave x"
  by (auto simp: create_order_body_def Let_def insert_event_one split: body_splits)

lemma confirm_order_one: "confirm_order_body a i db = Commit x d \<Longrightarrow> one_event ''order.confirmed'' (t_outbox db) (t_outbox d)"
  "confirm_order_body a i db \<noteq> Leave x"
  by (auto simp: confirm_order_body_def insert_event_one split: body_splits)

lemma register_user_one: "register_user_body a req db = Commit x d \<Longrightarrow> one_event ''user.registered'' (t_outbox db) (t_outbox d)"
  "register_user_body a req db \<noteq> Leave x"
  by (auto simp: register_user_body_def Let_def insert_event_one split: body_splits)

lemma update_user_one: "update_user_body a i req db = Commit x d \<Longrightarrow> one_event ''user.updated'' (t_outbox db) (t_outbox d)"
  "update_user_body a i req db \<noteq> Leave x"
  by (auto simp: update_user_body_def insert_event_one split: body_splits)

lemma send_notification_one:
  "send_notification_body a req db = Commit x d \<Longrightarrow> one_event (''notification.'' @ sn_Type req) (t_outbox db) (t_outbox d)"
  "send_notification_body a req db \<noteq> Leave x"
  by (auto simp: send_notification_body_def Let_def insert_event_one split: body_splits)

lemma api_handlers_announce:
  "r_Path r = ''/api/orders'' \<Longrightarrow> announces (a_commit a) (api_event c r) db (api_CreateOrder c a r db)"
  "r_Path r = ''/api/orders/confirm'' \<Longrightarrow> announces (a_commit a) (api_event c r) db (api_ConfirmOrder c a r db)"
  "r_Path r = ''/api/users'' \<Longrightarrow> announces (a_commit a) (api_event c r) db (api_RegisterUser c a r db)"
  "r_Path r = ''/api/users/update'' \<Longrightarrow> announces (a_commit a) (api_event c r) db (api_UpdateUser c a r db)"
  "r_Path r = ''/api/notifications'' \<Longrightarrow> announces (a_commit a) (api_event c r) db (api_SendNotification c a r db)"
  by (auto simp: api_event_def api_CreateOrder_def api_ConfirmOrder_def api_RegisterUser_def api_UpdateUser_def
      api_SendNotification_def CreateOrder_def ConfirmOrder_def RegisterUser_def UpdateUser_def SendNotification_def Let_def
      intro!: announces_error created_announces done_announces
      intro: create_order_one confirm_order_one register_user_one update_user_one send_notification_one(1)[simplified]
      simp: create_order_one(2) confirm_order_one(2) register_user_one(2) update_user_one(2) send_notification_one(2)
      split: sum.splits)

text \<open>The six patterns are distinct, so that building the multiplexer does not panic.\<close>

lemma api_mux_eq:
  "api_mux c a ping = Inr
     [(''/api/orders'', api_CreateOrder c a), (''/api/orders/confirm'', api_ConfirmOrder c a),
      (''/api/users'', api_RegisterUser c a), (''/api/users/update'', api_UpdateUser c a),
      (''/api/notifications'', api_SendNotification c a), (''/health'', api_health ping)]"
  by (simp add: api_mux_def HandleFunc_def)


definition sample_api_codec :: api_codec where
  "sample_api_codec =
     \<lparr>decode_order = (\<lambda>b. if b = ''three'' then Inr (sample_request 3) else Inl (ErrorString ''invalid character'')),
      decode_user = (\<lambda>_. Inl (ErrorString ''EOF'')), decode_update = (\<lambda>_. Inl (ErrorString ''EOF'')),
      decode_notification = (\<lambda>_. Inr \<lparr>sn_Type = ''fax'', sn_Recipient = ''r'', sn_Subject = ''s'', sn_Body = ''b''\<rparr>),
      parse_id = Inr, encode_order = (\<lambda>_. Inr ''{}''), encode_user = (\<lambda>_. Inr ''{}''), encode_notification = (\<lambda>_. Inr ''{}'')\<rparr>"

definition post_request :: "string \<Rightarrow> string \<Rightarrow> http_request" where
  "post_request path body = \<lparr>r_Method = ''POST'', r_Path = path, r_Query = [], r_Body = body\<rparr>"

abbreviation served :: "string \<Rightarrow> string \<Rightarrow> http_response \<times> app_db" where
  "served path body \<equiv>
     (case api_mux sample_api_codec (sample_app ''e1'' ''o1'') None of
        Inl p \<Rightarrow> (http_Error p 0, sample_shop) | Inr mux \<Rightarrow> ServeHTTP mux (post_request path body) sample_shop)"


text \<open>Nothing checks the kind of a notification: an unknown one is accepted with its event.\<close>

lemma unknown_notification_accepted:
  "w_Status (fst (served ''/api/notifications'' ''{}'')) = 201 \<and>
   map EventType (t_outbox (snd (served ''/api/notifications'' ''{}''))) = [''notification.fax'']"
  by code_simp

section \<open>The load generator on the API\<close>

definition api_request :: "string \<Rightarrow> string \<Rightarrow> string \<Rightarrow> http_request" where
  "api_request endpoint url body = post_request (drop (length endpoint) url) body"

lemma CreateOrder_committed:
  assumes "CreateOrder a req db = (Inr x, db')" "distinct (map iv_ProductID (t_inventory db))"
  shows "t_orders db' = t_orders db @ [new_order a req]"
  using assms(1)[unfolded CreateOrder_def]
  by (cases "create_order_body a req db"; cases "a_begin a"; cases "a_commit a")
    (auto simp: transaction_def create_order_one(2) dest: create_order_commit[OF _ assms(2)])

text \<open>
  A request that \<open>sendOrderRequest\<close> counts as a success has committed its order and the event, when
  the API can read what the generator marshals.
\<close>

lemma generated_order_committed:
  assumes mux: "api_mux c a ping = Inr mux" and rt: "\<And>q b. marshal q = Inr b \<Longrightarrow> decode_order c b = Inr q"
    and d: "distinct (map iv_ProductID (t_inventory db))"
    and sent: "sendOrderRequest (\<lambda>url b. Inr (w_Status (fst (ServeHTTP mux (api_request endpoint url b) db))))
      marshal endpoint u now1 now2 now3 = None"
  obtains b where "marshal (order_request u now1 now2 now3) = Inr b"
    "t_orders (snd (ServeHTTP mux (api_request endpoint (endpoint @ ''/api/orders'') b) db)) =
       t_orders db @ [new_order a (order_request u now1 now2 now3)]"
proof -
  let ?req = "order_request u now1 now2 now3"
  from sent obtain b where b: "marshal ?req = Inr b"
    "w_Status (fst (ServeHTTP mux (api_request endpoint (endpoint @ ''/api/orders'') b) db)) = 201"
    by (auto simp: sendOrderRequest_def post_created_def split: sum.splits if_splits)
  have clean: "cleanPath ''/api/orders'' = ''/api/orders''" by code_simp
  have serve: "ServeHTTP mux (api_request endpoint (endpoint @ ''/api/orders'') b) db = created (encode_order c) (CreateOrder a ?req db)"
    using mux rt[OF b(1)] by (auto simp: api_mux_eq ServeHTTP_def api_request_def post_request_def clean api_CreateOrder_def)
  obtain res db' where co: "CreateOrder a ?req db = (res, db')" by fastforce
  with b(2) serve obtain x where "res = Inr x" by (cases res) (auto simp: created_def http_Error_def respond_def)
  with CreateOrder_committed[OF co[unfolded this] d] have "t_orders db' = t_orders db @ [new_order a ?req]" by simp
  then show thesis using that b(1) serve co \<open>res = Inr x\<close> by (simp add: created_def)
qed

end
