(* ===== verification/App_Metrics.thy ===== *)
theory App_Metrics
  imports System
begin

text \<open>
  \<open>src/examples/app/internal/instrumentation\<close>: the metrics of the instrumented dispatcher.  The
  collector is shared by all goroutines: its counters are atomic integers, minimum and maximum
  are kept by compare-and-swap loops and the statistics per worker by a mutex.  A call of
  \<open>RecordFetch\<close> or \<open>RecordPublish\<close> is a sequence of atomic steps, interleaved with those of any
  other calls.  Log output is left out.
\<close>

section \<open>The collector\<close>

record FetchMetrics =
  fm_StartTime :: time
  fm_Duration :: duration
  fm_RowsReturned :: int
  fm_RequestedLimit :: int
  fm_WorkerID :: int

record PublishMetrics =
  pm_StartTime :: time
  pm_Duration :: duration
  pm_SuccessCount :: int
  pm_FailureCount :: int
  pm_BatchSize :: int
  pm_FailureReasons :: "string list"

record WorkerStats =
  ws_WorkerID :: int
  ws_TotalFetches :: int
  ws_TotalRows :: int
  ws_EmptyFetches :: int
  ws_TotalDuration :: duration

record MetricsCollector =
  totalFetches :: int
  totalRows :: int
  totalDuration :: int
  emptyFetches :: int
  minTxnDuration :: int
  maxTxnDuration :: int
  totalPublishes :: int
  totalPublishSuccess :: int
  totalPublishFailure :: int
  totalPublishDuration :: int
  workerStats :: "int \<rightharpoonup> WorkerStats"

definition NewMetricsCollector :: MetricsCollector where
  "NewMetricsCollector =
     \<lparr>totalFetches = 0, totalRows = 0, totalDuration = 0, emptyFetches = 0, minTxnDuration = 0, maxTxnDuration = 0,
      totalPublishes = 0, totalPublishSuccess = 0, totalPublishFailure = 0, totalPublishDuration = 0,
      workerStats = Map.empty\<rparr>"

definition update_worker :: "FetchMetrics \<Rightarrow> MetricsCollector \<Rightarrow> MetricsCollector" where
  "update_worker m mc =
     (let w = fm_WorkerID m;
          stats = (case workerStats mc w of
                     Some st \<Rightarrow> st
                   | None \<Rightarrow> \<lparr>ws_WorkerID = w, ws_TotalFetches = 0, ws_TotalRows = 0, ws_EmptyFetches = 0, ws_TotalDuration = 0\<rparr>)
      in mc\<lparr>workerStats := (workerStats mc)(w \<mapsto>
           stats\<lparr>ws_TotalFetches := wrap64 (ws_TotalFetches stats + 1),
                 ws_TotalRows := wrap64 (ws_TotalRows stats + fm_RowsReturned m),
                 ws_TotalDuration := wrap64 (ws_TotalDuration stats + fm_Duration m),
                 ws_EmptyFetches := wrap64 (ws_EmptyFetches stats + (if fm_RowsReturned m = 0 then 1 else 0))\<rparr>)\<rparr>)"

text \<open>
  The program counter of a call: one constructor per atomic operation of \<open>RecordFetch\<close> and of
  \<open>RecordPublish\<close>; \<open>CasMin\<close> and \<open>CasMax\<close> carry the value that was loaded.
\<close>

datatype record_pc =
    AddFetches | AddRows | AddDuration | AddEmpty | LoadMin | CasMin int | LoadMax | CasMax int | LockWorker
  | AddPublishes | AddSuccess | AddFailure | AddPublishDuration | Recorded

fun RecordFetch_step :: "FetchMetrics \<Rightarrow> record_pc \<Rightarrow> MetricsCollector \<Rightarrow> record_pc \<times> MetricsCollector" where
  "RecordFetch_step m AddFetches mc = (AddRows, mc\<lparr>totalFetches := wrap64 (totalFetches mc + 1)\<rparr>)"
| "RecordFetch_step m AddRows mc = (AddDuration, mc\<lparr>totalRows := wrap64 (totalRows mc + fm_RowsReturned m)\<rparr>)"
| "RecordFetch_step m AddDuration mc = (AddEmpty, mc\<lparr>totalDuration := wrap64 (totalDuration mc + fm_Duration m)\<rparr>)"
| "RecordFetch_step m AddEmpty mc =
     (LoadMin, if fm_RowsReturned m = 0 then mc\<lparr>emptyFetches := wrap64 (emptyFetches mc + 1)\<rparr> else mc)"
| "RecordFetch_step m LoadMin mc =
     (let currentMin = minTxnDuration mc
      in (if currentMin = 0 \<or> fm_Duration m < currentMin then CasMin currentMin else LoadMax, mc))"
| "RecordFetch_step m (CasMin currentMin) mc =
     (if minTxnDuration mc = currentMin then (LoadMax, mc\<lparr>minTxnDuration := fm_Duration m\<rparr>) else (LoadMin, mc))"
| "RecordFetch_step m LoadMax mc =
     (let currentMax = maxTxnDuration mc
      in (if fm_Duration m > currentMax then CasMax currentMax else LockWorker, mc))"
| "RecordFetch_step m (CasMax currentMax) mc =
     (if maxTxnDuration mc = currentMax then (LockWorker, mc\<lparr>maxTxnDuration := fm_Duration m\<rparr>) else (LoadMax, mc))"
| "RecordFetch_step m LockWorker mc = (Recorded, update_worker m mc)"
| "RecordFetch_step m pc mc = (pc, mc)"

fun RecordPublish_step :: "PublishMetrics \<Rightarrow> record_pc \<Rightarrow> MetricsCollector \<Rightarrow> record_pc \<times> MetricsCollector" where
  "RecordPublish_step m AddPublishes mc = (AddSuccess, mc\<lparr>totalPublishes := wrap64 (totalPublishes mc + 1)\<rparr>)"
| "RecordPublish_step m AddSuccess mc =
     (AddFailure, mc\<lparr>totalPublishSuccess := wrap64 (totalPublishSuccess mc + pm_SuccessCount m)\<rparr>)"
| "RecordPublish_step m AddFailure mc =
     (AddPublishDuration, mc\<lparr>totalPublishFailure := wrap64 (totalPublishFailure mc + pm_FailureCount m)\<rparr>)"
| "RecordPublish_step m AddPublishDuration mc =
     (Recorded, mc\<lparr>totalPublishDuration := wrap64 (totalPublishDuration mc + pm_Duration m)\<rparr>)"
| "RecordPublish_step m pc mc = (pc, mc)"

text \<open>The calls when nobody interferes: every compare-and-swap succeeds at once.\<close>

definition add_totals :: "FetchMetrics \<Rightarrow> MetricsCollector \<Rightarrow> MetricsCollector" where
  "add_totals m mc =
     mc\<lparr>totalFetches := wrap64 (totalFetches mc + 1), totalRows := wrap64 (totalRows mc + fm_RowsReturned m),
        totalDuration := wrap64 (totalDuration mc + fm_Duration m),
        emptyFetches := (if fm_RowsReturned m = 0 then wrap64 (emptyFetches mc + 1) else emptyFetches mc)\<rparr>"

definition update_min :: "int \<Rightarrow> MetricsCollector \<Rightarrow> MetricsCollector" where
  "update_min durationNs mc =
     (let currentMin = minTxnDuration mc
      in if currentMin = 0 \<or> durationNs < currentMin then mc\<lparr>minTxnDuration := durationNs\<rparr> else mc)"

definition update_max :: "int \<Rightarrow> MetricsCollector \<Rightarrow> MetricsCollector" where
  "update_max durationNs mc =
     (let currentMax = maxTxnDuration mc
      in if durationNs > currentMax then mc\<lparr>maxTxnDuration := durationNs\<rparr> else mc)"

definition RecordFetch :: "FetchMetrics \<Rightarrow> MetricsCollector \<Rightarrow> MetricsCollector" where
  "RecordFetch m mc = update_worker m (update_max (fm_Duration m) (update_min (fm_Duration m) (add_totals m mc)))"

definition RecordPublish :: "PublishMetrics \<Rightarrow> MetricsCollector \<Rightarrow> MetricsCollector" where
  "RecordPublish m mc =
     mc\<lparr>totalPublishes := wrap64 (totalPublishes mc + 1),
        totalPublishSuccess := wrap64 (totalPublishSuccess mc + pm_SuccessCount m),
        totalPublishFailure := wrap64 (totalPublishFailure mc + pm_FailureCount m),
        totalPublishDuration := wrap64 (totalPublishDuration mc + pm_Duration m)\<rparr>"

section \<open>Reading the collector\<close>

text \<open>
  Each counter is loaded on its own while other goroutines go on, so a reader sees \<open>s 0\<close> at its
  first load, \<open>s 1\<close> at its second and so on.  Averages are float64 quotients.  The map of
  statistics is a record; what is logged is a message with its attributes.
\<close>

record fetch_stats =
  fs_total_fetches :: int
  fs_total_rows :: int
  fs_empty_fetches :: int
  fs_empty_fetch_pct :: rat
  fs_avg_duration_ms :: rat
  fs_avg_duration_us :: rat
  fs_avg_rows_per_fetch :: rat
  fs_min_txn_duration_us :: int
  fs_max_txn_duration_us :: int
  fs_min_txn_duration_ms :: int
  fs_max_txn_duration_ms :: int

definition ratio :: "int \<Rightarrow> int \<Rightarrow> rat" where
  "ratio a b = (if b > 0 then float64 (float64 (of_int a) / float64 (of_int b)) else 0)"

definition GetFetchStats :: "(nat \<Rightarrow> MetricsCollector) \<Rightarrow> fetch_stats" where
  "GetFetchStats s =
     (let fetches = totalFetches (s 0); rows = totalRows (s 1); duration = totalDuration (s 2);
          empty = emptyFetches (s 3); minTxn = minTxnDuration (s 4); maxTxn = maxTxnDuration (s 5)
      in \<lparr>fs_total_fetches = fetches, fs_total_rows = rows, fs_empty_fetches = empty,
          fs_empty_fetch_pct = float64 (ratio empty fetches * 100),
          fs_avg_duration_ms = float64 (ratio duration fetches / 1000000),
          fs_avg_duration_us = float64 (ratio duration fetches / 1000),
          fs_avg_rows_per_fetch = ratio rows fetches,
          fs_min_txn_duration_us = go_quot minTxn 1000, fs_max_txn_duration_us = go_quot maxTxn 1000,
          fs_min_txn_duration_ms = go_quot minTxn 1000000, fs_max_txn_duration_ms = go_quot maxTxn 1000000\<rparr>)"

record publish_stats =
  ps_total_publishes :: int
  ps_total_success :: int
  ps_total_failure :: int
  ps_avg_duration_ms :: rat
  ps_avg_success_per_publish :: rat

definition GetPublishStats :: "(nat \<Rightarrow> MetricsCollector) \<Rightarrow> publish_stats" where
  "GetPublishStats s =
     (let publishes = totalPublishes (s 0); success = totalPublishSuccess (s 1);
          failure = totalPublishFailure (s 2); duration = totalPublishDuration (s 3)
      in \<lparr>ps_total_publishes = publishes, ps_total_success = success, ps_total_failure = failure,
          ps_avg_duration_ms = float64 (ratio duration publishes / 1000000),
          ps_avg_success_per_publish = ratio success publishes\<rparr>)"

text \<open>The order in which Go ranges over the map is the argument \<open>order\<close>, a list of its keys.\<close>

definition GetWorkerStats :: "int list \<Rightarrow> MetricsCollector \<Rightarrow> WorkerStats list" where
  "GetWorkerStats order mc = List.map_filter (workerStats mc) order"

datatype log_value = LogInt int | LogFloat rat

type_synonym log_entry = "string \<times> (string \<times> log_value) list"

definition log_fetch :: "FetchMetrics \<Rightarrow> log_entry" where
  "log_fetch m =
     (''fetch_operation'',
      [(''worker_id'', LogInt (fm_WorkerID m)), (''duration_ms'', LogInt (go_quot (fm_Duration m) 1000000)),
       (''duration_us'', LogInt (go_quot (fm_Duration m) 1000)), (''rows_returned'', LogInt (fm_RowsReturned m)),
       (''requested_limit'', LogInt (fm_RequestedLimit m)),
       (''utilization_pct'', LogFloat (float64 (ratio (fm_RowsReturned m) (fm_RequestedLimit m) * 100)))])"

definition log_publish :: "PublishMetrics \<Rightarrow> log_entry" where
  "log_publish m =
     (''publish_operation'',
      [(''duration_ms'', LogInt (go_quot (pm_Duration m) 1000000)), (''batch_size'', LogInt (pm_BatchSize m)),
       (''success_count'', LogInt (pm_SuccessCount m)), (''failure_count'', LogInt (pm_FailureCount m))])"

definition log_worker :: "WorkerStats \<Rightarrow> log_entry" where
  "log_worker ws =
     (''worker_stats'',
      [(''worker_id'', LogInt (ws_WorkerID ws)), (''total_fetches'', LogInt (ws_TotalFetches ws)),
       (''total_rows'', LogInt (ws_TotalRows ws)), (''empty_fetches'', LogInt (ws_EmptyFetches ws)),
       (''avg_duration_ms'', LogFloat (ratio (go_quot (ws_TotalDuration ws) 1000000) (ws_TotalFetches ws))),
       (''avg_rows'', LogFloat (ratio (ws_TotalRows ws) (ws_TotalFetches ws)))])"

text \<open>The workers are read after six loads for the fetches and four for the publishes.\<close>

definition LogStats :: "int list \<Rightarrow> (nat \<Rightarrow> MetricsCollector) \<Rightarrow> log_entry list" where
  "LogStats order s =
     (let f = GetFetchStats s; p = GetPublishStats (\<lambda>i. s (6 + i)); ws = GetWorkerStats order (s 10)
      in [(''=== DISPATCHER METRICS SUMMARY ==='', []),
          (''fetch_stats'',
           [(''total_fetches'', LogInt (fs_total_fetches f)), (''total_rows'', LogInt (fs_total_rows f)),
            (''empty_fetches'', LogInt (fs_empty_fetches f)), (''empty_fetch_pct'', LogFloat (fs_empty_fetch_pct f)),
            (''avg_duration_ms'', LogFloat (fs_avg_duration_ms f)), (''avg_duration_us'', LogFloat (fs_avg_duration_us f)),
            (''avg_rows_per_fetch'', LogFloat (fs_avg_rows_per_fetch f))]),
          (''transaction_duration_stats'',
           [(''min_txn_duration_us'', LogInt (fs_min_txn_duration_us f)), (''max_txn_duration_us'', LogInt (fs_max_txn_duration_us f)),
            (''min_txn_duration_ms'', LogInt (fs_min_txn_duration_ms f)), (''max_txn_duration_ms'', LogInt (fs_max_txn_duration_ms f)),
            (''avg_txn_duration_us'', LogFloat (fs_avg_duration_us f)), (''avg_txn_duration_ms'', LogFloat (fs_avg_duration_ms f))]),
          (''publish_stats'',
           [(''total_publishes'', LogInt (ps_total_publishes p)), (''total_success'', LogInt (ps_total_success p)),
            (''total_failure'', LogInt (ps_total_failure p)), (''avg_duration_ms'', LogFloat (ps_avg_duration_ms p)),
            (''avg_success_per_publish'', LogFloat (ps_avg_success_per_publish p))])] @ map log_worker ws)"

section \<open>The instrumented repository and publisher\<close>

text \<open>
  The wrappers embed the interface they wrap and override one method each.  Their state is that
  of the wrapped object together with the collector; what a call takes on the clock is an
  argument.  Fetches and publishes write disjoint fields, so each wrapper carries its part.
\<close>

definition lift_op :: "('s \<Rightarrow> 'a \<times> 's) \<Rightarrow> 's \<times> 'm \<Rightarrow> 'a \<times> 's \<times> 'm" where
  "lift_op f s = (case f (fst s) of (a, s') \<Rightarrow> (a, s', snd s))"

definition instrumented_fetch ::
  "('c, 's, 'r) BatchOutboxRepository_scheme \<Rightarrow> int \<Rightarrow> ('c \<Rightarrow> time \<times> duration) \<Rightarrow>
   'c \<Rightarrow> int \<Rightarrow> 's \<times> MetricsCollector \<Rightarrow> (goerr + Outbox list) \<times> 's \<times> MetricsCollector" where
  "instrumented_fetch R workerID timing c limit s =
     (case FetchLockAndMarkPublishing R c limit (fst s) of
        (res, s') \<Rightarrow>
          let rowsReturned = (case res of Inl e \<Rightarrow> 0 | Inr results \<Rightarrow> int (length results))
          in (res, s', RecordFetch \<lparr>fm_StartTime = fst (timing c), fm_Duration = snd (timing c),
                fm_RowsReturned = rowsReturned, fm_RequestedLimit = limit, fm_WorkerID = workerID\<rparr> (snd s)))"

definition NewInstrumentedBatchRepository ::
  "('c, 's, 'r) BatchOutboxRepository_scheme \<Rightarrow> int \<Rightarrow> ('c \<Rightarrow> time \<times> duration) \<Rightarrow>
   ('c, 's \<times> MetricsCollector) BatchOutboxRepository" where
  "NewInstrumentedBatchRepository R workerID timing =
     \<lparr>Insert = (\<lambda>c p. lift_op (Insert R c p)), FetchAndLockToPublishing = (\<lambda>c. lift_op (FetchAndLockToPublishing R c)),
      UpdateToPublished = (\<lambda>c i. lift_op (UpdateToPublished R c i)),
      UpdateToFailed = (\<lambda>c i e. lift_op (UpdateToFailed R c i e)), UpdateToDead = (\<lambda>c i e. lift_op (UpdateToDead R c i e)),
      RequeueFailed = (\<lambda>c. lift_op (RequeueFailed R c)), GetByID = (\<lambda>c i s. GetByID R c i (fst s)),
      GetByIdempotencyKey = (\<lambda>c e k s. GetByIdempotencyKey R c e k (fst s)),
      FetchLockAndMarkPublishing = instrumented_fetch R workerID timing,
      UpdateBatchToPublished = (\<lambda>c ids. lift_op (UpdateBatchToPublished R c ids))\<rparr>"

definition CreateForWorker ::
  "('c, 's, 'r) BatchOutboxRepository_scheme \<Rightarrow> ('c \<Rightarrow> time \<times> duration) \<Rightarrow> int \<Rightarrow>
   ('c, 's \<times> MetricsCollector) BatchOutboxRepository" where
  "CreateForWorker baseRepo timing workerID = NewInstrumentedBatchRepository baseRepo workerID timing"

text \<open>The loop over the results; a failure beyond the messages panics in \<open>msgs[i]\<close>.\<close>

fun count_results ::
  "Outbox list \<Rightarrow> nat \<Rightarrow> PublishResult list \<Rightarrow> int \<Rightarrow> int \<Rightarrow> string list \<Rightarrow> string + int \<times> int \<times> string list" where
  "count_results msgs i [] successCount failureCount reasons = Inr (successCount, failureCount, reasons)"
| "count_results msgs i (result # results) successCount failureCount reasons =
     (if Success result then count_results msgs (Suc i) results (successCount + 1) failureCount reasons
      else if length msgs \<le> i then Inl ''index out of range''
      else count_results msgs (Suc i) results successCount (failureCount + 1)
             (reasons @ [case ResultError result of None \<Rightarrow> ''unknown error'' | Some e \<Rightarrow> Error_text e]))"

definition instrumented_publish ::
  "('w, 'p) BatchPublisher_scheme \<Rightarrow> (Outbox list \<Rightarrow> time \<times> duration) \<Rightarrow> Outbox list \<Rightarrow> 'w \<times> MetricsCollector \<Rightarrow>
   (string + PublishResult list) \<times> 'w \<times> MetricsCollector" where
  "instrumented_publish P timing msgs s =
     (case PublishBatch P msgs (fst s) of
        (results, b) \<Rightarrow>
          (case count_results msgs 0 results 0 0 [] of
             Inl p \<Rightarrow> (Inl p, b, snd s)
           | Inr (successCount, failureCount, failureReasons) \<Rightarrow>
               (Inr results, b, RecordPublish
                  \<lparr>pm_StartTime = fst (timing msgs), pm_Duration = snd (timing msgs), pm_SuccessCount = successCount,
                   pm_FailureCount = failureCount, pm_BatchSize = int (length msgs), pm_FailureReasons = failureReasons\<rparr>
                  (snd s))))"

text \<open>As a publisher; the panic, which no publisher with one result per message causes, leaves no results.\<close>

definition NewInstrumentedBatchPublisher ::
  "('w, 'p) BatchPublisher_scheme \<Rightarrow> (Outbox list \<Rightarrow> time \<times> duration) \<Rightarrow> ('w \<times> MetricsCollector) BatchPublisher" where
  "NewInstrumentedBatchPublisher P timing =
     \<lparr>Publish = (\<lambda>m. lift_op (Publish P m)),
      PublishBatch = (\<lambda>msgs s. case instrumented_publish P timing msgs s of (res, s') \<Rightarrow> (case res of Inl _ \<Rightarrow> [] | Inr rs \<Rightarrow> rs, s')),
      MaxBatchSize = MaxBatchSize P\<rparr>"

section \<open>Concurrent calls\<close>

datatype record_call = RFetch FetchMetrics | RPublish PublishMetrics

fun call_step :: "record_call \<Rightarrow> record_pc \<Rightarrow> MetricsCollector \<Rightarrow> record_pc \<times> MetricsCollector" where
  "call_step (RFetch m) pc mc = RecordFetch_step m pc mc"
| "call_step (RPublish m) pc mc = RecordPublish_step m pc mc"

fun call_start :: "record_call \<Rightarrow> record_pc" where
  "call_start (RFetch m) = AddFetches"
| "call_start (RPublish m) = AddPublishes"

inductive record_step ::
  "record_call list \<Rightarrow> MetricsCollector \<times> (nat \<Rightarrow> record_pc) \<Rightarrow> MetricsCollector \<times> (nat \<Rightarrow> record_pc) \<Rightarrow> bool"
  for calls where
  one: "k < length calls \<Longrightarrow> call_step (calls ! k) (pcs k) mc = (pc', mc') \<Longrightarrow>
    record_step calls (mc, pcs) (mc', pcs(k := pc'))"

text \<open>The specification: sums over the recorded calls, their least and greatest duration.\<close>

fun stage :: "record_pc \<Rightarrow> nat" where
  "stage AddFetches = 0" | "stage AddRows = 1" | "stage AddDuration = 2" | "stage AddEmpty = 3"
| "stage LoadMin = 4" | "stage (CasMin v) = 4" | "stage LoadMax = 5" | "stage (CasMax v) = 5" | "stage LockWorker = 6"
| "stage AddPublishes = 0" | "stage AddSuccess = 1" | "stage AddFailure = 2" | "stage AddPublishDuration = 3"
| "stage Recorded = 7"

fun fetch_amount :: "(FetchMetrics \<Rightarrow> int) \<Rightarrow> record_call \<Rightarrow> int" where
  "fetch_amount f (RFetch m) = f m" | "fetch_amount f (RPublish m) = 0"

fun publish_amount :: "(PublishMetrics \<Rightarrow> int) \<Rightarrow> record_call \<Rightarrow> int" where
  "publish_amount f (RFetch m) = 0" | "publish_amount f (RPublish m) = f m"

fun is_fetch :: "record_call \<Rightarrow> bool" where
  "is_fetch (RFetch m) = True" | "is_fetch (RPublish m) = False"

abbreviation call_duration :: "record_call \<Rightarrow> int" where
  "call_duration \<equiv> fetch_amount fm_Duration"

definition summed :: "nat \<Rightarrow> (record_call \<Rightarrow> int) \<Rightarrow> record_call list \<Rightarrow> (nat \<Rightarrow> record_pc) \<Rightarrow> int" where
  "summed n f calls pcs = wrap64 (\<Sum>k < length calls. if n < stage (pcs k) then f (calls ! k) else 0)"

definition durations :: "nat \<Rightarrow> record_call list \<Rightarrow> (nat \<Rightarrow> record_pc) \<Rightarrow> int set" where
  "durations n calls pcs = {call_duration (calls ! k) | k. k < length calls \<and> is_fetch (calls ! k) \<and> n < stage (pcs k)}"

definition least :: "int set \<Rightarrow> int" where
  "least D = (if D = {} then 0 else Min D)"

definition of_worker :: "int \<Rightarrow> (FetchMetrics \<Rightarrow> int) \<Rightarrow> record_call \<Rightarrow> int" where
  "of_worker w f = fetch_amount (\<lambda>m. if fm_WorkerID m = w then f m else 0)"

definition seen_worker :: "record_call list \<Rightarrow> (nat \<Rightarrow> record_pc) \<Rightarrow> int \<Rightarrow> bool" where
  "seen_worker calls pcs w \<longleftrightarrow> (\<exists>k < length calls. 6 < stage (pcs k) \<and> (\<exists>m. calls ! k = RFetch m \<and> fm_WorkerID m = w))"

definition worker_summary :: "record_call list \<Rightarrow> (nat \<Rightarrow> record_pc) \<Rightarrow> int \<rightharpoonup> WorkerStats" where
  "worker_summary calls pcs w =
     (if seen_worker calls pcs w
      then Some \<lparr>ws_WorkerID = w, ws_TotalFetches = summed 6 (of_worker w (\<lambda>m. 1)) calls pcs,
                 ws_TotalRows = summed 6 (of_worker w fm_RowsReturned) calls pcs,
                 ws_EmptyFetches = summed 6 (of_worker w (\<lambda>m. if fm_RowsReturned m = 0 then 1 else 0)) calls pcs,
                 ws_TotalDuration = summed 6 (of_worker w fm_Duration) calls pcs\<rparr>
      else None)"

definition summary :: "record_call list \<Rightarrow> (nat \<Rightarrow> record_pc) \<Rightarrow> MetricsCollector" where
  "summary calls pcs =
     \<lparr>totalFetches = summed 0 (fetch_amount (\<lambda>m. 1)) calls pcs,
      totalRows = summed 1 (fetch_amount fm_RowsReturned) calls pcs,
      totalDuration = summed 2 (fetch_amount fm_Duration) calls pcs,
      emptyFetches = summed 3 (fetch_amount (\<lambda>m. if fm_RowsReturned m = 0 then 1 else 0)) calls pcs,
      minTxnDuration = least (durations 4 calls pcs),
      maxTxnDuration = Max (insert 0 (durations 5 calls pcs)),
      totalPublishes = summed 0 (publish_amount (\<lambda>m. 1)) calls pcs,
      totalPublishSuccess = summed 1 (publish_amount pm_SuccessCount) calls pcs,
      totalPublishFailure = summed 2 (publish_amount pm_FailureCount) calls pcs,
      totalPublishDuration = summed 3 (publish_amount pm_Duration) calls pcs,
      workerStats = worker_summary calls pcs\<rparr>"

section \<open>Every interleaving is exact\<close>

fun pc_fits :: "record_call \<Rightarrow> record_pc \<Rightarrow> bool" where
  "pc_fits (RFetch m) (CasMin v) = (v = 0 \<or> fm_Duration m < v)"
| "pc_fits (RFetch m) (CasMax v) = (v < fm_Duration m)"
| "pc_fits (RFetch m) pc = (pc \<in> {AddFetches, AddRows, AddDuration, AddEmpty, LoadMin, LoadMax, LockWorker, Recorded})"
| "pc_fits (RPublish m) pc = (pc \<in> {AddPublishes, AddSuccess, AddFailure, AddPublishDuration, Recorded})"

lemma summed_same:
  assumes "(n < stage pc) = (n < stage (pcs k)) \<or> f (calls ! k) = 0"
  shows "summed n f calls (pcs(k := pc)) = summed n f calls pcs"
  unfolding summed_def by (rule arg_cong[of _ _ wrap64], rule sum.cong) (use assms in auto)

lemma summed_add:
  assumes "k < length calls" "n < stage pc" "\<not> n < stage (pcs k)"
  shows "summed n f calls (pcs(k := pc)) = wrap64 (summed n f calls pcs + f (calls ! k))"
proof -
  let ?g = "\<lambda>pcs j. if n < stage (pcs j) then f (calls ! j) else 0"
  have "sum (?g (pcs(k := pc))) {..<length calls} = ?g (pcs(k := pc)) k + sum (?g (pcs(k := pc))) ({..<length calls} - {k})"
    using assms(1) by (intro sum.remove) auto
  also have "sum (?g (pcs(k := pc))) ({..<length calls} - {k}) = sum (?g pcs) ({..<length calls} - {k})"
    by (rule sum.cong) auto
  also have "sum (?g pcs) ({..<length calls} - {k}) = sum (?g pcs) {..<length calls}"
    using sum.remove[of "{..<length calls}" k "?g pcs"] assms by simp
  finally show ?thesis using assms(2) by (simp add: summed_def wrap64_add add.commute)
qed

lemma durations_same:
  "(n < stage pc) = (n < stage (pcs k)) \<or> \<not> is_fetch (calls ! k) \<Longrightarrow> durations n calls (pcs(k := pc)) = durations n calls pcs"
  by (auto simp: durations_def split: if_splits)

lemma durations_add:
  "k < length calls \<Longrightarrow> is_fetch (calls ! k) \<Longrightarrow> n < stage pc \<Longrightarrow>
   durations n calls (pcs(k := pc)) = insert (call_duration (calls ! k)) (durations n calls pcs)"
  by (auto simp: durations_def split: if_splits)

lemma finite_durations [simp]: "finite (durations n calls pcs)"
  unfolding durations_def by (rule finite_subset[of _ "(\<lambda>k. call_duration (calls ! k)) ` {..<length calls}"]) auto

lemma worker_summary_same:
  assumes "(6 < stage pc) = (6 < stage (pcs k)) \<or> \<not> is_fetch (calls ! k)"
  shows "worker_summary calls (pcs(k := pc)) = worker_summary calls pcs"
proof -
  have z: "of_worker w f (calls ! k) = 0" if "\<not> is_fetch (calls ! k)" for w f
    using that by (cases "calls ! k") (auto simp: of_worker_def)
  have "summed 6 (of_worker w f) calls (pcs(k := pc)) = summed 6 (of_worker w f) calls pcs" for w f
    by (rule summed_same) (use assms z in blast)
  moreover have "seen_worker calls (pcs(k := pc)) w = seen_worker calls pcs w" for w
    using assms unfolding seen_worker_def by (metis fun_upd_other fun_upd_same is_fetch.simps(1))
  ultimately show ?thesis by (simp add: worker_summary_def fun_eq_iff)
qed

lemma wrap64_summed [simp]: "wrap64 (summed n f calls pcs) = summed n f calls pcs"
  by (simp add: summed_def)

lemma summed_none:
  assumes "\<not> seen_worker calls pcs w"
  shows "summed 6 (of_worker w f) calls pcs = 0"
proof -
  have "(if 6 < stage (pcs j) then of_worker w f (calls ! j) else 0) = 0" if "j < length calls" for j
    using assms that by (cases "calls ! j") (auto simp: of_worker_def seen_worker_def)
  then have "(\<Sum>j < length calls. if 6 < stage (pcs j) then of_worker w f (calls ! j) else 0) = 0"
    by (intro sum.neutral) auto
  then show ?thesis by (simp add: summed_def in_int64_def)
qed

lemma worker_summary_add:
  assumes k: "k < length calls" "calls ! k = RFetch m" and pc: "6 < stage pc" "\<not> 6 < stage (pcs k)"
  shows "worker_summary calls (pcs(k := pc)) = workerStats (update_worker m (mc\<lparr>workerStats := worker_summary calls pcs\<rparr>))"
proof
  fix w
  let ?w = "fm_WorkerID m"
  have add: "summed 6 (of_worker w f) calls (pcs(k := pc)) =
      wrap64 (summed 6 (of_worker w f) calls pcs + (if ?w = w then f m else 0))" for f
    using summed_add[where pcs = pcs and k = k, OF k(1) pc] k(2) by (simp add: of_worker_def)
  show "worker_summary calls (pcs(k := pc)) w = workerStats (update_worker m (mc\<lparr>workerStats := worker_summary calls pcs\<rparr>)) w"
  proof (cases "?w = w")
    case True
    have "seen_worker calls (pcs(k := pc)) w"
      unfolding seen_worker_def using k pc(1) True by (intro exI[of _ k]) auto
    then have new: "worker_summary calls (pcs(k := pc)) w =
        Some \<lparr>ws_WorkerID = w, ws_TotalFetches = wrap64 (summed 6 (of_worker w (\<lambda>m. 1)) calls pcs + 1),
          ws_TotalRows = wrap64 (summed 6 (of_worker w fm_RowsReturned) calls pcs + fm_RowsReturned m),
          ws_EmptyFetches = wrap64 (summed 6 (of_worker w (\<lambda>m. if fm_RowsReturned m = 0 then 1 else 0)) calls pcs +
            (if fm_RowsReturned m = 0 then 1 else 0)),
          ws_TotalDuration = wrap64 (summed 6 (of_worker w fm_Duration) calls pcs + fm_Duration m)\<rparr>"
      using True by (simp add: worker_summary_def add)
    show ?thesis
    proof (cases "seen_worker calls pcs w")
      case ex: True
      then have "worker_summary calls pcs w = Some \<lparr>ws_WorkerID = w, ws_TotalFetches = summed 6 (of_worker w (\<lambda>m. 1)) calls pcs,
          ws_TotalRows = summed 6 (of_worker w fm_RowsReturned) calls pcs,
          ws_EmptyFetches = summed 6 (of_worker w (\<lambda>m. if fm_RowsReturned m = 0 then 1 else 0)) calls pcs,
          ws_TotalDuration = summed 6 (of_worker w fm_Duration) calls pcs\<rparr>"
        by (simp add: worker_summary_def)
      with new True show ?thesis by (simp add: update_worker_def Let_def)
    next
      case none: False
      then have "worker_summary calls pcs w = None" by (simp add: worker_summary_def)
      with new True summed_none[OF none] show ?thesis by (simp add: update_worker_def Let_def)
    qed
  next
    case False
    have "seen_worker calls (pcs(k := pc)) w = seen_worker calls pcs w"
      unfolding seen_worker_def using k(2) False by (metis fun_upd_other record_call.inject(1))
    with False show ?thesis unfolding worker_summary_def add by (simp add: update_worker_def Let_def worker_summary_def)
  qed
qed

lemma least_insert:
  assumes "finite D" "\<forall>x \<in> D. 0 < x" "0 < d"
  shows "least (insert d D) = (if least D = 0 \<or> d < least D then d else least D)"
proof (cases "D = {}")
  case False
  define v where "v = Min D"
  have "Min (insert d D) = min d v" unfolding v_def by (rule Min_insert[OF assms(1) False])
  moreover have "0 < v" using assms(2) Min_in[OF assms(1) False] by (simp add: v_def)
  ultimately show ?thesis using False by (simp add: least_def min_def flip: v_def)
qed (simp add: least_def)

lemma greatest_insert:
  assumes "finite D"
  shows "Max (insert (0 :: int) (insert d D)) = (if d > Max (insert 0 D) then d else Max (insert 0 D))"
proof -
  define v where "v = Max (insert 0 D)"
  have "Max (insert d (insert 0 D)) = max d v" unfolding v_def by (rule Max_insert) (use assms in auto)
  then show ?thesis by (simp add: insert_commute[of 0 d] max_def flip: v_def)
qed

definition record_ok :: "record_call list \<Rightarrow> MetricsCollector \<times> (nat \<Rightarrow> record_pc) \<Rightarrow> bool" where
  "record_ok calls s \<longleftrightarrow> fst s = summary calls (snd s) \<and> (\<forall>k < length calls. pc_fits (calls ! k) (snd s k))"

lemmas summary_upd = summary_def summed_same summed_add durations_same durations_add worker_summary_same

lemma durations_pos:
  assumes "\<forall>m. RFetch m \<in> set calls \<longrightarrow> 0 < fm_Duration m"
  shows "\<forall>x \<in> durations n calls pcs. 0 < x"
proof
  fix x assume "x \<in> durations n calls pcs"
  then obtain k where k: "k < length calls" "is_fetch (calls ! k)" "x = call_duration (calls ! k)"
    by (auto simp: durations_def)
  then show "0 < x" using assms nth_mem[OF k(1)] by (cases "calls ! k") auto
qed

lemma publish_step_ok:
  assumes "k < length calls" "calls ! k = RPublish m" "pc_fits (RPublish m) (pcs k)"
    "RecordPublish_step m (pcs k) (summary calls pcs) = (pc', mc')"
  shows "mc' = summary calls (pcs(k := pc')) \<and> pc_fits (RPublish m) pc'"
proof -
  from assms(3) consider "pcs k = AddPublishes" | "pcs k = AddSuccess" | "pcs k = AddFailure" | "pcs k = AddPublishDuration" | "pcs k = Recorded"
    by auto
  then show ?thesis using assms(1,2,4) by cases (auto simp: summary_upd)
qed

lemma lock_worker_ok:
  assumes "k < length calls" "calls ! k = RFetch m" "pcs k = LockWorker"
  shows "update_worker m (summary calls pcs) = summary calls (pcs(k := Recorded))"
proof -
  have "workerStats (update_worker m (summary calls pcs)) = worker_summary calls (pcs(k := Recorded))"
    using worker_summary_add[of k calls m Recorded pcs "summary calls pcs"] assms by (simp add: summary_def)
  moreover have "update_worker m mc = mc\<lparr>workerStats := workerStats (update_worker m mc)\<rparr>" for mc
    by (simp add: update_worker_def Let_def)
  ultimately have "update_worker m (summary calls pcs) = (summary calls pcs)\<lparr>workerStats := worker_summary calls (pcs(k := Recorded))\<rparr>"
    by metis
  then show ?thesis using assms by (simp add: summary_def summed_same durations_same)
qed

lemma fetch_step_ok:
  assumes pos: "\<forall>m. RFetch m \<in> set calls \<longrightarrow> 0 < fm_Duration m"
    and k: "k < length calls" "calls ! k = RFetch m" and fits: "pc_fits (RFetch m) (pcs k)"
    and step: "RecordFetch_step m (pcs k) (summary calls pcs) = (pc', mc')"
  shows "mc' = summary calls (pcs(k := pc')) \<and> pc_fits (RFetch m) pc'"
proof -
  have d: "0 < fm_Duration m" using pos k nth_mem by metis
  note mm = least_insert[OF finite_durations durations_pos[OF pos] d] greatest_insert[OF finite_durations]
  show ?thesis
    using step fits k
    by (cases "pcs k") (auto simp: lock_worker_ok, auto simp: summary_upd mm Let_def split: if_splits)
qed

lemma record_ok_preserved:
  assumes "record_step calls s s'" "record_ok calls s" "\<forall>m. RFetch m \<in> set calls \<longrightarrow> 0 < fm_Duration m"
  shows "record_ok calls s'"
  using assms(1,2)
proof (induction rule: record_step.induct)
  case (one k pcs mc pc' mc')
  then have ok: "mc = summary calls pcs" "pc_fits (calls ! k) (pcs k)" by (simp_all add: record_ok_def)
  have "mc' = summary calls (pcs(k := pc')) \<and> pc_fits (calls ! k) pc'"
  proof (cases "calls ! k")
    case (RFetch m)
    with fetch_step_ok[OF assms(3) one(1) RFetch, of pcs pc' mc'] one(2) ok show ?thesis by simp
  next
    case (RPublish m)
    with publish_step_ok[OF one(1) RPublish, of pcs pc' mc'] one(2) ok show ?thesis by simp
  qed
  with one.prems show ?case by (simp add: record_ok_def)
qed

lemma record_ok_start: "record_ok calls (NewMetricsCollector, call_start \<circ> (!) calls)"
proof -
  have "stage (call_start c) = 0" for c by (cases c) auto
  moreover have "pc_fits c (call_start c)" for c by (cases c) auto
  ultimately show ?thesis
    by (auto simp: record_ok_def summary_def summed_def durations_def worker_summary_def seen_worker_def
        NewMetricsCollector_def least_def in_int64_def)
qed

text \<open>The sequential run of the calls is one of the interleavings.\<close>

fun record_one :: "record_call \<Rightarrow> MetricsCollector \<Rightarrow> MetricsCollector" where
  "record_one (RFetch m) mc = RecordFetch m mc"
| "record_one (RPublish m) mc = RecordPublish m mc"

definition run_call :: "record_call \<Rightarrow> record_pc \<times> MetricsCollector \<Rightarrow> record_pc \<times> MetricsCollector" where
  "run_call c s = call_step c (fst s) (snd s)"

lemma solo_run:
  assumes "k < length calls"
  shows "(record_step calls)\<^sup>*\<^sup>* (mc, pcs)
    (snd ((run_call (calls ! k) ^^ n) (pcs k, mc)), pcs(k := fst ((run_call (calls ! k) ^^ n) (pcs k, mc))))"
proof (induction n)
  case (Suc n)
  let ?s = "(run_call (calls ! k) ^^ n) (pcs k, mc)"
  have "record_step calls (snd ?s, pcs(k := fst ?s)) (snd (run_call (calls ! k) ?s), (pcs(k := fst ?s))(k := fst (run_call (calls ! k) ?s)))"
    by (rule record_step.one[OF assms]) (simp add: run_call_def)
  with Suc show ?case by (auto elim: rtranclp.rtrancl_into_rtrancl simp del: fun_upd_apply)
qed simp

lemma run_call_whole: "(run_call c ^^ 9) (call_start c, mc) = (Recorded, record_one c mc)"
proof (cases c)
  case (RFetch m)
  show ?thesis
    unfolding RFetch
    by (cases "minTxnDuration mc = 0 \<or> fm_Duration m < minTxnDuration mc"; cases "fm_Duration m > maxTxnDuration mc")
      (auto simp: numeral_eq_Suc run_call_def RecordFetch_def add_totals_def update_min_def update_max_def Let_def)
next
  case (RPublish m)
  then show ?thesis by (simp add: numeral_eq_Suc run_call_def RecordPublish_def)
qed

lemma sequential_run:
  "n \<le> length calls \<Longrightarrow> (record_step calls)\<^sup>*\<^sup>* (mc, call_start \<circ> (!) calls)
     (fold record_one (take n calls) mc, \<lambda>k. if k < n then Recorded else call_start (calls ! k))"
proof (induction n)
  case 0
  then show ?case by (simp add: comp_def)
next
  case (Suc n)
  let ?p = "\<lambda>n k. if k < n then Recorded else call_start (calls ! k)"
  have "(record_step calls)\<^sup>*\<^sup>* (fold record_one (take n calls) mc, ?p n)
      (record_one (calls ! n) (fold record_one (take n calls) mc), (?p n)(n := Recorded))"
    using solo_run[of n calls "fold record_one (take n calls) mc" "?p n" 9] run_call_whole[of "calls ! n"] Suc.prems by simp
  moreover have "(?p n)(n := Recorded) = ?p (Suc n)" by (auto simp: fun_eq_iff less_Suc_eq)
  moreover have "record_one (calls ! n) (fold record_one (take n calls) mc) = fold record_one (take (Suc n) calls) mc"
    using Suc.prems by (simp add: take_Suc_conv_app_nth)
  ultimately show ?case using rtranclp_trans[OF Suc.IH] Suc.prems by simp
qed

lemma record_reachable_ok:
  assumes "\<forall>m. RFetch m \<in> set calls \<longrightarrow> 0 < fm_Duration m"
    "(record_step calls)\<^sup>*\<^sup>* (NewMetricsCollector, call_start \<circ> (!) calls) s"
  shows "record_ok calls s"
  using assms(2)
  by (induction rule: rtranclp_induct) (auto intro: record_ok_start record_ok_preserved[OF _ _ assms(1)])

lemma summary_recorded:
  assumes "\<forall>k < length calls. pcs k = Recorded"
  shows "summary calls pcs = summary calls (\<lambda>_. Recorded)"
proof -
  have "summed n f calls pcs = summed n f calls (\<lambda>_. Recorded)" "durations n calls pcs = durations n calls (\<lambda>_. Recorded)"
    "seen_worker calls pcs w = seen_worker calls (\<lambda>_. Recorded) w" for n f w
    using assms by (simp_all add: summed_def durations_def seen_worker_def cong: conj_cong)
  then show ?thesis by (simp add: summary_def worker_summary_def fun_eq_iff)
qed


definition sample_fetch_metrics :: "int \<Rightarrow> int \<Rightarrow> FetchMetrics" where
  "sample_fetch_metrics rows d = \<lparr>fm_StartTime = 0, fm_Duration = d, fm_RowsReturned = rows, fm_RequestedLimit = 10, fm_WorkerID = 1\<rparr>"


text \<open>
  The counters are loaded one after the other, so what a reader reports need not hold at any
  moment: an empty fetch between the loads gives a share of 200 percent.
\<close>

lemma torn_statistics:
  "let mc = RecordFetch (sample_fetch_metrics 0 5) NewMetricsCollector; mc' = RecordFetch (sample_fetch_metrics 0 5) mc
   in fs_empty_fetch_pct (GetFetchStats (\<lambda>i. if i = 0 then mc else mc')) = 200"
  by code_simp

text \<open>The zero value marks an empty minimum, so a duration of 0 ns is forgotten by the next call.\<close>

lemma zero_duration_forgotten:
  assumes "fm_Duration m = 0" "0 < fm_Duration m'"
  shows "minTxnDuration (RecordFetch m' (RecordFetch m NewMetricsCollector)) = fm_Duration m'"
  using assms
  by (simp add: RecordFetch_def add_totals_def update_min_def update_max_def update_worker_def NewMetricsCollector_def Let_def)

section \<open>The wrappers change nothing\<close>

lemma lift_op_simps [simp]:
  "fst (lift_op f s) = fst (f (fst s))" "fst (snd (lift_op f s)) = snd (f (fst s))" "snd (snd (lift_op f s)) = snd s"
  by (simp_all add: lift_op_def split_beta)

lemma lift_op_eq: "lift_op f s = (a, s') \<longleftrightarrow> f (fst s) = (a, fst s') \<and> snd s' = snd s"
  by (cases s') (auto simp: lift_op_def split: prod.splits)

lemma instrumented_fetch_fst:
  "fst (instrumented_fetch R w t c n s) = fst (FetchLockAndMarkPublishing R c n (fst s))"
  "fst (snd (instrumented_fetch R w t c n s)) = snd (FetchLockAndMarkPublishing R c n (fst s))"
  by (auto simp: instrumented_fetch_def Let_def split: prod.splits)

lemma instrumented_fetch_eq:
  "instrumented_fetch R w t c n s = (res, s') \<Longrightarrow> FetchLockAndMarkPublishing R c n (fst s) = (res, fst s')"
  using instrumented_fetch_fst[of R w t c n s] by (metis fst_conv snd_conv prod.collapse)

lemma count_results_total:
  assumes "i + length results \<le> length msgs"
  shows "\<exists>rs. count_results msgs i results a b acc =
    Inr (a + int (length (filter Success results)), b + int (length (filter (\<lambda>r. \<not> Success r) results)), rs)"
  using assms
proof (induction results arbitrary: i a b acc)
  case (Cons r rs)
  then have le: "Suc i + length rs \<le> length msgs" by simp
  show ?case
  proof (cases "Success r")
    case True
    with Cons.IH[OF le, of "a + 1" b acc] show ?thesis by (auto simp: add.assoc)
  next
    case False
    with Cons.IH[OF le, of a "b + 1"] le show ?thesis by (auto simp: add.assoc)
  qed
qed simp

text \<open>The instrumented repository keeps the contract of the one it wraps.\<close>

lemma fetched_lift: "fetched (\<lambda>s. row (fst s)) s s' m = fetched row (fst s) (fst s') m"
  by (simp add: fetched_def)

lemma settles_lift: "settles (\<lambda>s. row (fst s)) i E s (lift_op f s) = settles row i E (fst s) (f (fst s))"
  by (cases "f (fst s)") (simp add: settles_def lift_op_def Let_def split: option.splits)

lemma instrumented_ops:
  "FetchAndLockToPublishing (NewInstrumentedBatchRepository R w t) c = lift_op (FetchAndLockToPublishing R c)"
  "UpdateToPublished (NewInstrumentedBatchRepository R w t) c i = lift_op (UpdateToPublished R c i)"
  "UpdateToFailed (NewInstrumentedBatchRepository R w t) c i e = lift_op (UpdateToFailed R c i e)"
  "UpdateToDead (NewInstrumentedBatchRepository R w t) c i e = lift_op (UpdateToDead R c i e)"
  "RequeueFailed (NewInstrumentedBatchRepository R w t) c = lift_op (RequeueFailed R c)"
  "FetchLockAndMarkPublishing (NewInstrumentedBatchRepository R w t) c n = instrumented_fetch R w t c n"
  "UpdateBatchToPublished (NewInstrumentedBatchRepository R w t) c ids = lift_op (UpdateBatchToPublished R c ids)"
  by (simp_all add: NewInstrumentedBatchRepository_def)

lemmas instrumented_simps = instrumented_ops lift_op_eq fetched_lift settles_lift instrumented_fetch_fst

context batch_outbox_repository
begin

lemma instrumented_contract:
  "batch_outbox_repository (NewInstrumentedBatchRepository R w t) (\<lambda>s. row (fst s)) (\<lambda>s. inv (fst s)) okc"
proof (unfold_locales, unfold instrumented_simps, goal_cases)
  case (14 s c n ms s')
  from batch_fetch_ok[OF 14(1,2) instrumented_fetch_eq[OF 14(3)]] show ?case by simp
next
  case (15 s c n e s' i)
  from batch_fetch_err[OF 15(1,2) instrumented_fetch_eq[OF 15(3)]] show ?case .
next
  case (17 s c ids k s')
  from batch_published_ok[OF 17(1,2) 17(3)[THEN conjunct1]] show ?case .
next
  case (18 s c ids e s' i)
  from batch_published_err[OF 18(1,2) 18(3)[THEN conjunct1]] show ?case .
qed (simp_all add: fetch_inv fetch_ok fetch_no_message fetch_err published_inv published failed_inv failed dead_inv dead
    requeue_inv requeue_rows batch_fetch_inv batch_published_inv)

end

text \<open>So does the instrumented publisher, which never panics on messages with distinct ids.\<close>

lemma instrumented_publish_same:
  assumes "batch_publisher P accepted" "distinct (map ID msgs)" "PublishBatch P msgs b = (rs, b')"
  obtains m where "instrumented_publish P t msgs (b, mc) = (Inr rs, b', RecordPublish m mc)"
    "pm_SuccessCount m = int (length (filter Success rs))" "pm_SuccessCount m + pm_FailureCount m = int (length msgs)"
proof -
  have "length rs = length msgs" using batch_publisher.batch_results[OF assms(1,3,2)] by blast
  with count_results_total[of 0 rs msgs 0 0 "[]"] obtain reasons where
    "count_results msgs 0 rs 0 0 [] = Inr (int (length (filter Success rs)), int (length (filter (\<lambda>r. \<not> Success r) rs)), reasons)"
    by auto
  moreover have "int (length (filter Success rs)) + int (length (filter (\<lambda>r. \<not> Success r) rs)) = int (length msgs)"
    using sum_length_filter_compl[of Success rs] \<open>length rs = length msgs\<close> by linarith
  ultimately show thesis using assms(3)
    by (intro that[of "\<lparr>pm_StartTime = fst (t msgs), pm_Duration = snd (t msgs),
      pm_SuccessCount = int (length (filter Success rs)), pm_FailureCount = int (length (filter (\<lambda>r. \<not> Success r) rs)),
      pm_BatchSize = int (length msgs), pm_FailureReasons = reasons\<rparr>"])
      (simp_all add: instrumented_publish_def)
qed

lemma instrumented_publish_state: "fst (snd (instrumented_publish P t msgs s)) = snd (PublishBatch P msgs (fst s))"
  by (auto simp: instrumented_publish_def split: prod.splits sum.splits)

context batch_publisher
begin

lemma instrumented_publisher_contract:
  "batch_publisher (NewInstrumentedBatchPublisher P t) (\<lambda>s. accepted (fst s))"
proof (unfold_locales, goal_cases)
  case (1 m w w')
  then show ?case using publish_ok[of m "fst w" "fst w'"] by (simp add: NewInstrumentedBatchPublisher_def lift_op_eq)
next
  case (2 w x m)
  then show ?case using publish_keeps by (simp add: NewInstrumentedBatchPublisher_def)
next
  case (3 ms w rs w')
  obtain rs' b where b: "PublishBatch P ms (fst w) = (rs', b)" by fastforce
  obtain m where "instrumented_publish P t ms (fst w, snd w) = (Inr rs', b, RecordPublish m (snd w))"
    by (rule instrumented_publish_same[OF batch_publisher_axioms 3(2) b])
  with 3(1) have "rs' = rs" "b = fst w'" by (auto simp: NewInstrumentedBatchPublisher_def)
  with batch_results[OF b 3(2)] show ?case by fastforce
next
  case (4 w x ms)
  then show ?case using batch_keeps instrumented_publish_state[of P t ms w]
    by (auto simp: NewInstrumentedBatchPublisher_def split_beta)
qed

end

interpretation instrumented_pgx:
  batch_outbox_repository "NewInstrumentedBatchRepository (pgx_repository rp) w t" "\<lambda>s. row_of (fst s)" "\<lambda>s. wf_table (fst s)" wf_ctx
  for rp w t
  by (rule pgx.instrumented_contract)

text \<open>
  C17: the instrumentation is transparent.  The instrumented repository answers and changes the
  table as the PostgreSQL repository does, one recorded fetch apart; and an instrumented publisher
  of distinct messages does not panic, returns the results of the publisher it wraps and
  records a success or a failure for each message.
\<close>

theorem instrumentation_transparent:
  assumes "batch_publisher P accepted" "distinct (map ID msgs)"
  shows "(\<exists>m. instrumented_fetch (pgx_repository rp) w t c n (d, mc) =
      (fst (pgx_FetchLockAndMarkPublishing rp c n d), snd (pgx_FetchLockAndMarkPublishing rp c n d), RecordFetch m mc) \<and>
      fm_WorkerID m = w \<and> fm_RequestedLimit m = n) \<and>
    (\<exists>m. instrumented_publish P tp msgs (b, mc) =
      (Inr (fst (PublishBatch P msgs b)), snd (PublishBatch P msgs b), RecordPublish m mc) \<and>
      pm_SuccessCount m = int (length (filter Success (fst (PublishBatch P msgs b)))) \<and>
      pm_SuccessCount m + pm_FailureCount m = int (length msgs))"
proof -
  obtain m where "instrumented_publish P tp msgs (b, mc) =
      (Inr (fst (PublishBatch P msgs b)), snd (PublishBatch P msgs b), RecordPublish m mc)"
      "pm_SuccessCount m = int (length (filter Success (fst (PublishBatch P msgs b))))"
      "pm_SuccessCount m + pm_FailureCount m = int (length msgs)"
    by (rule instrumented_publish_same[OF assms, of b _ _ tp mc]) (auto simp: prod_eq_iff)
  moreover obtain res d' where "pgx_FetchLockAndMarkPublishing rp c n d = (res, d')" by fastforce
  then have "\<exists>m. instrumented_fetch (pgx_repository rp) w t c n (d, mc) = (res, d', RecordFetch m mc) \<and>
      fm_WorkerID m = w \<and> fm_RequestedLimit m = n"
    by (intro exI[of _ "\<lparr>fm_StartTime = fst (t c), fm_Duration = snd (t c),
      fm_RowsReturned = (case res of Inl e \<Rightarrow> 0 | Inr ms \<Rightarrow> int (length ms)), fm_RequestedLimit = n, fm_WorkerID = w\<rparr>"])
      (simp add: instrumented_fetch_def Let_def)
  ultimately show ?thesis using \<open>pgx_FetchLockAndMarkPublishing rp c n d = (res, d')\<close> by auto
qed

definition metered_publisher :: "sqs_service BatchPublisher" where
  "metered_publisher = NewMultiBatchPublisher service_client (\<lambda>_. ''https://sqs/q'') rev"

lemma metered_contract: "batch_publisher metered_publisher (sqs_accepted service_stored (\<lambda>_. ''https://sqs/q''))"
  unfolding metered_publisher_def by (rule service.fanout_contract)

theorem instrumentation_transparent_witness:
  "\<exists>m. instrumented_publish metered_publisher (\<lambda>_. (0, 3)) [sample_msg ''a'' 5, sample_msg ''b'' 5]
      (\<lparr>taken = [], script = [Refuse_Entries [''1'']]\<rparr>, NewMetricsCollector) =
      (Inr (fst (PublishBatch metered_publisher [sample_msg ''a'' 5, sample_msg ''b'' 5] \<lparr>taken = [], script = [Refuse_Entries [''1'']]\<rparr>)),
       snd (PublishBatch metered_publisher [sample_msg ''a'' 5, sample_msg ''b'' 5] \<lparr>taken = [], script = [Refuse_Entries [''1'']]\<rparr>),
       RecordPublish m NewMetricsCollector) \<and> pm_SuccessCount m + pm_FailureCount m = 2"
  using instrumentation_transparent[OF metered_contract, of "[sample_msg ''a'' 5, sample_msg ''b'' 5]" sample_repo 1 "\<lambda>_. (0, 0)"
    "sample_ctx 9" 10 "[]" NewMetricsCollector "\<lambda>_. (0, 3)" "\<lparr>taken = [], script = [Refuse_Entries [''1'']]\<rparr>"]
  by (auto simp: sample_msg_def)

section \<open>PostgreSQL metrics\<close>

text \<open>What \<open>pgxpool\<close> reports of the pool.\<close>

record pool_stat =
  MaxConns :: int
  TotalConns :: int
  AcquiredConns :: int
  IdleConns :: int
  ConstructingConns :: int
  AcquireCount :: int
  AcquireDuration :: duration
  CanceledAcquireCount :: int
  EmptyAcquireCount :: int

record PGPoolMetrics = pool_stat +
  pp_Timestamp :: time
  AcquiredConnsCount :: int
  ConnectionUtilization :: rat
  AvgAcquireDuration :: duration

definition CollectPoolMetrics :: "time \<Rightarrow> pool_stat \<Rightarrow> PGPoolMetrics" where
  "CollectPoolMetrics now stats = pool_stat.extend stats
     \<lparr>pp_Timestamp = now, AcquiredConnsCount = AcquiredConns stats,
      ConnectionUtilization = float64 (ratio (AcquiredConns stats) (MaxConns stats) * 100),
      AvgAcquireDuration = (if AcquireCount stats > 0 then go_quot (AcquireDuration stats) (AcquireCount stats) else 0)\<rparr>"

definition LogPoolMetrics :: "PGPoolMetrics \<Rightarrow> log_entry" where
  "LogPoolMetrics m =
     (''pgxpool_metrics'',
      [(''max_conns'', LogInt (MaxConns m)), (''total_conns'', LogInt (TotalConns m)), (''acquired_conns'', LogInt (AcquiredConns m)),
       (''idle_conns'', LogInt (IdleConns m)), (''constructing_conns'', LogInt (ConstructingConns m)),
       (''connection_utilization_pct'', LogFloat (ConnectionUtilization m)), (''acquire_count'', LogInt (AcquireCount m)),
       (''acquire_duration_ms'', LogInt (go_quot (AcquireDuration m) 1000000)),
       (''avg_acquire_duration_us'', LogInt (go_quot (AvgAcquireDuration m) 1000)),
       (''canceled_acquire_count'', LogInt (CanceledAcquireCount m)), (''empty_acquire_count'', LogInt (EmptyAcquireCount m))])"

record PGActivityMetrics =
  pa_Timestamp :: "time option"
  pa_Active :: int
  pa_Idle :: int
  pa_IdleInTxn :: int
  pa_Waiting :: int
  pa_WaitLock :: int
  pa_WaitIO :: int
  pa_WaitClient :: int
  pa_WaitOther :: int
  pa_TotalConns :: int

definition no_activity :: "time option \<Rightarrow> PGActivityMetrics" where
  "no_activity t = \<lparr>pa_Timestamp = t, pa_Active = 0, pa_Idle = 0, pa_IdleInTxn = 0, pa_Waiting = 0, pa_WaitLock = 0, pa_WaitIO = 0,
     pa_WaitClient = 0, pa_WaitOther = 0, pa_TotalConns = 0\<rparr>"

type_synonym activity_row = "string option \<times> string option \<times> int"

definition count_state :: "string option \<Rightarrow> int \<Rightarrow> PGActivityMetrics \<Rightarrow> PGActivityMetrics" where
  "count_state st n a =
     (case st of
        None \<Rightarrow> a
      | Some s \<Rightarrow>
          if s = ''active'' then a\<lparr>pa_Active := pa_Active a + n\<rparr>
          else if s = ''idle'' then a\<lparr>pa_Idle := pa_Idle a + n\<rparr>
          else if s = ''idle in transaction'' then a\<lparr>pa_IdleInTxn := pa_IdleInTxn a + n\<rparr>
          else a)"

definition count_wait :: "string option \<Rightarrow> int \<Rightarrow> PGActivityMetrics \<Rightarrow> PGActivityMetrics" where
  "count_wait wt n a =
     (case wt of
        None \<Rightarrow> a
      | Some s \<Rightarrow>
          let a = a\<lparr>pa_Waiting := pa_Waiting a + n\<rparr>
          in if s = ''Lock'' then a\<lparr>pa_WaitLock := pa_WaitLock a + n\<rparr>
             else if s = ''IO'' then a\<lparr>pa_WaitIO := pa_WaitIO a + n\<rparr>
             else if s = ''Client'' then a\<lparr>pa_WaitClient := pa_WaitClient a + n\<rparr>
             else a\<lparr>pa_WaitOther := pa_WaitOther a + n\<rparr>)"

definition count_row :: "activity_row \<Rightarrow> PGActivityMetrics \<Rightarrow> PGActivityMetrics" where
  "count_row r a =
     (case r of (st, wt, n) \<Rightarrow>
        let a = count_wait wt n (count_state st n a) in a\<lparr>pa_TotalConns := pa_TotalConns a + n\<rparr>)"

text \<open>A row that cannot be scanned ends the collection; \<open>rows.Err\<close> is asked after the counters moved.\<close>

fun scan_rows :: "(goerr + activity_row) list \<Rightarrow> PGActivityMetrics \<Rightarrow> goerr option \<times> PGActivityMetrics" where
  "scan_rows [] a = (None, a)"
| "scan_rows (Inl err # rows) a = (Some err, a)"
| "scan_rows (Inr r # rows) a = scan_rows rows (count_row r a)"

record pg_counters =
  totalSnapshots :: int
  totalWaiting :: int
  totalActive :: int

definition CollectActivityMetrics ::
  "time \<Rightarrow> goerr + (goerr + activity_row) list \<Rightarrow> goerr option \<Rightarrow> pg_counters \<Rightarrow>
   (PGActivityMetrics \<times> goerr option) \<times> pg_counters" where
  "CollectActivityMetrics now query rowsErr c =
     (case query of
        Inl err \<Rightarrow> ((no_activity None, Some err), c)
      | Inr rows \<Rightarrow>
          (case scan_rows rows (no_activity (Some now)) of
             (Some err, a) \<Rightarrow> ((a, Some err), c)
           | (None, a) \<Rightarrow>
               ((a, rowsErr), c\<lparr>totalSnapshots := wrap64 (totalSnapshots c + 1),
                  totalWaiting := wrap64 (totalWaiting c + pa_Waiting a), totalActive := wrap64 (totalActive c + pa_Active a)\<rparr>)))"

definition LogActivityMetrics :: "PGActivityMetrics \<Rightarrow> log_entry" where
  "LogActivityMetrics a =
     (''pg_stat_activity'',
      [(''total_conns'', LogInt (pa_TotalConns a)), (''active'', LogInt (pa_Active a)), (''idle'', LogInt (pa_Idle a)),
       (''idle_in_txn'', LogInt (pa_IdleInTxn a)), (''waiting'', LogInt (pa_Waiting a)), (''wait_lock'', LogInt (pa_WaitLock a)),
       (''wait_io'', LogInt (pa_WaitIO a)), (''wait_client'', LogInt (pa_WaitClient a)), (''wait_other'', LogInt (pa_WaitOther a))])"

definition LogAggregateStats :: "pg_counters \<Rightarrow> log_entry list" where
  "LogAggregateStats c =
     (let snapshots = totalSnapshots c
      in if snapshots = 0 then []
         else [(''pg_aggregate_stats'',
                [(''total_snapshots'', LogInt snapshots),
                 (''avg_waiting'', LogFloat (float64 (float64 (of_int (totalWaiting c)) / float64 (of_int snapshots)))),
                 (''avg_active'', LogFloat (float64 (float64 (of_int (totalActive c)) / float64 (of_int snapshots))))])])"

text \<open>
  The periodic collection over a finite schedule of what its \<open>select\<close> sees: the end of the
  context, or a tick with what the pool and the server answer to it.  The result carries the
  entries logged; the text of an error is the entry's message.
\<close>

record tick =
  tick_now :: time
  tick_pool :: pool_stat
  tick_query :: "goerr + (goerr + activity_row) list"
  tick_rows_err :: "goerr option"

fun StartPeriodicCollection :: "tick option list \<Rightarrow> pg_counters \<Rightarrow> log_entry list \<times> pg_counters" where
  "StartPeriodicCollection [] c = ([], c)"
| "StartPeriodicCollection (None # turns) c = ([], c)"
| "StartPeriodicCollection (Some t # turns) c =
     (case CollectActivityMetrics (tick_now t) (tick_query t) (tick_rows_err t) c of
        ((a, err), c1) \<Rightarrow>
          (case StartPeriodicCollection turns c1 of
             (entries, c2) \<Rightarrow>
               (LogPoolMetrics (CollectPoolMetrics (tick_now t) (tick_pool t)) #
                (case err of Some e \<Rightarrow> (''failed to collect pg_stat_activity'', []) | None \<Rightarrow> LogActivityMetrics a) # entries, c2)))"

text \<open>Every connection is counted once in the total, and every waiting one under one kind of wait.\<close>

lemma activity_adds_up:
  "scan_rows (map Inr rows) a = (None, fold count_row rows a)"
  "pa_TotalConns (fold count_row rows a) = pa_TotalConns a + sum_list (map (snd \<circ> snd) rows)"
  "pa_Waiting a = pa_WaitLock a + pa_WaitIO a + pa_WaitClient a + pa_WaitOther a \<Longrightarrow>
   pa_Waiting (fold count_row rows a) = pa_WaitLock (fold count_row rows a) + pa_WaitIO (fold count_row rows a) +
     pa_WaitClient (fold count_row rows a) + pa_WaitOther (fold count_row rows a)"
proof -
  have t: "pa_TotalConns (count_row r a) = pa_TotalConns a + snd (snd r)" for r a
    by (auto simp: count_row_def count_wait_def count_state_def Let_def split: prod.splits option.splits)
  have w: "pa_Waiting (count_row r a) - pa_WaitLock (count_row r a) - pa_WaitIO (count_row r a) -
      pa_WaitClient (count_row r a) - pa_WaitOther (count_row r a) =
      pa_Waiting a - pa_WaitLock a - pa_WaitIO a - pa_WaitClient a - pa_WaitOther a" for r a
    by (auto simp: count_row_def count_wait_def count_state_def Let_def split: prod.splits option.splits)
  show "scan_rows (map Inr rows) a = (None, fold count_row rows a)" by (induction rows arbitrary: a) auto
  show "pa_TotalConns (fold count_row rows a) = pa_TotalConns a + sum_list (map (snd \<circ> snd) rows)"
    by (induction rows arbitrary: a) (auto simp: t)
  show "pa_Waiting a = pa_WaitLock a + pa_WaitIO a + pa_WaitClient a + pa_WaitOther a \<Longrightarrow>
    pa_Waiting (fold count_row rows a) = pa_WaitLock (fold count_row rows a) + pa_WaitIO (fold count_row rows a) +
      pa_WaitClient (fold count_row rows a) + pa_WaitOther (fold count_row rows a)"
  proof (induction rows arbitrary: a)
    case (Cons r rows)
    have "pa_Waiting (count_row r a) = pa_WaitLock (count_row r a) + pa_WaitIO (count_row r a) +
        pa_WaitClient (count_row r a) + pa_WaitOther (count_row r a)"
      using w[of r a] Cons.prems by linarith
    with Cons.IH show ?case by simp
  qed simp
qed

text \<open>A result set that breaks off still counts as a snapshot.\<close>

lemma broken_snapshot_counted:
  "CollectActivityMetrics now (Inr []) (Some err) c =
     ((no_activity (Some now), Some err), c\<lparr>totalSnapshots := wrap64 (totalSnapshots c + 1),
        totalWaiting := wrap64 (totalWaiting c), totalActive := wrap64 (totalActive c)\<rparr>)"
  by (simp add: CollectActivityMetrics_def no_activity_def)

end
