(* ===== verification/Consumer.thy ===== *)
theory Consumer
  imports Sqs_Publisher Inbox Dispatcher
begin

text \<open>
  The consumer of \<open>src/contrib/sqs/consumer\<close>: parsing of received messages, the event-type router
  and its registry, typed handlers, the hooks, and the service that polls a queue, runs the
  handler and deletes or leaves the message.  The SQS client, \<open>uuid.Parse\<close>, \<open>json.Unmarshal\<close> and
  the application's handlers are parameters; a handler acts on an application state \<open>'h\<close>.
  Log output is left out.
\<close>

section \<open>Messages (model.go, parseSQSMessage)\<close>

record Message =
  mg_MessageId :: "string option"
  mg_ReceiptHandle :: "string option"
  mg_Body :: "string option"
  mg_Attributes :: "string \<rightharpoonup> string"
  mg_MessageAttributes :: "string \<rightharpoonup> string option"

record SQSMessage =
  sq_MessageID :: string
  sq_ReceiptHandle :: string
  sq_Body :: string
  sq_EventType :: string
  sq_EventID :: uuid
  sq_IdempotencyKey :: string
  sq_Metadata :: go_bytes
  sq_ReceiveCount :: int

definition ToString :: "string option \<Rightarrow> string" where
  "ToString p = (case p of None \<Rightarrow> [] | Some s \<Rightarrow> s)"

text \<open>\<open>strconv.Atoi\<close>: an optional sign, decimal digits, within the range of an \<open>int\<close>.\<close>

definition is_digit :: "char \<Rightarrow> bool" where
  "is_digit c \<longleftrightarrow> 48 \<le> (of_char c :: nat) \<and> (of_char c :: nat) \<le> 57"

definition digits_value :: "string \<Rightarrow> int" where
  "digits_value ds = foldl (\<lambda>n c. 10 * n + (int (of_char c) - 48)) 0 ds"

definition Atoi :: "string \<Rightarrow> int option" where
  "Atoi s =
     (let (sign, ds) = (case s of
            [] \<Rightarrow> (1, [])
          | c # cs \<Rightarrow> if c = CHR ''-'' then (- 1, cs) else if c = CHR ''+'' then (1, cs) else (1, s))
      in if ds = [] \<or> \<not> list_all is_digit ds then None
         else let v = sign * digits_value ds in if in_int64 v then Some v else None)"

definition parseSQSMessage :: "(string \<Rightarrow> uuid option) \<Rightarrow> Message \<Rightarrow> SQSMessage" where
  "parseSQSMessage uuid_Parse sqsMsg =
     (let attr = mg_MessageAttributes sqsMsg;
          str = (\<lambda>k. case attr k of None \<Rightarrow> [] | Some v \<Rightarrow> ToString v)
      in \<lparr>sq_MessageID = ToString (mg_MessageId sqsMsg),
          sq_ReceiptHandle = ToString (mg_ReceiptHandle sqsMsg),
          sq_Body = ToString (mg_Body sqsMsg),
          sq_EventType = str ''event_type'',
          sq_EventID =
            (let idStr = str ''outbox_id''
             in if idStr = [] then uuid_Nil
                else case uuid_Parse idStr of Some eventID \<Rightarrow> eventID | None \<Rightarrow> uuid_Nil),
          sq_IdempotencyKey = str ''idempotency_key'',
          sq_Metadata = (let md = str ''metadata'' in if md = [] then None else Some md),
          sq_ReceiveCount =
            (case mg_Attributes sqsMsg ''ApproximateReceiveCount'' of
               None \<Rightarrow> 0
             | Some rcStr \<Rightarrow> (case Atoi rcStr of None \<Rightarrow> 0 | Some rc \<Rightarrow> rc))\<rparr>)"

section \<open>Handlers (handler.go, registry.go)\<close>

type_synonym 'h Handler = "SQSMessage \<Rightarrow> 'h \<Rightarrow> goerr option \<times> 'h"

datatype UnknownEventTypeBehavior = UnknownEventTypeError | UnknownEventTypeIgnore

record 'h EventTypeRouter =
  handlers :: "string \<rightharpoonup> 'h Handler"
  fallback :: "'h Handler option"
  unknownEventTypeBehavior :: UnknownEventTypeBehavior

definition ErrUnknownEventType :: goerr where
  "ErrUnknownEventType = ErrorString ''unknown event_type''"

definition NewEventTypeRouter :: "'h EventTypeRouter" where
  "NewEventTypeRouter =
     \<lparr>handlers = Map.empty, fallback = None, unknownEventTypeBehavior = UnknownEventTypeError\<rparr>"

definition Router_Register :: "string \<Rightarrow> 'h Handler \<Rightarrow> 'h EventTypeRouter \<Rightarrow> 'h EventTypeRouter" where
  "Router_Register eventType handler r = r\<lparr>handlers := (handlers r)(eventType \<mapsto> handler)\<rparr>"

definition RegisterFunc :: "string \<Rightarrow> 'h Handler \<Rightarrow> 'h EventTypeRouter \<Rightarrow> 'h EventTypeRouter" where
  "RegisterFunc eventType fn r = r\<lparr>handlers := (handlers r)(eventType \<mapsto> fn)\<rparr>"

definition SetFallback :: "'h Handler \<Rightarrow> 'h EventTypeRouter \<Rightarrow> 'h EventTypeRouter" where
  "SetFallback handler r = r\<lparr>fallback := Some handler\<rparr>"

definition SetUnknownEventTypeBehavior ::
  "UnknownEventTypeBehavior \<Rightarrow> 'h EventTypeRouter \<Rightarrow> 'h EventTypeRouter" where
  "SetUnknownEventTypeBehavior behavior r = r\<lparr>unknownEventTypeBehavior := behavior\<rparr>"

text \<open>The order of Go's map iteration is unspecified, so the answer is a set.\<close>

definition EventTypes :: "'h EventTypeRouter \<Rightarrow> string set" where
  "EventTypes r = dom (handlers r)"

definition Router_Handle :: "'h EventTypeRouter \<Rightarrow> 'h Handler" where
  "Router_Handle r msg h =
     (case handlers r (sq_EventType msg) of
        Some handler \<Rightarrow> handler msg h
      | None \<Rightarrow>
          (case fallback r of
             Some handler \<Rightarrow> handler msg h
           | None \<Rightarrow>
               (case unknownEventTypeBehavior r of
                  UnknownEventTypeIgnore \<Rightarrow> (None, h)
                | UnknownEventTypeError \<Rightarrow> (Some (WrapError [] ErrUnknownEventType ('': '' @ sq_EventType msg)), h))))"

definition TypedHandler_Handle ::
  "(string \<Rightarrow> goerr + 'p) \<Rightarrow> (SQSMessage \<Rightarrow> 'p \<Rightarrow> 'h \<Rightarrow> goerr option \<times> 'h) \<Rightarrow> 'h Handler" where
  "TypedHandler_Handle unmarshal fn msg h =
     (case unmarshal (sq_Body msg) of
        Inl err \<Rightarrow> (Some (NewPermanentError (Some (WrapError ''failed to unmarshal message body: '' err []))), h)
      | Inr payload \<Rightarrow> fn msg payload h)"

type_synonym 'h EventTypeRouterRegistry = "string \<rightharpoonup> 'h EventTypeRouter"

definition NewEventTypeRouterRegistry :: "'h EventTypeRouterRegistry" where
  "NewEventTypeRouterRegistry = Map.empty"

definition RegisterGroup ::
  "string \<Rightarrow> ('h EventTypeRouter \<Rightarrow> 'h EventTypeRouter) \<Rightarrow> 'h EventTypeRouterRegistry \<Rightarrow> 'h EventTypeRouterRegistry" where
  "RegisterGroup grp setup r = r(grp \<mapsto> setup NewEventTypeRouter)"

definition GetRouter :: "string \<Rightarrow> 'h EventTypeRouterRegistry \<Rightarrow> 'h EventTypeRouter option" where
  "GetRouter grp r = r grp"

definition ValidGroups :: "'h EventTypeRouterRegistry \<Rightarrow> string set" where
  "ValidGroups r = dom r"

section \<open>Hooks (hooks.go)\<close>

record consumer_Hooks =
  OnConsumeStart :: "(SQSMessage \<Rightarrow> hook_outcome) option"
  OnConsumeSuccess :: "(SQSMessage \<Rightarrow> duration \<Rightarrow> hook_outcome) option"
  OnConsumeFailure :: "(SQSMessage \<Rightarrow> goerr \<Rightarrow> duration \<Rightarrow> bool \<Rightarrow> hook_outcome) option"
  c_OnMessageDead :: "(SQSMessage \<Rightarrow> goerr \<Rightarrow> hook_outcome) option"
  OnDeleteFailure :: "(SQSMessage \<Rightarrow> goerr \<Rightarrow> hook_outcome) option"

datatype consumer_event =
    RanConsumeStart SQSMessage
  | RanConsumeSuccess SQSMessage duration
  | RanConsumeFailure SQSMessage goerr duration bool
  | RanDead SQSMessage goerr
  | RanDeleteFailure SQSMessage goerr
  | HookPanic string string "string list"

definition shielded :: "string \<Rightarrow> string list \<Rightarrow> consumer_event \<Rightarrow> hook_outcome \<Rightarrow> consumer_event list" where
  "shielded hook attrs ev res =
     (case res of Returned \<Rightarrow> [ev] | Panicked r \<Rightarrow> [ev, HookPanic hook r attrs])"

definition callOnConsumeStart :: "consumer_Hooks option \<Rightarrow> SQSMessage \<Rightarrow> consumer_event list" where
  "callOnConsumeStart h msg =
     (case Option.bind h OnConsumeStart of
        None \<Rightarrow> []
      | Some f \<Rightarrow> shielded ''OnConsumeStart'' [sq_MessageID msg, sq_EventType msg] (RanConsumeStart msg) (f msg))"

definition callOnConsumeSuccess :: "consumer_Hooks option \<Rightarrow> SQSMessage \<Rightarrow> duration \<Rightarrow> consumer_event list" where
  "callOnConsumeSuccess h msg d =
     (case Option.bind h OnConsumeSuccess of
        None \<Rightarrow> []
      | Some f \<Rightarrow> shielded ''OnConsumeSuccess'' [sq_MessageID msg, sq_EventType msg]
          (RanConsumeSuccess msg d) (f msg d))"

definition callOnConsumeFailure ::
  "consumer_Hooks option \<Rightarrow> SQSMessage \<Rightarrow> goerr \<Rightarrow> duration \<Rightarrow> bool \<Rightarrow> consumer_event list" where
  "callOnConsumeFailure h msg err d retryable =
     (case Option.bind h OnConsumeFailure of
        None \<Rightarrow> []
      | Some f \<Rightarrow> shielded ''OnConsumeFailure'' [sq_MessageID msg, sq_EventType msg]
          (RanConsumeFailure msg err d retryable) (f msg err d retryable))"

definition consumer_callOnMessageDead :: "consumer_Hooks option \<Rightarrow> SQSMessage \<Rightarrow> goerr \<Rightarrow> consumer_event list" where
  "consumer_callOnMessageDead h msg err =
     (case Option.bind h c_OnMessageDead of
        None \<Rightarrow> []
      | Some f \<Rightarrow> shielded ''OnMessageDead'' [sq_MessageID msg, sq_EventType msg] (RanDead msg err) (f msg err))"

definition callOnDeleteFailure :: "consumer_Hooks option \<Rightarrow> SQSMessage \<Rightarrow> goerr \<Rightarrow> consumer_event list" where
  "callOnDeleteFailure h msg err =
     (case Option.bind h OnDeleteFailure of
        None \<Rightarrow> []
      | Some f \<Rightarrow> shielded ''OnDeleteFailure'' [sq_MessageID msg] (RanDeleteFailure msg err) (f msg err))"

section \<open>The service (service.go)\<close>

record ServiceConfig =
  c_QueueURL :: string
  MaxNumberOfMessages :: int
  WaitTimeSeconds :: int
  VisibilityTimeout :: int
  c_MaxAttempts :: int
  c_WorkerCount :: int
  MessageConcurrency :: int
  c_ShutdownTimeout :: duration
  c_ForceTimeout :: duration
  c_OnForceShutdown :: "force_action option"
  c_Hooks :: "consumer_Hooks option"

definition DefaultServiceConfig :: "string \<Rightarrow> ServiceConfig" where
  "DefaultServiceConfig queueURL =
     \<lparr>c_QueueURL = queueURL, MaxNumberOfMessages = 10, WaitTimeSeconds = 20, VisibilityTimeout = 30,
      c_MaxAttempts = 5, c_WorkerCount = 1, MessageConcurrency = 1, c_ShutdownTimeout = 30 * second,
      c_ForceTimeout = 60 * second, c_OnForceShutdown = Some OsExit, c_Hooks = None\<rparr>"

definition isFIFO :: "string \<Rightarrow> bool" where
  "isFIFO queueURL \<longleftrightarrow> length queueURL \<ge> 5 \<and> drop (length queueURL - 5) queueURL = ''.fifo''"

definition NewService :: "ServiceConfig \<Rightarrow> ServiceConfig" where
  "NewService c =
     (let shutdown = or_default (c_ShutdownTimeout c) (30 * second)
      in c\<lparr>MaxNumberOfMessages := or_default (MaxNumberOfMessages c) 10,
           WaitTimeSeconds := or_default (WaitTimeSeconds c) 20,
           VisibilityTimeout := or_default (VisibilityTimeout c) 30,
           c_MaxAttempts := or_default (c_MaxAttempts c) 5,
           c_WorkerCount := or_default (c_WorkerCount c) 1,
           c_ShutdownTimeout := shutdown,
           c_ForceTimeout := or_default (c_ForceTimeout c) (wrap64 (shutdown * 2)),
           c_OnForceShutdown := (case c_OnForceShutdown c of None \<Rightarrow> Some OsExit | Some f \<Rightarrow> Some f),
           MessageConcurrency := or_default (MessageConcurrency c) 1\<rparr>)"

definition fifo_error :: "ServiceConfig \<Rightarrow> goerr" where
  "fifo_error c = ErrorString (''MessageConcurrency>1 is not compatible with FIFO queues (queue: '' @ c_QueueURL c @
     ''): parallel processing breaks message ordering guarantees'')"

definition Service_Start :: "ServiceConfig \<Rightarrow> nat \<Rightarrow> lifecycle \<Rightarrow> (goerr + goroutine list) \<times> lifecycle" where
  "Service_Start c g s =
     (if MessageConcurrency c > 1 \<and> isFIFO (c_QueueURL c) then (Inl (fifo_error c), s)
      else if running s then (Inr [], s)
      else
        let loops = map WorkerLoop [0..<nat (c_WorkerCount c)]
        in (Inr loops, s\<lparr>running := True, cancelFunc := Some g, wg := wg s @ loops\<rparr>))"

text \<open>The waits of \<open>Stop\<close> are those of \<open>core.GracefulShutdown\<close>, written out again.\<close>

definition Service_Stop ::
  "ServiceConfig \<Rightarrow> bool \<Rightarrow> bool \<Rightarrow> duration option \<Rightarrow> lifecycle \<Rightarrow> shutdown_result option \<times> lifecycle" where
  "Service_Stop c tie1 tie2 drained s =
     (if \<not> running s then (None, s)
      else
        let s1 = s\<lparr>pendingShutdown := True, running := False,
                   cancelled := cancelled s \<union> set_option (cancelFunc s)\<rparr>;
            res = (if first_ready tie1 drained (c_ShutdownTimeout c) then StoppedGracefully
                   else
                     let remainingTime = wrap64 (c_ForceTimeout c - c_ShutdownTimeout c)
                     in if first_ready tie2 drained (c_ShutdownTimeout c + max 0 remainingTime)
                        then StoppedAfterExtendedWait
                        else Forced (c_OnForceShutdown c))
        in (Some res, s1\<lparr>wg := (case res of Forced _ \<Rightarrow> wg s1 | _ \<Rightarrow> [])\<rparr>))"

section \<open>Processing a message\<close>

record 'w consumer_client =
  ReceiveMessage :: "ServiceConfig \<Rightarrow> 'w \<Rightarrow> (goerr + Message list) \<times> 'w"
  DeleteMessage :: "string \<Rightarrow> string \<Rightarrow> 'w \<Rightarrow> goerr option \<times> 'w"

record ('w, 'h) consumer_world =
  queue :: 'w
  app :: 'h
  c_trace :: "consumer_event list"
  c_lastProcessedAt :: "time option"

definition Service_HealthStatus :: "ServiceConfig \<Rightarrow> lifecycle \<Rightarrow> ('w, 'h) consumer_world \<Rightarrow> HealthStatus" where
  "Service_HealthStatus c s w =
     \<lparr>Running = running s, h_LastProcessedAt = c_lastProcessedAt w, h_WorkerCount = c_WorkerCount c,
      PendingShutdown = pendingShutdown s\<rparr>"

record ('w, 'h) Service =
  sqsClient :: "'w consumer_client"
  handler :: "'h Handler"
  c_config :: ServiceConfig
  parse_uuid :: "string \<Rightarrow> uuid option"

definition emit :: "consumer_event list \<Rightarrow> ('w, 'h) consumer_world \<Rightarrow> ('w, 'h) consumer_world" where
  "emit evs s = s\<lparr>c_trace := c_trace s @ evs\<rparr>"

definition handleFailure ::
  "('w, 'h) Service \<Rightarrow> duration \<Rightarrow> SQSMessage \<Rightarrow> goerr \<Rightarrow> ('w, 'h) consumer_world \<Rightarrow> ('w, 'h) consumer_world" where
  "handleFailure sv dur msg handleErr s =
     (let c = c_config sv
      in if sq_ReceiveCount msg \<ge> c_MaxAttempts c then
           (let s = emit (consumer_callOnMessageDead (c_Hooks c) msg handleErr) s
            in s\<lparr>queue := snd (DeleteMessage (sqsClient sv) (c_QueueURL c) (sq_ReceiptHandle msg) (queue s))\<rparr>)
         else emit (callOnConsumeFailure (c_Hooks c) msg handleErr dur True) s)"

definition processMessage ::
  "('w, 'h) Service \<Rightarrow> duration \<Rightarrow> time \<Rightarrow> Message \<Rightarrow> ('w, 'h) consumer_world \<Rightarrow> ('w, 'h) consumer_world" where
  "processMessage sv dur now sqsMsg s =
     (let c = c_config sv;
          msg = parseSQSMessage (parse_uuid sv) sqsMsg;
          s = emit (callOnConsumeStart (c_Hooks c) msg) s
      in case handler sv msg (app s) of
           (Some handleErr, h) \<Rightarrow> handleFailure sv dur msg handleErr (s\<lparr>app := h\<rparr>)
         | (None, h) \<Rightarrow>
             let s = s\<lparr>app := h\<rparr>
             in case DeleteMessage (sqsClient sv) (c_QueueURL c) (sq_ReceiptHandle msg) (queue s) of
                  (deleteErr, q) \<Rightarrow>
                    let s = s\<lparr>queue := q\<rparr>;
                        s = (case deleteErr of None \<Rightarrow> s | Some e \<Rightarrow> emit (callOnDeleteFailure (c_Hooks c) msg e) s)
                    in (emit (callOnConsumeSuccess (c_Hooks c) msg dur) s)\<lparr>c_lastProcessedAt := Some now\<rparr>)"

section \<open>Polling\<close>

text \<open>
  One poll: whether the context is found cancelled at each of its checks (\<open>stop 0\<close> before the call,
  \<open>stop (Suc i)\<close> before the message \<open>i\<close>), the measured times, and the order the runtime lets the
  goroutines of a concurrent poll finish in.  A concurrent poll starts a goroutine for each
  message until the context is cancelled and waits for all of them; a message is one step.
\<close>

record poll =
  stop :: "nat \<Rightarrow> bool"
  p_elapsed :: duration
  p_now :: time
  finishing :: "Message list \<Rightarrow> Message list"

fun started :: "(nat \<Rightarrow> bool) \<Rightarrow> nat \<Rightarrow> Message list \<Rightarrow> Message list" where
  "started halt i [] = []"
| "started halt i (m # ms) = (if halt i then [] else m # started halt (Suc i) ms)"

definition pollAndProcess ::
  "('w, 'h) Service \<Rightarrow> poll \<Rightarrow> ('w, 'h) consumer_world \<Rightarrow> ('w, 'h) consumer_world" where
  "pollAndProcess sv p s =
     (if stop p 0 then s
      else
        (case ReceiveMessage (sqsClient sv) (c_config sv) (queue s) of
           (Inl err, q) \<Rightarrow> s\<lparr>queue := q\<rparr>
         | (Inr msgs, q) \<Rightarrow>
             let s = s\<lparr>queue := q\<rparr>; run = started (stop p) 1 msgs
             in if MessageConcurrency (c_config sv) \<le> 1
                then fold (processMessage sv (p_elapsed p) (p_now p)) run s
                else fold (processMessage sv (p_elapsed p) (p_now p)) (finishing p run) s))"

text \<open>A worker polls until it finds the context cancelled: the schedule lists its polls until then.\<close>

fun runWorker ::
  "('w, 'h) Service \<Rightarrow> poll list \<Rightarrow> ('w, 'h) consumer_world \<Rightarrow> ('w, 'h) consumer_world" where
  "runWorker sv [] s = s"
| "runWorker sv (p # ps) s = runWorker sv ps (pollAndProcess sv p s)"


section \<open>What becomes of a message\<close>

text \<open>How SQS hands a sent message over: its content, a fresh id and receipt, and the count of receives.\<close>

definition deliver :: "string \<Rightarrow> string \<Rightarrow> nat \<Rightarrow> SendMessageInput \<Rightarrow> Message" where
  "deliver messageId receipt n inp =
     \<lparr>mg_MessageId = Some messageId, mg_ReceiptHandle = Some receipt, mg_Body = Some (in_MessageBody inp),
      mg_Attributes = [''ApproximateReceiveCount'' \<mapsto> itoa n],
      mg_MessageAttributes = map_of (map (\<lambda>(k, t, v). (k, Some v)) (in_MessageAttributes inp))\<rparr>"

lemma processMessage_effect:
  "app (processMessage sv dur now m s) = snd (handler sv (parseSQSMessage (parse_uuid sv) m) (app s))"
  "queue (processMessage sv dur now m s) =
     (if fst (handler sv (parseSQSMessage (parse_uuid sv) m) (app s)) = None \<or>
        c_MaxAttempts (c_config sv) \<le> sq_ReceiveCount (parseSQSMessage (parse_uuid sv) m)
      then snd (DeleteMessage (sqsClient sv) (c_QueueURL (c_config sv))
        (sq_ReceiptHandle (parseSQSMessage (parse_uuid sv) m)) (queue s))
      else queue s)"
  "c_lastProcessedAt (processMessage sv dur now m s) =
     (if fst (handler sv (parseSQSMessage (parse_uuid sv) m) (app s)) = None then Some now else c_lastProcessedAt s)"
  by (auto simp: processMessage_def handleFailure_def emit_def Let_def split: prod.splits option.splits)

text \<open>What is started is a prefix: it ends where the context is first found cancelled.\<close>

lemma started_take:
  "\<exists>k \<le> length ms. started halt i ms = take k ms \<and> (\<forall>j < k. \<not> halt (i + j)) \<and> (k < length ms \<longrightarrow> halt (i + k))"
proof (induction ms arbitrary: i)
  case (Cons m ms)
  show ?case
  proof (cases "halt i")
    case False
    from Cons[of "Suc i"] obtain k where k: "k \<le> length ms" "started halt (Suc i) ms = take k ms"
      "\<forall>j < k. \<not> halt (Suc i + j)" "k < length ms \<longrightarrow> halt (Suc i + k)" by blast
    have "\<not> halt (i + j)" if "j < Suc k" for j using that k(3) False by (cases j) auto
    with k False show ?thesis by (intro exI[of _ "Suc k"]) auto
  qed auto
qed simp

lemma started_subset: "set (started halt i ms) \<subseteq> set ms"
  using started_take[of ms halt i] by (auto dest: in_set_takeD)

lemma digits_value_snoc: "digits_value (ds @ [c]) = 10 * digits_value ds + (int (of_char c) - 48)"
  by (simp add: digits_value_def)

lemma itoa_digits: "itoa n \<noteq> [] \<and> list_all is_digit (itoa n) \<and> digits_value (itoa n) = int n"
proof (induction n rule: itoa.induct)
  case (1 n)
  have of: "of_char (char_of (48 + k)) = (48 + k)" if "k < 10" for k :: nat
    using that by (simp add: of_char_of take_bit_nat_eq_self)
  then have d: "is_digit (char_of (48 + k))" if "k < 10" for k :: nat
    using that by (simp add: is_digit_def)
  show ?case
  proof (cases "n < 10")
    case True
    with of d show ?thesis by (simp add: itoa.simps[of n] digits_value_def)
  next
    case False
    have "10 * int (n div 10) + int (n mod 10) = int n" by presburger
    with False 1 of[of "n mod 10"] d[of "n mod 10"] show ?thesis by (simp add: itoa.simps[of n] digits_value_snoc)
  qed
qed

lemma Atoi_itoa: "n < 2 ^ 63 \<Longrightarrow> Atoi (itoa n) = Some (int n)"
proof -
  assume n: "n < 2 ^ 63"
  obtain c cs where c: "itoa n = c # cs" "is_digit c" using itoa_digits[of n] by (cases "itoa n") auto
  then have "c \<noteq> CHR ''-''" "c \<noteq> CHR ''+''" by (auto simp: is_digit_def)
  moreover have "int n < 2 ^ 63" using n by (simp flip: of_nat_power_less_of_nat_cancel_iff add: of_nat_less_iff[of n "2 ^ 63", symmetric] del: of_nat_less_iff)
  ultimately show ?thesis
    using itoa_digits[of n] c by (simp add: Atoi_def in_int64_def)
qed


text \<open>
  C30: what a handler receives is what was inserted: parsing a delivered message gives back the
  payload, event type, idempotency key and metadata of the outbox row, the row's id as the
  event id (the same on every redelivery, whatever the SQS message id), and the exact receive
  count.
\<close>

theorem publish_parse_roundtrip:
  assumes "uuid_Parse (ID m) = Some u" "ID m \<noteq> []" "n < 2 ^ 63"
  shows "parseSQSMessage uuid_Parse (deliver mid rcpt n (buildSendMessageInput q m)) =
    \<lparr>sq_MessageID = mid, sq_ReceiptHandle = rcpt, sq_Body = bytes_text (Payload m), sq_EventType = EventType m,
     sq_EventID = u, sq_IdempotencyKey = IdempotencyKey m,
     sq_Metadata = (if blen (Metadata m) > 0 then Metadata m else None), sq_ReceiveCount = int n\<rparr>"
proof -
  have a: "in_MessageAttributes (buildSendMessageInput q m) = buildMessageAttributes m"
    "in_MessageBody (buildSendMessageInput q m) = bytes_text (Payload m)"
    by (simp_all add: buildSendMessageInput_def Let_def)
  show ?thesis using assms
    by (cases "Metadata m")
      (auto simp: parseSQSMessage_def deliver_def a buildMessageAttributes_def ToString_def bytes_text_def
        Atoi_itoa Let_def)
qed

theorem publish_parse_roundtrip_witness:
  "parseSQSMessage (\<lambda>s. if s = ''u2'' then Some (replicate 16 (CHR 0x01)) else None)
     (deliver ''m-1'' ''r-1'' 3 (buildSendMessageInput ''https://q'' sample_new)) =
   \<lparr>sq_MessageID = ''m-1'', sq_ReceiptHandle = ''r-1'', sq_Body = ''{}'', sq_EventType = ''order.created'',
    sq_EventID = replicate 16 (CHR 0x01), sq_IdempotencyKey = ''k2'', sq_Metadata = None, sq_ReceiveCount = 3\<rparr>"
proof -
  let ?parse = "\<lambda>s. if s = ''u2'' then Some (replicate 16 (CHR 0x01)) else None"
  have f: "ID sample_new = ''u2''" "Payload sample_new = Some ''{}''" "EventType sample_new = ''order.created''"
    "IdempotencyKey sample_new = ''k2''" "Metadata sample_new = None"
    by (simp_all add: sample_new_def)
  have "?parse (ID sample_new) = Some (replicate 16 (CHR 0x01))" "ID sample_new \<noteq> []" by (simp_all add: f(1))
  from publish_parse_roundtrip[where uuid_Parse = ?parse and m = sample_new and n = 3 and q = "''https://q''"
      and mid = "''m-1''" and rcpt = "''r-1''", OF this] show ?thesis
    unfolding f by (simp add: bytes_text_def)
qed

text \<open>
  What becomes of a message is decided by the handler's result and the receive count alone:
  it is deleted after a success, or after a failure once it was received \<open>MaxAttempts\<close>
  times; in every other case the queue is not touched and SQS redelivers it.  The
  application state is the one the handler left, and hooks, panicking or not, change nothing.
\<close>

theorem processMessage_outcome:
  "let msg = parseSQSMessage (parse_uuid sv) m; s' = processMessage sv dur now m s; (err, h) = handler sv msg (app s);
       del = snd (DeleteMessage (sqsClient sv) (c_QueueURL (c_config sv)) (sq_ReceiptHandle msg) (queue s))
   in app s' = h \<and>
      queue s' = (if err = None \<or> c_MaxAttempts (c_config sv) \<le> sq_ReceiveCount msg then del else queue s) \<and>
      c_lastProcessedAt s' = (if err = None then Some now else c_lastProcessedAt s)"
  using processMessage_effect[of sv dur now m s] by (auto simp: Let_def split: prod.splits)

end
