(* ===== verification/Consumer_Correct.thy ===== *)
theory Consumer_Correct
  imports Consumer
begin

text \<open>
  Correctness of the consumer service against the contract of an SQS queue.  The locale
  \<open>sqs_queue\<close> states what the service relies on: a message stays in the queue until it is
  deleted by a receipt, and every copy handed out carries its event, content included, and a receive count that
  does not exceed the receives so far.  \<open>settling_handler\<close> is the contract of a handler whose
  success leaves a lasting effect; \<open>counting_queue\<close> adds that a copy handed out counts the earlier
  receives and its own.  \<open>memory_queue\<close> is a queue in memory that meets the contracts.
\<close>

section \<open>The contract of a queue\<close>

text \<open>The event of a message: its type, its id and its content.\<close>

type_synonym msg_event = "string \<times> uuid \<times> string"

definition event_of :: "SQSMessage \<Rightarrow> msg_event" where
  "event_of msg = (sq_EventType msg, sq_EventID msg, sq_Body msg)"

definition genuine ::
  "(string \<Rightarrow> uuid option) \<Rightarrow> (string \<Rightarrow> string) \<Rightarrow> (string \<Rightarrow> msg_event) \<Rightarrow> (string \<Rightarrow> nat) \<Rightarrow> Message \<Rightarrow> bool" where
  "genuine parse msg_of event cnt m \<longleftrightarrow>
     (let r = parseSQSMessage parse m; i = msg_of (sq_ReceiptHandle r)
      in event_of r = event i \<and> sq_ReceiveCount r \<le> int (cnt i))"

locale sqs_queue =
  fixes C :: "'w consumer_client"
    and parse :: "string \<Rightarrow> uuid option"
    and waiting :: "'w \<Rightarrow> string set"
    and receives :: "'w \<Rightarrow> string \<Rightarrow> nat"
    and msg_of :: "string \<Rightarrow> string"
    and event :: "string \<Rightarrow> msg_event"
  assumes receive_waiting: "waiting (snd (ReceiveMessage C cfg w)) = waiting w"
    and receive_count: "receives w i \<le> receives (snd (ReceiveMessage C cfg w)) i"
    and receive_genuine: "ReceiveMessage C cfg w = (Inr ms, w') \<Longrightarrow> m \<in> set ms \<Longrightarrow>
      genuine parse msg_of event (receives w') m"
    and delete_count: "receives (snd (DeleteMessage C url rcpt w)) = receives w"
    and delete_ok: "DeleteMessage C url rcpt w = (None, w') \<Longrightarrow> waiting w' = waiting w - {msg_of rcpt}"
    and delete_err: "DeleteMessage C url rcpt w = (Some e, w') \<Longrightarrow>
      waiting w' = waiting w \<or> waiting w' = waiting w - {msg_of rcpt}"
begin

lemma delete_only:
  "waiting (snd (DeleteMessage C url rcpt w)) = waiting w \<or>
   waiting (snd (DeleteMessage C url rcpt w)) = waiting w - {msg_of rcpt}"
proof (cases "DeleteMessage C url rcpt w")
  case (Pair r w')
  then show ?thesis using delete_ok[of url rcpt w w'] delete_err[of url rcpt w _ w'] by (cases r) auto
qed

end

text \<open>
  A handler whose success on a legitimate event leaves an effect, which nothing it does later
  undoes; \<open>sound\<close> is what it keeps of its data.
\<close>

locale settling_handler =
  fixes H :: "'h Handler"
    and sound :: "'h \<Rightarrow> bool"
    and settled :: "'h \<Rightarrow> msg_event \<Rightarrow> bool"
    and legit :: "msg_event \<Rightarrow> bool"
  assumes success_settles: "sound h \<Longrightarrow> legit (event_of msg) \<Longrightarrow> H msg h = (None, h') \<Longrightarrow> settled h' (event_of msg)"
    and settled_stays: "sound h \<Longrightarrow> legit (event_of msg) \<Longrightarrow> settled h e \<Longrightarrow> settled (snd (H msg h)) e"
    and sound_kept: "sound h \<Longrightarrow> legit (event_of msg) \<Longrightarrow> sound (snd (H msg h))"

locale consuming = sqs_queue C parse waiting receives msg_of event + settling_handler H sound settled legit
  for C :: "'w consumer_client" and parse waiting receives msg_of event
    and H :: "'h Handler" and sound settled legit +
  fixes cfg :: ServiceConfig
begin

abbreviation service :: "('w, 'h) Service" where
  "service \<equiv> \<lparr>sqsClient = C, handler = H, c_config = cfg, parse_uuid = parse\<rparr>"

text \<open>A message is accounted for: still waiting, or its event settled, or its attempts used up.\<close>

definition accounted :: "string \<Rightarrow> ('w, 'h) consumer_world \<Rightarrow> bool" where
  "accounted i s \<longleftrightarrow> sound (app s) \<and>
     (i \<in> waiting (queue s) \<or> settled (app s) (event i) \<or> c_MaxAttempts cfg \<le> int (receives (queue s) i))"

lemma processMessage_accounted:
  assumes i: "accounted i s" and g: "genuine parse msg_of event (receives (queue s)) m" and ok: "\<And>j. legit (event j)"
  shows "accounted i (processMessage service d t m s) \<and>
    receives (queue (processMessage service d t m s)) = receives (queue s)"
proof -
  let ?r = "parseSQSMessage parse m" and ?s' = "processMessage service d t m s"
  let ?del = "snd (DeleteMessage C (c_QueueURL cfg) (sq_ReceiptHandle ?r) (queue s))"
  obtain err h where h: "H ?r (app s) = (err, h)" by fastforce
  note eff = processMessage_effect[of service d t m s] 
  have app: "app ?s' = h" and q: "queue ?s' = (if err = None \<or> c_MaxAttempts cfg \<le> sq_ReceiveCount ?r then ?del else queue s)"
    using eff h by simp_all
  have cnt: "receives (queue ?s') = receives (queue s)" by (simp add: q delete_count)
  from i have sound: "sound (app s)" by (simp add: accounted_def)
  have legit: "legit (event_of ?r)" using g ok by (simp add: genuine_def Let_def)
  have st: "sound h" "settled (app s) e \<Longrightarrow> settled h e" for e
    using sound_kept[OF sound legit] settled_stays[OF sound legit, of e] h by simp_all
  show ?thesis
  proof (cases "i \<in> waiting (queue s) \<and> i \<notin> waiting (queue ?s')")
    case True
    then have rm: "err = None \<or> c_MaxAttempts cfg \<le> sq_ReceiveCount ?r" and "i = msg_of (sq_ReceiptHandle ?r)"
      using delete_only[of "c_QueueURL cfg" "sq_ReceiptHandle ?r" "queue s"] by (auto simp: q split: if_splits)
    with g have "event_of ?r = event i" "sq_ReceiveCount ?r \<le> int (receives (queue s) i)"
      by (auto simp: genuine_def Let_def)
    with rm success_settles[OF sound legit, of h] h cnt st(1) show ?thesis by (auto simp: accounted_def app)
  next
    case False
    with i st(1) st(2)[of "event i"] cnt show ?thesis by (auto simp: accounted_def app)
  qed
qed

lemma fold_accounted:
  assumes "accounted i s" "\<forall>m \<in> set ms. genuine parse msg_of event (receives (queue s)) m" "\<And>j. legit (event j)"
  shows "accounted i (fold (processMessage service d t) ms s)"
  using assms by (induction ms arbitrary: s) (simp_all add: processMessage_accounted)

lemma pollAndProcess_accounted:
  assumes i: "accounted i s" and fin: "\<And>ms. set (finishing p ms) = set ms" and ok: "\<And>j. legit (event j)"
  shows "accounted i (pollAndProcess service p s)"
proof (cases "ReceiveMessage C cfg (queue s)")
  case (Pair r q)
  have q: "accounted i (s\<lparr>queue := q\<rparr>)"
    using i receive_waiting[of cfg "queue s"] receive_count[of "queue s" i cfg] Pair
    by (auto simp: accounted_def)
  have "accounted i (fold (processMessage service d t) run (s\<lparr>queue := q\<rparr>))"
    if "r = Inr ms" "set run \<subseteq> set ms" for ms run d t
    using that receive_genuine[of cfg "queue s" ms q] Pair ok by (intro fold_accounted[OF q]) auto
  with i q Pair fin started_subset[of "stop p" 1] show ?thesis
    by (auto simp: pollAndProcess_def Let_def split: sum.splits)
qed

lemma runWorker_accounted:
  assumes "accounted i s" "\<And>p ms. p \<in> set ps \<Longrightarrow> set (finishing p ms) = set ms" "\<And>j. legit (event j)"
  shows "accounted i (runWorker service ps s)"
  using assms by (induction ps arbitrary: s) (simp_all add: pollAndProcess_accounted)

end

section \<open>Poison messages\<close>

text \<open>Whether a poll hands the message \<open>i\<close> to the handler, and how often a run of polls does.\<close>

definition handed_over :: "('w, 'h) Service \<Rightarrow> (string \<Rightarrow> string) \<Rightarrow> string \<Rightarrow> poll \<Rightarrow> ('w, 'h) consumer_world \<Rightarrow> bool" where
  "handed_over sv msg_of i p s \<longleftrightarrow> \<not> stop p 0 \<and>
     (case ReceiveMessage (sqsClient sv) (c_config sv) (queue s) of
        (Inl _, _) \<Rightarrow> False
      | (Inr ms, _) \<Rightarrow>
          (\<exists>m \<in> set (started (stop p) 1 ms). msg_of (sq_ReceiptHandle (parseSQSMessage (parse_uuid sv) m)) = i))"

fun handovers ::
  "('w, 'h) Service \<Rightarrow> (string \<Rightarrow> string) \<Rightarrow> string \<Rightarrow> poll list \<Rightarrow> ('w, 'h) consumer_world \<Rightarrow> nat" where
  "handovers sv msg_of i [] s = 0"
| "handovers sv msg_of i (p # ps) s =
     (if handed_over sv msg_of i p s then 1 else 0) + handovers sv msg_of i ps (pollAndProcess sv p s)"

locale counting_queue = sqs_queue C parse waiting receives msg_of event
  for C :: "'w consumer_client" and parse waiting receives msg_of event +
  assumes counts: "ReceiveMessage C cfg w = (Inr ms, w') \<Longrightarrow> m \<in> set ms \<Longrightarrow>
      i = msg_of (sq_ReceiptHandle (parseSQSMessage parse m)) \<Longrightarrow> int (receives w' i) < 2 ^ 63 \<Longrightarrow>
      int (receives w i) < sq_ReceiveCount (parseSQSMessage parse m)"
begin

abbreviation serve :: "'h Handler \<Rightarrow> ServiceConfig \<Rightarrow> ('w, 'h) Service" where
  "serve H cfg \<equiv> \<lparr>sqsClient = C, handler = H, c_config = cfg, parse_uuid = parse\<rparr>"

lemma processMessage_queue:
  "receives (queue (processMessage (serve H cfg) d t m s)) = receives (queue s) \<and>
   waiting (queue (processMessage (serve H cfg) d t m s)) \<subseteq> waiting (queue s)"
  using delete_only[of "c_QueueURL cfg" "sq_ReceiptHandle (parseSQSMessage parse m)" "queue s"]
  by (auto simp: processMessage_effect delete_count)

lemma fold_queue:
  "receives (queue (fold (processMessage (serve H cfg) d t) ms s)) = receives (queue s) \<and>
   waiting (queue (fold (processMessage (serve H cfg) d t) ms s)) \<subseteq> waiting (queue s)"
proof (induction ms arbitrary: s)
  case (Cons m ms)
  from Cons[of "processMessage (serve H cfg) d t m s"] processMessage_queue[of H cfg d t m s]
  show ?case by auto
qed simp

text \<open>A message handed over at its last attempt is deleted, if the deletion succeeds.\<close>

lemma fold_removes:
  assumes m: "m \<in> set ms" "c_MaxAttempts cfg \<le> sq_ReceiveCount (parseSQSMessage parse m)"
    and del: "\<And>w. fst (DeleteMessage C (c_QueueURL cfg) (sq_ReceiptHandle (parseSQSMessage parse m)) w) = None"
  shows "msg_of (sq_ReceiptHandle (parseSQSMessage parse m)) \<notin>
    waiting (queue (fold (processMessage (serve H cfg) d t) ms s))"
proof -
  from m(1) obtain xs ys where ms: "ms = xs @ m # ys" by (auto dest: split_list)
  let ?s = "fold (processMessage (serve H cfg) d t) xs s" and ?r = "sq_ReceiptHandle (parseSQSMessage parse m)"
  have "waiting (snd (DeleteMessage C (c_QueueURL cfg) ?r w)) = waiting w - {msg_of ?r}" for w
    using delete_ok[of "c_QueueURL cfg" ?r w] del[of w] by (cases "DeleteMessage C (c_QueueURL cfg) ?r w") auto
  then have "msg_of ?r \<notin> waiting (queue (processMessage (serve H cfg) d t m ?s))"
    using m(2) by (simp add: processMessage_effect)
  then show ?thesis using fold_queue[of H cfg d t ys "processMessage (serve H cfg) d t m ?s"] by (auto simp: ms)
qed

lemma poll_queue:
  "receives (queue s) i \<le> receives (queue (pollAndProcess (serve H cfg) p s)) i"
  "waiting (queue (pollAndProcess (serve H cfg) p s)) \<subseteq> waiting (queue s)"
proof -
  obtain r q where rq: "ReceiveMessage C cfg (queue s) = (r, q)" by fastforce
  then have "waiting q = waiting (queue s)" "receives (queue s) i \<le> receives q i"
    using receive_waiting[of cfg "queue s"] receive_count[of "queue s" i cfg] by simp_all
  then show "receives (queue s) i \<le> receives (queue (pollAndProcess (serve H cfg) p s)) i"
    "waiting (queue (pollAndProcess (serve H cfg) p s)) \<subseteq> waiting (queue s)"
    using fold_queue[of H cfg "p_elapsed p" "p_now p" _ "s\<lparr>queue := q\<rparr>"] rq
    by (auto simp: pollAndProcess_def Let_def split: sum.splits)
qed

lemma runWorker_queue:
  "receives (queue s) i \<le> receives (queue (runWorker (serve H cfg) ps s)) i"
  "waiting (queue (runWorker (serve H cfg) ps s)) \<subseteq> waiting (queue s)"
proof (induction ps arbitrary: s)
  case (Cons p ps)
  { case 1 show ?case using Cons(1)[of "pollAndProcess (serve H cfg) p s"] poll_queue(1)[of s i H cfg p] by simp }
  { case 2 show ?case using Cons(2)[of "pollAndProcess (serve H cfg) p s"] poll_queue(2)[of H cfg p s] by auto }
qed simp_all

text \<open>A message that is still waiting after it was handed over had an attempt left, and has one less.\<close>

lemma handed_over_counts:
  assumes p: "handed_over (serve H cfg) msg_of i p s" and fin: "\<And>ms. set (finishing p ms) = set ms"
    and s': "s' = pollAndProcess (serve H cfg) p s" and i: "i \<in> waiting (queue s')"
    and small: "int (receives (queue s') i) < 2 ^ 63"
    and del: "\<And>rcpt w. msg_of rcpt = i \<Longrightarrow> fst (DeleteMessage C (c_QueueURL cfg) rcpt w) = None"
  shows "receives (queue s) i < receives (queue s') i \<and> int (receives (queue s) i) + 1 < c_MaxAttempts cfg"
proof -
  from p obtain ms q m where rq: "ReceiveMessage C cfg (queue s) = (Inr ms, q)" and go: "\<not> stop p 0"
    and m: "m \<in> set (started (stop p) 1 ms)" "msg_of (sq_ReceiptHandle (parseSQSMessage parse m)) = i"
    by (auto simp: handed_over_def split: prod.splits sum.splits)
  let ?c = "sq_ReceiveCount (parseSQSMessage parse m)"
  define run where "run = (if MessageConcurrency cfg \<le> 1 then started (stop p) 1 ms else finishing p (started (stop p) 1 ms))"
  have run: "set run = set (started (stop p) 1 ms)" using fin by (simp add: run_def)
  have s'_eq: "s' = fold (processMessage (serve H cfg) (p_elapsed p) (p_now p)) run (s\<lparr>queue := q\<rparr>)"
    using rq go s' by (simp add: pollAndProcess_def run_def Let_def)
  have cnt: "receives (queue s') i = receives q i"
    using s'_eq fold_queue[of H cfg _ _ run "s\<lparr>queue := q\<rparr>"] by simp
  have ms: "m \<in> set ms" using m(1) started_subset[of "stop p" 1 ms] by auto
  have "int (receives (queue s) i) < ?c" using counts[OF rq ms m(2)[symmetric]] small cnt by simp
  moreover have "?c \<le> int (receives q i)"
    using receive_genuine[OF rq ms] m(2) by (simp add: genuine_def Let_def)
  moreover have "\<not> c_MaxAttempts cfg \<le> ?c"
    using fold_removes[of m run cfg H] del m i s'_eq run by auto
  ultimately show ?thesis using cnt by simp
qed

lemma handovers_bound:
  assumes "\<And>p ms. p \<in> set ps \<Longrightarrow> set (finishing p ms) = set ms"
    and "i \<in> waiting (queue (runWorker (serve H cfg) ps s))"
    and "int (receives (queue (runWorker (serve H cfg) ps s)) i) < 2 ^ 63"
    and del: "\<And>rcpt w. msg_of rcpt = i \<Longrightarrow> fst (DeleteMessage C (c_QueueURL cfg) rcpt w) = None"
    and "handovers (serve H cfg) msg_of i ps s \<noteq> 0"
  shows "int (receives (queue s) i + handovers (serve H cfg) msg_of i ps s) < c_MaxAttempts cfg"
  using assms(1-3,5)
proof (induction ps arbitrary: s)
  case (Cons p ps)
  let ?s = "pollAndProcess (serve H cfg) p s" and ?n = "\<lambda>s. handovers (serve H cfg) msg_of i ps s"
  have w: "i \<in> waiting (queue ?s)" and small: "int (receives (queue ?s) i) < 2 ^ 63"
    using Cons.prems(2,3) runWorker_queue[where s = ?s and H = H and cfg = cfg and ps = ps] 
    by (auto, meson int_ops(6) le_less_trans of_nat_le_iff)
  have ih: "int (receives (queue ?s) i + ?n ?s) < c_MaxAttempts cfg" if "?n ?s \<noteq> 0"
    by (rule Cons.IH) (use Cons.prems that in auto)
  show ?case
  proof (cases "handed_over (serve H cfg) msg_of i p s")
    case True
    from handed_over_counts[OF True _ refl w small del] Cons.prems(1)
    have "receives (queue s) i < receives (queue ?s) i" "int (receives (queue s) i) + 1 < c_MaxAttempts cfg" by auto
    with ih True show ?thesis by (cases "?n ?s = 0") auto
  next
    case False
    with Cons.prems(4) ih poll_queue(1)[of s i H cfg p] show ?thesis by auto
  qed
qed simp

end

section \<open>A queue in memory\<close>

text \<open>
  Messages are known by id, with a fixed content; the receipt is the id.  A poll hands out every
  waiting message.  \<open>flaky n\<close> says that the deletion number \<open>n\<close> fails.
\<close>

record memory_queue =
  mq_waiting :: "string list"
  mq_receives :: "string \<Rightarrow> nat"
  mq_deletions :: nat

definition memory_client :: "(nat \<Rightarrow> bool) \<Rightarrow> (string \<Rightarrow> SendMessageInput) \<Rightarrow> memory_queue consumer_client" where
  "memory_client flaky content =
     \<lparr>ReceiveMessage = (\<lambda>cfg w.
        let n = (\<lambda>i. if i \<in> set (mq_waiting w) then Suc (mq_receives w i) else mq_receives w i)
        in (Inr (map (\<lambda>i. deliver i i (n i) (content i)) (mq_waiting w)), w\<lparr>mq_receives := n\<rparr>)),
      DeleteMessage = (\<lambda>url rcpt w.
        let w' = w\<lparr>mq_deletions := Suc (mq_deletions w)\<rparr>
        in if flaky (mq_deletions w) then (Some (ErrorString ''delete failed''), w')
           else (None, w'\<lparr>mq_waiting := removeAll rcpt (mq_waiting w)\<rparr>))\<rparr>"

definition memory_event :: "(string \<Rightarrow> uuid option) \<Rightarrow> (string \<Rightarrow> SendMessageInput) \<Rightarrow> string \<Rightarrow> msg_event" where
  "memory_event parse content i = event_of (parseSQSMessage parse (deliver i i 0 (content i)))"

lemma parse_deliver:
  "sq_ReceiptHandle (parseSQSMessage parse (deliver i r n inp)) = r"
  "event_of (parseSQSMessage parse (deliver i r n (content i))) = memory_event parse content i"
  "sq_ReceiveCount (parseSQSMessage parse (deliver i r n inp)) = (case Atoi (itoa n) of None \<Rightarrow> 0 | Some rc \<Rightarrow> rc)"
  by (simp_all add: memory_event_def event_of_def parseSQSMessage_def deliver_def ToString_def Let_def)

lemma Atoi_itoa_le: "(case Atoi (itoa n) of None \<Rightarrow> 0 | Some rc \<Rightarrow> rc) \<le> int n"
proof -
  obtain c cs where c: "itoa n = c # cs" "is_digit c" using itoa_digits[of n] by (cases "itoa n") auto
  then have "c \<noteq> CHR ''-''" "c \<noteq> CHR ''+''" by (auto simp: is_digit_def)
  then show ?thesis using itoa_digits[of n] c by (simp add: Atoi_def Let_def)
qed

lemma Atoi_itoa_Suc_le: "(case Atoi (itoa (Suc n)) of None \<Rightarrow> 0 | Some rc \<Rightarrow> rc) \<le> 1 + int n"
  using Atoi_itoa_le[of "Suc n"] by simp

interpretation memory: sqs_queue "memory_client flaky content" parse "\<lambda>w. set (mq_waiting w)" mq_receives "\<lambda>r. r"
  "memory_event parse content" for flaky content parse
  by unfold_locales
    (auto simp: memory_client_def genuine_def parse_deliver Atoi_itoa_Suc_le Let_def split: if_splits)

interpretation memory_counting: counting_queue "memory_client flaky content" parse "\<lambda>w. set (mq_waiting w)" mq_receives
  "\<lambda>r. r" "memory_event parse content" for flaky content parse
proof unfold_locales
  fix w w' :: memory_queue and cfg ms m i
  assume "ReceiveMessage (memory_client flaky content) cfg w = (Inr ms, w')" "m \<in> set ms"
    "i = sq_ReceiptHandle (parseSQSMessage parse m)" "int (mq_receives w' i) < 2 ^ 63"
  then show "int (mq_receives w i) < sq_ReceiveCount (parseSQSMessage parse m)"
    using Atoi_itoa[of "Suc (mq_receives w i)"] by (auto simp: memory_client_def Let_def parse_deliver)
qed

section \<open>Properties\<close>

abbreviation sample_service :: "string \<Rightarrow> 'h Handler \<Rightarrow> int \<Rightarrow> (memory_queue, 'h) Service" where
  "sample_service url H n \<equiv>
     \<lparr>sqsClient = memory_client (\<lambda>_. False) (\<lambda>_. buildSendMessageInput url sample_new), handler = H,
      c_config = (DefaultServiceConfig url)\<lparr>c_MaxAttempts := n\<rparr>, parse_uuid = (\<lambda>_. None)\<rparr>"

abbreviation sample_poll :: "(nat \<Rightarrow> bool) \<Rightarrow> poll" where
  "sample_poll halt \<equiv> \<lparr>stop = halt, p_elapsed = 0, p_now = 0, finishing = rev\<rparr>"

abbreviation sample_world :: "string list \<Rightarrow> (string \<Rightarrow> nat) \<Rightarrow> 'h \<Rightarrow> (memory_queue, 'h) consumer_world" where
  "sample_world ids n h \<equiv>
     \<lparr>queue = \<lparr>mq_waiting = ids, mq_receives = n, mq_deletions = 0\<rparr>, app = h, c_trace = [], c_lastProcessedAt = None\<rparr>"

text \<open>
  C11: a consumer loses no message: through any number of polls, sequential or concurrent, with
  failing receives, failing deletions and shutdowns in between, every message that waited in the
  queue is still there, or the handler succeeded on its event, or it was received
  \<open>MaxAttempts\<close> times, for every handler that keeps its contract on the legitimate events of
  the queue (all of them, if \<open>legit\<close> is always true).
\<close>

theorem consumer_accounts:
  assumes "consuming C parse waiting receives msg_of event H sound settled legit" and "\<And>j. legit (event j)"
    and "\<And>p ms. p \<in> set ps \<Longrightarrow> set (finishing p ms) = set ms"
    and "sound (app s)" "i \<in> waiting (queue s)"
    and "s' = runWorker \<lparr>sqsClient = C, handler = H, c_config = cfg, parse_uuid = parse\<rparr> ps s"
  shows "sound (app s') \<and> (i \<in> waiting (queue s') \<or> settled (app s') (event i) \<or> c_MaxAttempts cfg \<le> int (receives (queue s') i))"
  using consuming.runWorker_accounted[OF assms(1), where i = i and s = s and ps = ps and cfg = cfg] assms(2-6)
  by (simp add: consuming.accounted_def[OF assms(1)])



text \<open>
  C28: a service that starts on a FIFO queue (its URL ends in \<open>.fifo\<close>) processes the messages of a poll one
  by one in the order they were received, and all of them up to the first one before which a
  shutdown is noticed.
\<close>

theorem fifo_in_order:
  assumes "Service_Start (c_config sv) g l = (Inr loops, l')" "c_QueueURL (c_config sv) = name @ ''.fifo''"
    and "\<not> stop p 0" "ReceiveMessage (sqsClient sv) (c_config sv) (queue s) = (Inr ms, q)"
  shows "\<exists>k \<le> length ms.
    pollAndProcess sv p s = fold (processMessage sv (p_elapsed p) (p_now p)) (take k ms) (s\<lparr>queue := q\<rparr>) \<and>
    (\<forall>j < k. \<not> stop p (Suc j)) \<and> (k < length ms \<longrightarrow> stop p (Suc k))"
proof -
  have "isFIFO (c_QueueURL (c_config sv))" by (simp add: assms(2) isFIFO_def)
  then have "MessageConcurrency (c_config sv) \<le> 1" using assms(1) by (auto simp: Service_Start_def split: if_splits)
  with assms(3,4) started_take[of ms "stop p" 1] show ?thesis by (fastforce simp: pollAndProcess_def Let_def)
qed

text \<open>Two messages and a shutdown before the second: only the first is handled.\<close>

theorem fifo_in_order_witness:
  "app (pollAndProcess (sample_service ''https://q.fifo'' (\<lambda>msg h. (None, h @ [sq_MessageID msg])) 5)
     (sample_poll (\<lambda>n. n = 2)) (sample_world [''m1'', ''m2''] (\<lambda>_. 0) [])) = [''m1'']"
proof -
  let ?sv = "sample_service ''https://q.fifo'' (\<lambda>msg h. (None, h @ [sq_MessageID msg])) 5"
  let ?s = "sample_world [''m1'', ''m2''] (\<lambda>_. 0) []"
  let ?ms = "map (\<lambda>i. deliver i i 1 (buildSendMessageInput ''https://q.fifo'' sample_new)) [''m1'', ''m2'']"
  have fifo: "c_QueueURL (c_config ?sv) = ''https://q'' @ ''.fifo''" by (simp add: DefaultServiceConfig_def)
  obtain loops l' where st: "Service_Start (c_config ?sv) 0 new_lifecycle = (Inr loops, l')"
    by (simp add: Service_Start_def DefaultServiceConfig_def new_lifecycle_def Let_def)
  have rc: "ReceiveMessage (sqsClient ?sv) (c_config ?sv) (queue ?s) =
      (Inr ?ms, queue (sample_world [''m1'', ''m2''] (\<lambda>i. if i \<in> {''m1'', ''m2''} then 1 else 0) []))"
    by (simp add: memory_client_def Let_def fun_eq_iff)
  from fifo_in_order[OF st fifo _ rc, of "sample_poll (\<lambda>n. n = 2)"]
  have "app (pollAndProcess ?sv (sample_poll (\<lambda>n. n = 2)) ?s) = app (processMessage ?sv 0 0 (hd ?ms)
      (sample_world [''m1'', ''m2''] (\<lambda>i. if i \<in> {''m1'', ''m2''} then 1 else 0) []))"
    by auto
  then show ?thesis by (simp add: processMessage_effect parseSQSMessage_def deliver_def ToString_def Let_def)
qed

end
