(* ===== verification/App_Handlers.thy ===== *)
theory App_Handlers
  imports App_Stock Consumer_Correct
begin

text \<open>
  The consumers of the example application: the handlers of
  \<open>src/examples/app/internal/consumer\<close>, their registration in \<open>src/examples/app/cmd/consumer/main.go\<close>, and
  what the transactional inbox gives them: a confirmation and a credit at most once per event, and for a
  message whose handling succeeded the effect its event stands for.  \<open>json.Unmarshal\<close> is a parameter (\<open>codec\<close>); the simulated sleeps have
  no effect and are left out.  A handler call is one step: two handlers of the same event do not overlap,
  which the visibility timeout of the queue is there for.
\<close>

section \<open>Events\<close>

record OrderCreatedEvent =
  ce_OrderID :: uuid
  ce_UserID :: uuid
  ce_ProductID :: string
  ce_Quantity :: int
  ce_TotalPrice :: int

record OrderConfirmedEvent =
  fe_OrderID :: uuid
  fe_UserID :: uuid
  fe_ProductID :: string
  fe_Quantity :: int

record UserRegisteredEvent =
  re_UserID :: uuid
  re_Email :: string
  re_Name :: string

record UserUpdatedEvent =
  pe_UserID :: uuid
  pe_Name :: string
  pe_Status :: string

record NotificationSendEvent =
  ne_NotificationID :: uuid
  ne_Type :: string
  ne_Recipient :: string
  ne_Subject :: string
  ne_Body :: string

record codec =
  un_order_created :: "string \<Rightarrow> goerr + OrderCreatedEvent"
  un_order_confirmed :: "string \<Rightarrow> goerr + OrderConfirmedEvent"
  un_user_registered :: "string \<Rightarrow> goerr + UserRegisteredEvent"
  un_user_updated :: "string \<Rightarrow> goerr + UserUpdatedEvent"
  un_notification :: "string \<Rightarrow> goerr + NotificationSendEvent"

text \<open>A call of a handler: what the outside answers, and whether a failure is simulated.\<close>

record consume_ctx = app_ctx +
  a_simulated :: bool

definition unmarshal_error :: "goerr \<Rightarrow> goerr" where
  "unmarshal_error err = WrapError ''failed to unmarshal event: '' err []"

definition to_error :: "(goerr + unit) \<times> 'd \<Rightarrow> goerr option \<times> 'd" where
  "to_error res = (case res of (Inl e, d) \<Rightarrow> (Some e, d) | (Inr _, d) \<Rightarrow> (None, d))"

section \<open>Handlers with a transaction (order_handler.go, user_handler.go)\<close>

text \<open>Begin, check the inbox, insert the business row, complete, commit.\<close>

definition insert_confirmation ::
  "pg_ctx \<Rightarrow> order_confirmation \<Rightarrow> order_confirmation list \<Rightarrow> (goerr + nat) \<times> order_confirmation list" where
  "insert_confirmation c r rs =
     run_statement (outcome c)
       (text_args [oc_product_id r] (int4_args [oc_quantity r] (varchar [(255, oc_product_id r)]
         (sql_insert (\<lambda>x y. oc_event_id x = oc_event_id y) r)))) rs"

definition order_confirmed_body ::
  "consume_ctx \<Rightarrow> SQSMessage \<Rightarrow> OrderConfirmedEvent \<Rightarrow> app_db \<Rightarrow> (unit, app_db) tx_end" where
  "order_confirmed_body a msg event ad =
     (case pgx_IsProcessed (a_stmt a 0) ''order'' (sq_EventID msg) (t_inbox ad) of
        Inl err \<Rightarrow> Abort (WrapError ''failed to check inbox: '' err [])
      | Inr processed \<Rightarrow>
          if processed then Leave ()
          else
            (case insert_confirmation (a_stmt a 1)
               \<lparr>oc_event_id = sq_EventID msg, oc_order_id = fe_OrderID event, oc_user_id = fe_UserID event,
                oc_product_id = fe_ProductID event, oc_quantity = fe_Quantity event\<rparr> (t_order_confirmations ad) of
               (Inl err, _) \<Rightarrow> Abort (WrapError ''failed to insert order confirmation: '' err [])
             | (Inr _, cs) \<Rightarrow>
                 (case pgx_Complete (a_stmt a 2) ''order'' (sq_EventID msg) (t_inbox ad) of
                    (Some err, _) \<Rightarrow> Abort (WrapError ''failed to mark as completed: '' err [])
                  | (None, ib) \<Rightarrow> Commit () (ad\<lparr>t_order_confirmations := cs, t_inbox := ib\<rparr>))))"

definition OrderConfirmedHandler ::
  "codec \<Rightarrow> consume_ctx \<Rightarrow> SQSMessage \<Rightarrow> app_db \<Rightarrow> goerr option \<times> app_db" where
  "OrderConfirmedHandler un a msg ad =
     (case un_order_confirmed un (sq_Body msg) of
        Inl err \<Rightarrow> (Some (unmarshal_error err), ad)
      | Inr event \<Rightarrow> to_error (transaction (a_begin a) (a_commit a) (order_confirmed_body a msg event) ad))"

definition user_registered_body ::
  "consume_ctx \<Rightarrow> SQSMessage \<Rightarrow> UserRegisteredEvent \<Rightarrow> app_db \<Rightarrow> (unit, app_db) tx_end" where
  "user_registered_body a msg event ad =
     (case pgx_IsProcessed (a_stmt a 0) ''user'' (sq_EventID msg) (t_inbox ad) of
        Inl err \<Rightarrow> Abort (WrapError ''failed to check inbox: '' err [])
      | Inr processed \<Rightarrow>
          if processed then Leave ()
          else
            (case run_statement (outcome (a_stmt a 1))
               (sql_insert (\<lambda>x y. wc_event_id x = wc_event_id y)
                 \<lparr>wc_event_id = sq_EventID msg, wc_user_id = re_UserID event, wc_credit_amount = 1000\<rparr>)
               (t_user_welcome_credits ad) of
               (Inl err, _) \<Rightarrow> Abort (WrapError ''failed to insert welcome credit: '' err [])
             | (Inr _, cs) \<Rightarrow>
                 (case pgx_Complete (a_stmt a 2) ''user'' (sq_EventID msg) (t_inbox ad) of
                    (Some err, _) \<Rightarrow> Abort (WrapError ''failed to mark as completed: '' err [])
                  | (None, ib) \<Rightarrow> Commit () (ad\<lparr>t_user_welcome_credits := cs, t_inbox := ib\<rparr>))))"

definition UserRegisteredHandler ::
  "codec \<Rightarrow> consume_ctx \<Rightarrow> SQSMessage \<Rightarrow> app_db \<Rightarrow> goerr option \<times> app_db" where
  "UserRegisteredHandler un a msg ad =
     (case un_user_registered un (sq_Body msg) of
        Inl err \<Rightarrow> (Some (unmarshal_error err), ad)
      | Inr event \<Rightarrow> to_error (transaction (a_begin a) (a_commit a) (user_registered_body a msg event) ad))"

section \<open>Handlers without one\<close>

text \<open>\<open>order.created\<close> sends a notification and does not look into the inbox.\<close>

definition OrderCreatedHandler ::
  "codec \<Rightarrow> consume_ctx \<Rightarrow> SQSMessage \<Rightarrow> app_db \<Rightarrow> goerr option \<times> app_db" where
  "OrderCreatedHandler un a msg ad =
     (case un_order_created un (sq_Body msg) of
        Inl err \<Rightarrow> (Some (unmarshal_error err), ad)
      | Inr event \<Rightarrow>
          (case SendNotification (app_ctx.truncate a)
             \<lparr>sn_Type = NotificationTypeEmail,
              sn_Recipient = ''user-'' @ a_uuid_text a (ce_UserID event) @ ''@example.com'',
              sn_Subject = ''Order Confirmation'',
              sn_Body = ''Your order '' @ a_uuid_text a (ce_OrderID event) @ '' has been created successfully.''\<rparr> ad of
             (Inl err, ad') \<Rightarrow> (Some (WrapError ''failed to send notification: '' err []), ad')
           | (Inr _, ad') \<Rightarrow> (None, ad')))"

definition UserUpdatedHandler ::
  "codec \<Rightarrow> consume_ctx \<Rightarrow> SQSMessage \<Rightarrow> app_db \<Rightarrow> goerr option \<times> app_db" where
  "UserUpdatedHandler un a msg ad =
     (case un_user_updated un (sq_Body msg) of
        Inl err \<Rightarrow> (Some (unmarshal_error err), ad)
      | Inr event \<Rightarrow> (None, ad))"

section \<open>Notification handlers (notification_handler.go)\<close>

text \<open>Every statement commits by itself; the external sending is simulated and has no effect.\<close>

definition complete_notification ::
  "consume_ctx \<Rightarrow> SQSMessage \<Rightarrow> app_db \<Rightarrow> goerr option \<times> app_db" where
  "complete_notification a msg ad =
     (case pgx_Complete (a_stmt a 2) ''notification'' (sq_EventID msg) (t_inbox ad) of
        (Some err, ib) \<Rightarrow> (Some (WrapError ''failed to mark as completed: '' err []), ad\<lparr>t_inbox := ib\<rparr>)
      | (None, ib) \<Rightarrow> (None, ad\<lparr>t_inbox := ib\<rparr>))"

definition unless_processed ::
  "consume_ctx \<Rightarrow> SQSMessage \<Rightarrow> (app_db \<Rightarrow> goerr option \<times> app_db) \<Rightarrow> app_db \<Rightarrow> goerr option \<times> app_db" where
  "unless_processed a msg act ad =
     (case pgx_IsProcessed (a_stmt a 0) ''notification'' (sq_EventID msg) (t_inbox ad) of
        Inl err \<Rightarrow> (Some (WrapError ''failed to check inbox: '' err []), ad)
      | Inr processed \<Rightarrow> if processed then (None, ad) else act ad)"

definition NotificationEmailHandler ::
  "codec \<Rightarrow> consume_ctx \<Rightarrow> SQSMessage \<Rightarrow> app_db \<Rightarrow> goerr option \<times> app_db" where
  "NotificationEmailHandler un a msg ad =
     (case un_notification un (sq_Body msg) of
        Inl err \<Rightarrow> (Some (unmarshal_error err), ad)
      | Inr event \<Rightarrow>
          unless_processed a msg
            (\<lambda>ad. if a_simulated a then (Some (ErrorString ''simulated email sending failure''), ad)
               else
                 (case UpdateStatusWithPool (a_uuid_text a) (a_stmt a 1) (ne_NotificationID event)
                    NotificationStatusSent (t_notifications ad) of
                    (Some err, ns) \<Rightarrow>
                      (Some (WrapError ''failed to update notification status: '' err []), ad\<lparr>t_notifications := ns\<rparr>)
                  | (None, ns) \<Rightarrow> complete_notification a msg (ad\<lparr>t_notifications := ns\<rparr>))) ad)"

definition NotificationSMSHandler ::
  "codec \<Rightarrow> consume_ctx \<Rightarrow> SQSMessage \<Rightarrow> app_db \<Rightarrow> goerr option \<times> app_db" where
  "NotificationSMSHandler un a msg ad =
     (case un_notification un (sq_Body msg) of
        Inl err \<Rightarrow> (Some (unmarshal_error err), ad)
      | Inr event \<Rightarrow> unless_processed a msg (complete_notification a msg) ad)"

definition NotificationPushHandler ::
  "codec \<Rightarrow> consume_ctx \<Rightarrow> SQSMessage \<Rightarrow> app_db \<Rightarrow> goerr option \<times> app_db" where
  "NotificationPushHandler un a msg ad =
     (case un_notification un (sq_Body msg) of
        Inl err \<Rightarrow> (Some (unmarshal_error err), ad)
      | Inr event \<Rightarrow> unless_processed a msg (complete_notification a msg) ad)"

section \<open>Registration (cmd/consumer/main.go)\<close>

text \<open>The state the handlers work on: the database, and the answers of the outside to each call in turn.\<close>

record handler_state =
  hs_db :: app_db
  hs_calls :: "nat \<Rightarrow> consume_ctx"
  hs_next :: nat

definition on_db ::
  "(consume_ctx \<Rightarrow> SQSMessage \<Rightarrow> app_db \<Rightarrow> goerr option \<times> app_db) \<Rightarrow> handler_state Handler" where
  "on_db H msg s =
     (case H (hs_calls s (hs_next s)) msg (hs_db s) of
        (err, ad) \<Rightarrow> (err, s\<lparr>hs_db := ad, hs_next := Suc (hs_next s)\<rparr>))"

definition consumer_registry :: "codec \<Rightarrow> handler_state EventTypeRouterRegistry" where
  "consumer_registry un =
     (RegisterGroup ''notification''
        (\<lambda>r. Router_Register ''notification.push'' (on_db (NotificationPushHandler un))
           (Router_Register ''notification.sms'' (on_db (NotificationSMSHandler un))
             (Router_Register ''notification.email'' (on_db (NotificationEmailHandler un)) r)))
     (RegisterGroup ''user''
        (\<lambda>r. Router_Register ''user.updated'' (on_db (UserUpdatedHandler un))
           (Router_Register ''user.registered'' (on_db (UserRegisteredHandler un)) r))
     (RegisterGroup ''order''
        (\<lambda>r. Router_Register ''order.confirmed'' (on_db (OrderConfirmedHandler un))
           (Router_Register ''order.created'' (on_db (OrderCreatedHandler un)) r))
      NewEventTypeRouterRegistry)))"

definition selected_router :: "codec \<Rightarrow> string \<Rightarrow> handler_state EventTypeRouter option" where
  "selected_router un groupName =
     map_option (SetFallback (\<lambda>msg h. (None, h))) (GetRouter groupName (consumer_registry un))"

section \<open>What the inbox gives\<close>

definition confirmed_events :: "app_db \<Rightarrow> uuid list" where
  "confirmed_events ad = map oc_event_id (t_order_confirmations ad)"

definition credited_events :: "app_db \<Rightarrow> uuid list" where
  "credited_events ad = map wc_event_id (t_user_welcome_credits ad)"

text \<open>The business tables have one row per event, and a completed event has its row.\<close>

definition consistent :: "app_db \<Rightarrow> bool" where
  "consistent ad \<longleftrightarrow> distinct (confirmed_events ad) \<and> distinct (credited_events ad) \<and>
     (\<forall>e. (''order'', e) \<in> completed_events (t_inbox ad) \<longrightarrow> e \<in> set (confirmed_events ad)) \<and>
     (\<forall>e. (''user'', e) \<in> completed_events (t_inbox ad) \<longrightarrow> e \<in> set (credited_events ad))"

definition notification_types :: "string set" where
  "notification_types = {''notification.email'', ''notification.sms'', ''notification.push''}"

text \<open>The rows an event stands for.\<close>

definition confirmation_row :: "uuid \<Rightarrow> OrderConfirmedEvent \<Rightarrow> order_confirmation" where
  "confirmation_row e event =
     \<lparr>oc_event_id = e, oc_order_id = fe_OrderID event, oc_user_id = fe_UserID event,
      oc_product_id = fe_ProductID event, oc_quantity = fe_Quantity event\<rparr>"

definition credit_row :: "uuid \<Rightarrow> UserRegisteredEvent \<Rightarrow> welcome_credit" where
  "credit_row e event = \<lparr>wc_event_id = e, wc_user_id = re_UserID event, wc_credit_amount = 1000\<rparr>"

definition confirms_order :: "(uuid \<Rightarrow> string) \<Rightarrow> OrderCreatedEvent \<Rightarrow> Notification \<Rightarrow> bool" where
  "confirms_order ut event n \<longleftrightarrow> n_Type n = ''email'' \<and>
     n_Recipient n = ''user-'' @ ut (ce_UserID event) @ ''@example.com'' \<and> n_Subject n = ''Order Confirmation'' \<and>
     n_Body n = ''Your order '' @ ut (ce_OrderID event) @ '' has been created successfully.''"

text \<open>
  What the event \<open>e\<close> of type \<open>k\<close> with the content \<open>b\<close> leaves behind: a notification to the customer and its
  own event in the outbox, a confirmation, a credit of 1000; a sent e-mail; for SMS and push, which are
  simulated, the completed inbox record.  The handler of \<open>user.updated\<close> only decodes and logs.
\<close>

definition had_effect :: "codec \<Rightarrow> (uuid \<Rightarrow> string) \<Rightarrow> app_db \<Rightarrow> string \<Rightarrow> uuid \<Rightarrow> string \<Rightarrow> bool" where
  "had_effect un ut ad k e b \<longleftrightarrow>
     (k = ''order.created'' \<longrightarrow> (\<exists>event n. un_order_created un b = Inr event \<and> n \<in> set (t_notifications ad) \<and>
        confirms_order ut event n \<and> (''notification.email'', ut (n_ID n)) \<in> outbox_keys (t_outbox ad))) \<and>
     (k = ''order.confirmed'' \<longrightarrow> (\<exists>event. un_order_confirmed un b = Inr event \<and>
        confirmation_row e event \<in> set (t_order_confirmations ad))) \<and>
     (k = ''user.registered'' \<longrightarrow> (\<exists>event. un_user_registered un b = Inr event \<and>
        credit_row e event \<in> set (t_user_welcome_credits ad))) \<and>
     (k = ''user.updated'' \<longrightarrow> (\<exists>event. un_user_updated un b = Inr event)) \<and>
     (k \<in> notification_types \<longrightarrow> (\<exists>event. un_notification un b = Inr event \<and>
        (''notification'', e) \<in> completed_events (t_inbox ad) \<and>
        (k = ''notification.email'' \<longrightarrow> (\<exists>n \<in> set (t_notifications ad).
           n_ID n = ne_NotificationID event \<and> n_Status n = NotificationStatusSent))))"

text \<open>What a later database keeps of an earlier one.\<close>

definition same_notification :: "Notification \<Rightarrow> Notification \<Rightarrow> bool" where
  "same_notification n n' \<longleftrightarrow> n_ID n' = n_ID n \<and> n_Type n' = n_Type n \<and> n_Recipient n' = n_Recipient n \<and>
     n_Subject n' = n_Subject n \<and> n_Body n' = n_Body n \<and>
     (n_Status n = NotificationStatusSent \<longrightarrow> n_Status n' = NotificationStatusSent)"

definition extends :: "app_db \<Rightarrow> app_db \<Rightarrow> bool" where
  "extends ad ad' \<longleftrightarrow> set (t_order_confirmations ad) \<subseteq> set (t_order_confirmations ad') \<and>
     set (t_user_welcome_credits ad) \<subseteq> set (t_user_welcome_credits ad') \<and>
     completed_events (t_inbox ad) \<subseteq> completed_events (t_inbox ad') \<and>
     outbox_keys (t_outbox ad) \<subseteq> outbox_keys (t_outbox ad') \<and>
     (\<forall>n \<in> set (t_notifications ad). \<exists>n' \<in> set (t_notifications ad'). same_notification n n')"

lemma same_notification_refl [simp]: "same_notification n n"
  by (simp add: same_notification_def)

lemma notification_kept [intro]: "n \<in> set ns \<Longrightarrow> \<exists>n' \<in> set ns. same_notification n n'"
  by (rule bexI[of _ n]) simp_all

lemma extends_refl [simp]: "extends ad ad"
  by (auto simp: extends_def)

lemma extends_trans: "extends ad x \<Longrightarrow> extends x y \<Longrightarrow> extends ad y"
  unfolding extends_def same_notification_def by (safe; (blast | metis))

lemma had_effect_mono:
  assumes x: "extends ad ad'" and h: "had_effect un ut ad k e b"
  shows "had_effect un ut ad' k e b"
proof -
  from x have sub: "set (t_order_confirmations ad) \<subseteq> set (t_order_confirmations ad')"
      "set (t_user_welcome_credits ad) \<subseteq> set (t_user_welcome_credits ad')"
      "completed_events (t_inbox ad) \<subseteq> completed_events (t_inbox ad')" "outbox_keys (t_outbox ad) \<subseteq> outbox_keys (t_outbox ad')"
    and kept: "\<And>n. n \<in> set (t_notifications ad) \<Longrightarrow> \<exists>n' \<in> set (t_notifications ad'). same_notification n n'"
    by (simp_all add: extends_def)
  show ?thesis unfolding had_effect_def
  proof (intro conjI impI, goal_cases)
    case 1
    from mp[OF h[unfolded had_effect_def, THEN conjunct1] this] obtain event n where n: "un_order_created un b = Inr event" "n \<in> set (t_notifications ad)" "confirms_order ut event n"
      "(''notification.email'', ut (n_ID n)) \<in> outbox_keys (t_outbox ad)"
      by blast
    from kept[OF n(2)] obtain n' where n': "n' \<in> set (t_notifications ad')" "same_notification n n'" ..
    with n(3) have "confirms_order ut event n'" "n_ID n' = n_ID n" by (simp_all add: confirms_order_def same_notification_def)
    with n(1,4) n'(1) sub(4) show ?case by (intro exI[of _ event] exI[of _ n']) auto
  next
    case 5
    note mp[OF h[unfolded had_effect_def, THEN conjunct2, THEN conjunct2, THEN conjunct2, THEN conjunct2] this]
    then obtain event where ev: "un_notification un b = Inr event" "(''notification'', e) \<in> completed_events (t_inbox ad)"
      "k = ''notification.email'' \<Longrightarrow> \<exists>n \<in> set (t_notifications ad). n_ID n = ne_NotificationID event \<and> n_Status n = NotificationStatusSent"
      by blast
    have "\<exists>n \<in> set (t_notifications ad'). n_ID n = ne_NotificationID event \<and> n_Status n = NotificationStatusSent"
      if "k = ''notification.email''"
    proof -
      from ev(3)[OF that] obtain n where n: "n \<in> set (t_notifications ad)" "n_ID n = ne_NotificationID event"
        "n_Status n = NotificationStatusSent" by blast
      from kept[OF n(1)] obtain n' where "n' \<in> set (t_notifications ad')" "same_notification n n'" ..
      with n show ?thesis by (intro bexI[of _ n']) (simp_all add: same_notification_def)
    qed
    with ev(1,2) sub(3) show ?case by (intro exI[of _ event]) auto
  qed (use h sub(1,2) in \<open>auto simp: had_effect_def\<close>)
qed

text \<open>
  The events by id: \<open>B e\<close> is the type and the content of the event \<open>e\<close>.  A database is faithful to them
  if it is consistent and every completed event has had its effect.
\<close>

definition faithful :: "codec \<Rightarrow> (uuid \<Rightarrow> string) \<Rightarrow> (uuid \<Rightarrow> string \<times> string) \<Rightarrow> app_db \<Rightarrow> bool" where
  "faithful un ut B ad \<longleftrightarrow> consistent ad \<and>
     (\<forall>g e. (g, e) \<in> completed_events (t_inbox ad) \<longrightarrow> had_effect un ut ad (fst (B e)) e (snd (B e)))"

abbreviation notification_ids :: "app_db \<Rightarrow> uuid set" where
  "notification_ids ad \<equiv> n_ID ` set (t_notifications ad)"

text \<open>
  A handler of the event type \<open>k\<close> meets its contract, given a new UUID for every call: it keeps the
  database faithful and what is in it, and its success means that the event has had its effect.
\<close>

definition meets :: "codec \<Rightarrow> (uuid \<Rightarrow> string) \<Rightarrow> (uuid \<Rightarrow> string \<times> string) \<Rightarrow> string \<Rightarrow>
    (consume_ctx \<Rightarrow> SQSMessage \<Rightarrow> app_db \<Rightarrow> goerr option \<times> app_db) \<Rightarrow> bool" where
  "meets un ut B k H \<longleftrightarrow> (\<forall>a msg ad err ad'. faithful un ut B ad \<longrightarrow> a_uuid_text a = ut \<longrightarrow>
     a_uuid a \<notin> notification_ids ad \<longrightarrow> B (sq_EventID msg) = (k, sq_Body msg) \<longrightarrow> H a msg ad = (err, ad') \<longrightarrow>
     faithful un ut B ad' \<and> extends ad ad' \<and> notification_ids ad' \<subseteq> insert (a_uuid a) (notification_ids ad) \<and>
     (err = None \<longrightarrow> had_effect un ut ad' k (sq_EventID msg) (sq_Body msg)))"

text \<open>It is enough to look at the event of the message: the effects of the others stay.\<close>

lemma meetsI:
  assumes "\<And>a msg ad err ad'. faithful un ut B ad \<Longrightarrow> consistent ad \<Longrightarrow> a_uuid_text a = ut \<Longrightarrow>
    a_uuid a \<notin> notification_ids ad \<Longrightarrow> B (sq_EventID msg) = (k, sq_Body msg) \<Longrightarrow> H a msg ad = (err, ad') \<Longrightarrow>
    consistent ad' \<and> extends ad ad' \<and> notification_ids ad' \<subseteq> insert (a_uuid a) (notification_ids ad) \<and>
    completed_events (t_inbox ad') \<subseteq> completed_events (t_inbox ad) \<union> UNIV \<times> {sq_EventID msg} \<and>
    (err = None \<or> completed_events (t_inbox ad') \<noteq> completed_events (t_inbox ad) \<longrightarrow>
       had_effect un ut ad' k (sq_EventID msg) (sq_Body msg))"
  shows "meets un ut B k H"
  unfolding meets_def
proof (intro allI impI)
  fix a msg ad err ad'
  assume f: "faithful un ut B ad" and a: "a_uuid_text a = ut" "a_uuid a \<notin> notification_ids ad"
    and e: "B (sq_EventID msg) = (k, sq_Body msg)" and h: "H a msg ad = (err, ad')"
  from f have "consistent ad" by (simp add: faithful_def)
  note step = assms[OF f this a e h]
  have "had_effect un ut ad' (fst (B x)) x (snd (B x))" if "(g, x) \<in> completed_events (t_inbox ad')" for g x
  proof (cases "(g, x) \<in> completed_events (t_inbox ad)")
    case True
    with f step show ?thesis by (auto simp: faithful_def intro: had_effect_mono)
  next
    case False
    with step that have "x = sq_EventID msg" "completed_events (t_inbox ad') \<noteq> completed_events (t_inbox ad)" by auto
    with step e show ?thesis by auto
  qed
  with step show "faithful un ut B ad' \<and> extends ad ad' \<and> notification_ids ad' \<subseteq> insert (a_uuid a) (notification_ids ad) \<and>
     (err = None \<longrightarrow> had_effect un ut ad' k (sq_EventID msg) (sq_Body msg))"
    by (auto simp: faithful_def)
qed

text \<open>A completed event of this id has had its effect.\<close>

lemma faithful_completed:
  "faithful un ut B ad \<Longrightarrow> (g, e) \<in> completed_events (t_inbox ad) \<Longrightarrow> B e = (k, b) \<Longrightarrow> had_effect un ut ad k e b"
  by (fastforce simp: faithful_def)

subsection \<open>The handlers with a transaction\<close>

text \<open>A handler that runs one transaction: what it may do is what its body does.\<close>

lemma to_error_transaction:
  assumes "to_error (transaction b cm body ad) = (err, ad')"
  obtains (failed) e where "err = Some e" "ad' = ad"
  | (left_early) x where "err = None" "ad' = ad" "body ad = Leave x"
  | (committed) x where "body ad = Commit x ad'"
  using assms by (cases b; cases cm; cases "body ad") (auto simp: transaction_def to_error_def)

lemma Complete_adds:
  "pgx_Complete c n e ib = (None, ib') \<Longrightarrow> completed_events ib' = insert (n, e) (completed_events ib)"
  using pgx_Complete_effect by blast

lemma order_confirmed_commit:
  assumes "order_confirmed_body a msg ev ad = Commit x ad'"
  shows "ad' = ad\<lparr>t_order_confirmations := t_order_confirmations ad @ [confirmation_row (sq_EventID msg) ev], t_inbox := t_inbox ad'\<rparr>"
    "sq_EventID msg \<notin> set (confirmed_events ad)"
    "completed_events (t_inbox ad') = insert (''order'', sq_EventID msg) (completed_events (t_inbox ad))"
  using assms
  by (auto simp: order_confirmed_body_def insert_confirmation_def sql_simps confirmed_events_def confirmation_row_def
      list_ex_iff dest!: Complete_adds split: sum.splits prod.splits option.splits if_splits)

lemma user_registered_commit:
  assumes "user_registered_body a msg ev ad = Commit x ad'"
  shows "ad' = ad\<lparr>t_user_welcome_credits := t_user_welcome_credits ad @ [credit_row (sq_EventID msg) ev], t_inbox := t_inbox ad'\<rparr>"
    "sq_EventID msg \<notin> set (credited_events ad)"
    "completed_events (t_inbox ad') = insert (''user'', sq_EventID msg) (completed_events (t_inbox ad))"
  using assms
  by (auto simp: user_registered_body_def sql_simps credited_events_def credit_row_def
      list_ex_iff dest!: Complete_adds split: sum.splits prod.splits option.splits if_splits)

lemma body_leave:
  "order_confirmed_body a msg ev ad = Leave x \<Longrightarrow> (''order'', sq_EventID msg) \<in> completed_events (t_inbox ad)"
  "user_registered_body a msg ev' ad = Leave x \<Longrightarrow> (''user'', sq_EventID msg) \<in> completed_events (t_inbox ad)"
  by (auto simp: order_confirmed_body_def user_registered_body_def dest!: pgx_IsProcessed_ok
      split: sum.splits prod.splits option.splits if_splits)

text \<open>What each of the two handlers does: nothing, for an error or an event known to the inbox, or its one commit.\<close>

lemma OrderConfirmed_cases:
  assumes "OrderConfirmedHandler un a msg ad = (err, ad')"
  obtains (failed) "err \<noteq> None" "ad' = ad"
  | (known) "ad' = ad" "(''order'', sq_EventID msg) \<in> completed_events (t_inbox ad)"
  | (committed) ev ib where "un_order_confirmed un (sq_Body msg) = Inr ev"
    "ad' = ad\<lparr>t_order_confirmations := t_order_confirmations ad @ [confirmation_row (sq_EventID msg) ev], t_inbox := ib\<rparr>"
    "sq_EventID msg \<notin> set (confirmed_events ad)"
    "completed_events ib = insert (''order'', sq_EventID msg) (completed_events (t_inbox ad))"
proof (cases "un_order_confirmed un (sq_Body msg)")
  case (Inr ev)
  with assms have "to_error (transaction (a_begin a) (a_commit a) (order_confirmed_body a msg ev) ad) = (err, ad')"
    by (simp add: OrderConfirmedHandler_def)
  then show ?thesis
  proof (cases rule: to_error_transaction)
    case (committed x)
    from that(3)[OF Inr order_confirmed_commit[OF this]] show ?thesis .
  qed (use that(1,2) body_leave(1) in auto)
qed (use assms that(1) in \<open>auto simp: OrderConfirmedHandler_def\<close>)

lemma UserRegistered_cases:
  assumes "UserRegisteredHandler un a msg ad = (err, ad')"
  obtains (failed) "err \<noteq> None" "ad' = ad"
  | (known) "ad' = ad" "(''user'', sq_EventID msg) \<in> completed_events (t_inbox ad)"
  | (committed) ev ib where "un_user_registered un (sq_Body msg) = Inr ev"
    "ad' = ad\<lparr>t_user_welcome_credits := t_user_welcome_credits ad @ [credit_row (sq_EventID msg) ev], t_inbox := ib\<rparr>"
    "sq_EventID msg \<notin> set (credited_events ad)"
    "completed_events ib = insert (''user'', sq_EventID msg) (completed_events (t_inbox ad))"
proof (cases "un_user_registered un (sq_Body msg)")
  case (Inr ev)
  with assms have "to_error (transaction (a_begin a) (a_commit a) (user_registered_body a msg ev) ad) = (err, ad')"
    by (simp add: UserRegisteredHandler_def)
  then show ?thesis
  proof (cases rule: to_error_transaction)
    case (committed x)
    from that(3)[OF Inr user_registered_commit[OF this]] show ?thesis .
  qed (use that(1,2) body_leave(2) in auto)
qed (use assms that(1) in \<open>auto simp: UserRegisteredHandler_def\<close>)

lemma OrderConfirmed_consistent:
  "OrderConfirmedHandler un a msg ad = (err, ad') \<Longrightarrow> consistent ad \<Longrightarrow> consistent ad'"
  by (elim OrderConfirmed_cases) (auto simp: consistent_def confirmed_events_def credited_events_def confirmation_row_def)

lemma UserRegistered_consistent:
  "UserRegisteredHandler un a msg ad = (err, ad') \<Longrightarrow> consistent ad \<Longrightarrow> consistent ad'"
  by (elim UserRegistered_cases) (auto simp: consistent_def confirmed_events_def credited_events_def credit_row_def)

lemma OrderConfirmed_meets: "meets un ut B ''order.confirmed'' (OrderConfirmedHandler un)"
proof (rule meetsI, goal_cases)
  case (1 a msg ad err ad')
  have c: "consistent ad'" by (rule OrderConfirmed_consistent[OF 1(6,2)])
  from 1(6) show ?case
  proof (cases rule: OrderConfirmed_cases)
    case known
    with c faithful_completed[OF 1(1) known(2) 1(5)] show ?thesis by auto
  next
    case (committed ev ib)
    with c show ?thesis by (auto simp: extends_def had_effect_def notification_types_def)
  qed (use c in auto)
qed

lemma UserRegistered_meets: "meets un ut B ''user.registered'' (UserRegisteredHandler un)"
proof (rule meetsI, goal_cases)
  case (1 a msg ad err ad')
  have c: "consistent ad'" by (rule UserRegistered_consistent[OF 1(6,2)])
  from 1(6) show ?case
  proof (cases rule: UserRegistered_cases)
    case known
    with c faithful_completed[OF 1(1) known(2) 1(5)] show ?thesis by auto
  next
    case (committed ev ib)
    with c show ?thesis by (auto simp: extends_def had_effect_def notification_types_def)
  qed (use c in auto)
qed

subsection \<open>The handlers without one\<close>

text \<open>The parts of the database that consistency is about.\<close>

lemma consistent_frame:
  assumes "t_order_confirmations ad' = t_order_confirmations ad" "t_user_welcome_credits ad' = t_user_welcome_credits ad"
    "t_inbox ad' = t_inbox ad"
  shows "consistent ad' = consistent ad"
  using assms by (simp add: consistent_def confirmed_events_def credited_events_def)

lemma send_notification_commit:
  assumes "send_notification_body a req ad = Commit n ad'" "a_uuid a \<notin> notification_ids ad"
  obtains ob where "ad' = ad\<lparr>t_notifications := t_notifications ad @ [n], t_outbox := ob\<rparr>"
    "n_ID n = a_uuid a" "n_Type n = sn_Type req" "n_Recipient n = sn_Recipient req" "n_Subject n = sn_Subject req"
    "n_Body n = sn_Body req"
    "outbox_keys ob = insert (''notification.'' @ sn_Type req, a_uuid_text a (a_uuid a)) (outbox_keys (t_outbox ad))"
proof -
  from assms obtain ns ob where ns: "Notification_Create (a_stmt a 0) n (t_notifications ad) = (None, ns)"
    and ob: "insert_event a 1 (''notification.'' @ n_Type n)
      (EvNotificationSend (n_ID n) (n_Type n) (n_Recipient n) (n_Subject n) (n_Body n) (n_CreatedAt n))
      (a_uuid_text a (n_ID n)) 3 (t_outbox ad) = Inr ob"
    and ad': "ad' = ad\<lparr>t_notifications := ns, t_outbox := ob\<rparr>"
    and n: "n_ID n = a_uuid a" "n_Type n = sn_Type req" "n_Recipient n = sn_Recipient req" "n_Subject n = sn_Subject req"
      "n_Body n = sn_Body req"
    by (auto simp: send_notification_body_def Let_def split: prod.splits option.splits sum.splits)
  have "ns = t_notifications ad @ [n]"
    using ns assms(2) n(1) by (auto simp: Notification_Create_def sql_simps sql_insert_or_ignore_def list_ex_iff split: if_splits)
  moreover have "outbox_keys ob = insert (''notification.'' @ sn_Type req, a_uuid_text a (a_uuid a)) (outbox_keys (t_outbox ad))"
    using insert_event_added[OF ob] n by (auto simp: outbox_keys_def)
  ultimately show ?thesis using that n ad' by blast
qed

lemma OrderCreated_meets: "meets un ut B ''order.created'' (OrderCreatedHandler un)"
proof (rule meetsI, goal_cases)
  case (1 a msg ad err ad')
  show ?case
  proof (cases "un_order_created un (sq_Body msg)")
    case (Inr ev)
    define req where "req = \<lparr>sn_Type = NotificationTypeEmail,
      sn_Recipient = ''user-'' @ a_uuid_text a (ce_UserID ev) @ ''@example.com'', sn_Subject = ''Order Confirmation'',
      sn_Body = ''Your order '' @ a_uuid_text a (ce_OrderID ev) @ '' has been created successfully.''\<rparr>"
    from 1(6) Inr obtain r where r: "SendNotification (app_ctx.truncate a) req ad = (r, ad')" "err = None \<longrightarrow> (\<exists>n. r = Inr n)"
      by (auto simp: OrderCreatedHandler_def req_def split: sum.splits prod.splits)
    from r(1)[unfolded SendNotification_def] show ?thesis
    proof (cases rule: transaction_cases)
      case unchanged
      have "send_notification_body (app_ctx.truncate a) req ad \<noteq> Leave x" for x
        by (auto simp: send_notification_body_def Let_def split: prod.splits option.splits sum.splits)
      with unchanged r have "err \<noteq> None"
        by (cases "send_notification_body (app_ctx.truncate a) req ad")
          (auto simp: SendNotification_def transaction_def split: sum.splits)
      with unchanged 1(2) show ?thesis by auto
    next
      case (committed n)
      from committed(1) 1(4) show ?thesis
        by (elim send_notification_commit)
          (use 1(2,3) Inr consistent_frame[of ad' ad] in
            \<open>auto simp: app_ctx.defs extends_def had_effect_def notification_types_def confirms_order_def req_def NotificationTypeEmail_def\<close>)
    qed
  qed (use 1(2,6) in \<open>auto simp: OrderCreatedHandler_def\<close>)
qed

lemma UserUpdated_meets: "meets un ut B ''user.updated'' (UserUpdatedHandler un)"
  by (rule meetsI) (auto simp: UserUpdatedHandler_def had_effect_def notification_types_def split: sum.splits)

subsection \<open>The notification handlers\<close>

lemma complete_notification_effect:
  assumes "complete_notification a msg ad = (err, ad')" "consistent ad"
  shows "consistent ad'" "extends ad ad'" "t_notifications ad' = t_notifications ad"
    "completed_events (t_inbox ad') = insert (''notification'', sq_EventID msg) (completed_events (t_inbox ad)) \<or>
      err \<noteq> None \<and> ad' = ad"
proof -
  obtain r ib where ib: "pgx_Complete (a_stmt a 2) ''notification'' (sq_EventID msg) (t_inbox ad) = (r, ib)" by fastforce
  then have ad': "ad' = ad\<lparr>t_inbox := ib\<rparr>" "err = None \<longleftrightarrow> r = None"
    using assms(1) by (auto simp: complete_notification_def split: option.splits)
  with pgx_Complete_effect[OF ib] assms(2)
  show "consistent ad'" "extends ad ad'" "t_notifications ad' = t_notifications ad"
    "completed_events (t_inbox ad') = insert (''notification'', sq_EventID msg) (completed_events (t_inbox ad)) \<or>
      err \<noteq> None \<and> ad' = ad"
    by (auto simp: consistent_def extends_def confirmed_events_def credited_events_def)
qed

text \<open>A notification handler: skip a completed event, else act and complete.\<close>

lemma notification_meets:
  assumes H: "\<And>a msg ad. H a msg ad = (case un_notification un (sq_Body msg) of
      Inl err \<Rightarrow> (Some (unmarshal_error err), ad) | Inr ev \<Rightarrow> unless_processed a msg (act a msg ev) ad)"
    and act: "\<And>a msg ev ad err ad'. act a msg ev ad = (err, ad') \<Longrightarrow> consistent ad \<Longrightarrow>
      un_notification un (sq_Body msg) = Inr ev \<Longrightarrow>
      consistent ad' \<and> extends ad ad' \<and> notification_ids ad' = notification_ids ad \<and>
      (err \<noteq> None \<and> completed_events (t_inbox ad') = completed_events (t_inbox ad) \<or>
       completed_events (t_inbox ad') = insert (''notification'', sq_EventID msg) (completed_events (t_inbox ad)) \<and>
         had_effect un ut ad' k (sq_EventID msg) (sq_Body msg))"
  shows "meets un ut B k H"
proof (rule meetsI, goal_cases)
  case (1 a msg ad err ad')
  show ?case
  proof (cases "un_notification un (sq_Body msg)")
    case (Inr ev)
    consider (left_out) "ad' = ad" "err \<noteq> None"
      | (known) "ad' = ad" "(''notification'', sq_EventID msg) \<in> completed_events (t_inbox ad)"
      | (acted) "act a msg ev ad = (err, ad')"
      using 1(6) Inr by (auto simp: H unless_processed_def dest: pgx_IsProcessed_ok split: sum.splits if_splits)
    then show ?thesis
    proof cases
      case known
      with 1(2) faithful_completed[OF 1(1) known(2) 1(5)] show ?thesis by auto
    next
      case acted
      from act[OF acted 1(2) Inr] show ?thesis by auto
    qed (use 1(2) in auto)
  qed (use 1(2,6) in \<open>auto simp: H\<close>)
qed

lemma SMS_Push_effect:
  assumes "k = ''notification.sms'' \<or> k = ''notification.push''" "un_notification un (sq_Body msg) = Inr ev"
    "complete_notification a msg ad = (err, ad')" "consistent ad"
  shows "consistent ad' \<and> extends ad ad' \<and> notification_ids ad' = notification_ids ad \<and>
    (err \<noteq> None \<and> completed_events (t_inbox ad') = completed_events (t_inbox ad) \<or>
     completed_events (t_inbox ad') = insert (''notification'', sq_EventID msg) (completed_events (t_inbox ad)) \<and>
       had_effect un ut ad' k (sq_EventID msg) (sq_Body msg))"
  using assms(1,2) complete_notification_effect[OF assms(3,4)] by (auto simp: had_effect_def)

lemma NotificationSMS_meets: "meets un ut B ''notification.sms'' (NotificationSMSHandler un)"
  by (rule notification_meets[OF NotificationSMSHandler_def]) (rule SMS_Push_effect; simp)

lemma NotificationPush_meets: "meets un ut B ''notification.push'' (NotificationPushHandler un)"
  by (rule notification_meets[OF NotificationPushHandler_def]) (rule SMS_Push_effect; simp)

lemma varchar_sent: "varchar [(50, NotificationStatusSent)] f = f"
proof -
  have "characters NotificationStatusSent \<le> 50" by code_simp
  then show ?thesis by (simp add: varchar_def fun_eq_iff)
qed

lemma UpdateStatus_cases:
  assumes "UpdateStatusWithPool ut c i NotificationStatusSent ns = (err, ns')"
  obtains (failed) "err \<noteq> None" "ns' = ns"
  | (updated) t where "ns' = map (\<lambda>r. if n_ID r = i then r\<lparr>n_Status := NotificationStatusSent, n_UpdatedAt := t\<rparr> else r) ns"
      "err = None \<longrightarrow> i \<in> n_ID ` set ns"
  using assms
  by (cases "outcome c")
    (auto simp: UpdateStatusWithPool_def executed_some_def text_args_def varchar_sent sql_update_map filter_empty_conv
      split: if_splits)

lemma sent_effect:
  assumes "UpdateStatusWithPool ut c i NotificationStatusSent (t_notifications ad) = (err, ns)" "consistent ad"
  shows "consistent (ad\<lparr>t_notifications := ns\<rparr>)" "extends ad (ad\<lparr>t_notifications := ns\<rparr>)"
    "n_ID ` set ns = notification_ids ad"
    "err = None \<Longrightarrow> \<exists>n \<in> set ns. n_ID n = i \<and> n_Status n = NotificationStatusSent"
proof -
  show "consistent (ad\<lparr>t_notifications := ns\<rparr>)" using assms(2) consistent_frame[of "ad\<lparr>t_notifications := ns\<rparr>" ad] by simp
  show "extends ad (ad\<lparr>t_notifications := ns\<rparr>)"
    using assms(1)
  proof (cases rule: UpdateStatus_cases)
    case (updated t)
    let ?u = "\<lambda>r. if n_ID r = i then r\<lparr>n_Status := NotificationStatusSent, n_UpdatedAt := t\<rparr> else r"
    have "same_notification n (?u n)" for n by (simp add: same_notification_def)
    then have "\<exists>n' \<in> set (map ?u (t_notifications ad)). same_notification n n'" if "n \<in> set (t_notifications ad)" for n
      using that by (intro bexI[of _ "?u n"]) auto
    then show ?thesis unfolding updated(1) by (simp add: extends_def)
  qed simp
  have "map n_ID ns = map n_ID (t_notifications ad)"
    using assms(1) by (cases rule: UpdateStatus_cases) simp_all
  then show "n_ID ` set ns = notification_ids ad" by (metis set_map)
  show "\<exists>n \<in> set ns. n_ID n = i \<and> n_Status n = NotificationStatusSent" if "err = None"
    using assms(1)
  proof (cases rule: UpdateStatus_cases)
    case (updated t)
    with that obtain n where "n \<in> set (t_notifications ad)" "n_ID n = i" by blast
    with updated(1) show ?thesis
      by (intro bexI[of _ "n\<lparr>n_Status := NotificationStatusSent, n_UpdatedAt := t\<rparr>"]) (auto intro!: image_eqI[of _ _ n])
  qed (simp add: that)
qed

lemma NotificationEmail_meets: "meets un ut B ''notification.email'' (NotificationEmailHandler un)"
proof (rule notification_meets[OF NotificationEmailHandler_def], goal_cases)
  case (1 a msg ev ad err ad')
  obtain r ns where up: "UpdateStatusWithPool (a_uuid_text a) (a_stmt a 1) (ne_NotificationID ev) NotificationStatusSent
    (t_notifications ad) = (r, ns)" by fastforce
  let ?ad = "ad\<lparr>t_notifications := ns\<rparr>"
  note s = sent_effect[OF up 1(2)]
  consider (failed) "err \<noteq> None" "ad' = ad \<or> ad' = ?ad" | (completed) "r = None" "complete_notification a msg ?ad = (err, ad')"
    using 1(1) up by (auto split: if_splits option.splits)
  then show ?case
  proof cases
    case completed
    note d = complete_notification_effect[OF completed(2) s(1)]
    with s(2) have "extends ad ad'" by (blast intro: extends_trans)
    then show ?thesis using d(1,3) s(3) d(4)
    proof (elim disjE, goal_cases)
      case 1
      with s(4)[OF completed(1)] \<open>un_notification un (sq_Body msg) = Inr ev\<close> show ?case by (simp add: had_effect_def)
    qed auto
  qed (use 1(2) s in auto)
qed

section \<open>The routers of the consumer groups\<close>

abbreviation group_legit :: "(uuid \<Rightarrow> string \<times> string) \<Rightarrow> msg_event \<Rightarrow> bool" where
  "group_legit B ev \<equiv> case ev of (k, e, b) \<Rightarrow> B e = (k, b)"

definition settled_by ::
  "codec \<Rightarrow> (uuid \<Rightarrow> string) \<Rightarrow> handler_state EventTypeRouter \<Rightarrow> handler_state \<Rightarrow> msg_event \<Rightarrow> bool" where
  "settled_by un ut r s ev \<longleftrightarrow>
     (case ev of (k, e, b) \<Rightarrow> k \<in> EventTypes r \<longrightarrow> had_effect un ut (hs_db s) k e b)"

definition router_meets ::
  "codec \<Rightarrow> (uuid \<Rightarrow> string) \<Rightarrow> (uuid \<Rightarrow> string \<times> string) \<Rightarrow> handler_state EventTypeRouter \<Rightarrow> bool" where
  "router_meets un ut B r \<longleftrightarrow> fallback r = Some (\<lambda>msg h. (None, h)) \<and>
     (\<forall>k h. handlers r k = Some h \<longrightarrow> (\<exists>H. h = on_db H \<and> meets un ut B k H))"

text \<open>
  The state the handlers of a group work on: a faithful database, and \<open>uuid.New\<close> giving every later call an
  id of its own; \<open>ut\<close> is \<open>UUID.String\<close>.
\<close>

definition ready :: "codec \<Rightarrow> (uuid \<Rightarrow> string) \<Rightarrow> (uuid \<Rightarrow> string \<times> string) \<Rightarrow> handler_state \<Rightarrow> bool" where
  "ready un ut B s \<longleftrightarrow> faithful un ut B (hs_db s) \<and> (\<forall>n. a_uuid_text (hs_calls s n) = ut) \<and>
     inj_on (\<lambda>n. a_uuid (hs_calls s n)) {hs_next s..} \<and>
     (\<forall>n \<ge> hs_next s. a_uuid (hs_calls s n) \<notin> notification_ids (hs_db s))"

lemma on_db_meets: "meets un ut B k H \<Longrightarrow> \<exists>H'. on_db H = on_db H' \<and> meets un ut B k H'"
  by blast

lemmas handlers_meet = OrderConfirmed_meets UserRegistered_meets OrderCreated_meets UserUpdated_meets
  NotificationEmail_meets NotificationSMS_meets NotificationPush_meets

lemma selected_router_meets: "selected_router un g = Some r \<Longrightarrow> router_meets un ut B r"
  by (auto simp: selected_router_def GetRouter_def consumer_registry_def RegisterGroup_def router_meets_def
      NewEventTypeRouterRegistry_def SetFallback_def Router_Register_def NewEventTypeRouter_def
      split: if_splits intro!: on_db_meets handlers_meet)

lemma on_db_ready:
  assumes H: "meets un ut B (sq_EventType msg) H" and s: "ready un ut B s" and h: "on_db H msg s = (err, s')"
    and e: "group_legit B (event_of msg)"
  shows "ready un ut B s' \<and> extends (hs_db s) (hs_db s') \<and>
    (err = None \<longrightarrow> had_effect un ut (hs_db s') (sq_EventType msg) (sq_EventID msg) (sq_Body msg))"
proof -
  let ?a = "hs_calls s (hs_next s)"
  obtain ad where ad: "H ?a msg (hs_db s) = (err, ad)" "s' = s\<lparr>hs_db := ad, hs_next := Suc (hs_next s)\<rparr>"
    using h by (auto simp: on_db_def split: prod.splits)
  from s e have pre: "faithful un ut B (hs_db s)" "a_uuid_text ?a = ut" "a_uuid ?a \<notin> notification_ids (hs_db s)"
    "B (sq_EventID msg) = (sq_EventType msg, sq_Body msg)"
    by (auto simp: ready_def event_of_def)
  with H ad(1) have post: "faithful un ut B ad" "extends (hs_db s) ad"
      "notification_ids ad \<subseteq> insert (a_uuid ?a) (notification_ids (hs_db s))"
      "err = None \<longrightarrow> had_effect un ut ad (sq_EventType msg) (sq_EventID msg) (sq_Body msg)"
    unfolding meets_def by blast+
  have inj: "inj_on (\<lambda>n. a_uuid (hs_calls s n)) {hs_next s..}" using s by (simp add: ready_def)
  have "a_uuid (hs_calls s n) \<notin> notification_ids ad" if "Suc (hs_next s) \<le> n" for n
  proof -
    have "a_uuid (hs_calls s n) \<noteq> a_uuid ?a" using that inj_onD[OF inj, of n "hs_next s"] by fastforce
    moreover have "a_uuid (hs_calls s n) \<notin> notification_ids (hs_db s)" using that s by (simp add: ready_def)
    ultimately show ?thesis using post(3) by blast
  qed
  moreover have "inj_on (\<lambda>n. a_uuid (hs_calls s n)) {Suc (hs_next s)..}"
    by (rule inj_on_subset[OF inj]) auto
  ultimately show ?thesis using s post ad(2) by (simp add: ready_def)
qed

lemma router_settles:
  assumes "router_meets un ut B r"
  shows "settling_handler (Router_Handle r) (ready un ut B) (settled_by un ut r) (group_legit B)"
proof -
  have step: "ready un ut B s' \<and> extends (hs_db s) (hs_db s') \<and> (err = None \<longrightarrow> settled_by un ut r s' (event_of msg))"
    if c: "ready un ut B s" and e: "group_legit B (event_of msg)" and h: "Router_Handle r msg s = (err, s')" for msg s err s'
  proof (cases "handlers r (sq_EventType msg)")
    case None
    with assms h c show ?thesis
      by (auto simp: Router_Handle_def router_meets_def settled_by_def event_of_def EventTypes_def)
  next
    case (Some f)
    with assms obtain H where H: "f = on_db H" "meets un ut B (sq_EventType msg) H" by (auto simp: router_meets_def)
    with h Some have "on_db H msg s = (err, s')" by (simp add: Router_Handle_def)
    from on_db_ready[OF H(2) c this e] show ?thesis by (auto simp: settled_by_def event_of_def)
  qed
  show ?thesis
  proof
    fix h h' :: handler_state and msg
    assume "ready un ut B h" "group_legit B (event_of msg)" "Router_Handle r msg h = (None, h')"
    from step[OF this] show "settled_by un ut r h' (event_of msg)" by simp
  next
    fix h :: handler_state and e msg
    assume "ready un ut B h" "group_legit B (event_of msg)" "settled_by un ut r h e"
    with step[of h msg] show "settled_by un ut r (snd (Router_Handle r msg h)) e"
      by (cases "Router_Handle r msg h") (auto simp: settled_by_def intro: had_effect_mono)
  next
    fix h :: handler_state and msg
    assume "ready un ut B h" "group_legit B (event_of msg)"
    with step[of h msg] show "ready un ut B (snd (Router_Handle r msg h))"
      by (cases "Router_Handle r msg h") auto
  qed
qed

abbreviation order_group :: "codec \<Rightarrow> handler_state EventTypeRouter" where
  "order_group un \<equiv> the (selected_router un ''order'')"

abbreviation user_group :: "codec \<Rightarrow> handler_state EventTypeRouter" where
  "user_group un \<equiv> the (selected_router un ''user'')"

abbreviation notification_group :: "codec \<Rightarrow> handler_state EventTypeRouter" where
  "notification_group un \<equiv> the (selected_router un ''notification'')"

lemma selected_groups:
  "selected_router un ''order'' = Some (order_group un)" "selected_router un ''user'' = Some (user_group un)"
  "selected_router un ''notification'' = Some (notification_group un)"
  by (simp_all add: selected_router_def GetRouter_def consumer_registry_def RegisterGroup_def)

lemmas groups_settle = selected_groups[THEN selected_router_meets, THEN router_settles]

interpretation order_group: settling_handler "Router_Handle (order_group un)" "ready un ut B"
  "settled_by un ut (order_group un)" "group_legit B" for un ut B
  by (rule groups_settle)

interpretation user_group: settling_handler "Router_Handle (user_group un)" "ready un ut B"
  "settled_by un ut (user_group un)" "group_legit B" for un ut B
  by (rule groups_settle)

interpretation notification_group: settling_handler "Router_Handle (notification_group un)" "ready un ut B"
  "settled_by un ut (notification_group un)" "group_legit B" for un ut B
  by (rule groups_settle)

interpretation shop: consuming "memory_client flaky content" parse "\<lambda>w. set (mq_waiting w)" mq_receives "\<lambda>r. r"
  "memory_event parse content" "Router_Handle (order_group un)" "ready un ut B" "settled_by un ut (order_group un)"
  "group_legit B" cfg
  for flaky content parse un ut B cfg
  by (rule consuming.intro[OF memory.sqs_queue_axioms groups_settle(1)])

section \<open>Properties\<close>


text \<open>
  A queue with one \<open>order.confirmed\<close> message whose first deletion fails: it is handed out twice, and the
  second time the inbox knows its event.
\<close>

definition sample_codec :: codec where
  "sample_codec =
     \<lparr>un_order_created = (\<lambda>_. Inl (ErrorString ''json'')),
      un_order_confirmed = (\<lambda>_. Inr \<lparr>fe_OrderID = ''o1'', fe_UserID = ''u'', fe_ProductID = ''p'', fe_Quantity = 3\<rparr>),
      un_user_registered = (\<lambda>_. Inl (ErrorString ''json'')), un_user_updated = (\<lambda>_. Inl (ErrorString ''json'')),
      un_notification = (\<lambda>_. Inl (ErrorString ''json''))\<rparr>"

definition sample_content :: "string \<Rightarrow> SendMessageInput" where
  "sample_content i = buildSendMessageInput ''https://q'' (sample_new\<lparr>EventType := ''order.confirmed''\<rparr>)"

definition sample_parse :: "string \<Rightarrow> uuid option" where
  "sample_parse x = (if x = ''u2'' then Some ''0123456789abcdef'' else None)"

abbreviation sample_consumer :: "(memory_queue, handler_state) Service" where
  "sample_consumer \<equiv>
     \<lparr>sqsClient = memory_client (\<lambda>n. n = 0) sample_content, handler = Router_Handle (order_group sample_codec),
      c_config = DefaultServiceConfig ''https://q'', parse_uuid = sample_parse\<rparr>"

abbreviation sample_call :: "string \<Rightarrow> uuid \<Rightarrow> consume_ctx" where
  "sample_call outbox_id new_id \<equiv> app_ctx.extend (sample_app outbox_id new_id) (consume_ctx.fields False)"

abbreviation sample_start :: "(memory_queue, handler_state) consumer_world" where
  "sample_start \<equiv> sample_world [''m1''] (\<lambda>_. 0)
     \<lparr>hs_db = sample_shop, hs_calls = (\<lambda>n. sample_call ''e1'' (replicate n (CHR ''x''))), hs_next = 0\<rparr>"

abbreviation sample_end :: "(memory_queue, handler_state) consumer_world" where
  "sample_end \<equiv> runWorker sample_consumer (replicate 2 (sample_poll (\<lambda>_. False))) sample_start"

lemma sample_consumed:
  "mq_waiting (queue sample_end) = []" "mq_receives (queue sample_end) ''m1'' = 2"
  "confirmed_events (hs_db (app sample_end)) = [''0123456789abcdef'']"
  by code_simp+

lemma sample_event:
  "memory_event sample_parse sample_content i = (''order.confirmed'', ''0123456789abcdef'', ''{}'')"
proof -
  have "memory_event sample_parse sample_content i = memory_event sample_parse sample_content []"
    by (simp add: memory_event_def event_of_def parseSQSMessage_def deliver_def sample_content_def Let_def)
  also have "\<dots> = (''order.confirmed'', ''0123456789abcdef'', ''{}'')" by code_simp
  finally show ?thesis .
qed

lemma sample_handles: "''order.confirmed'' \<in> EventTypes (order_group un)"
  by (simp add: EventTypes_def selected_router_def GetRouter_def consumer_registry_def RegisterGroup_def
      SetFallback_def Router_Register_def)

lemma sample_shop_consistent: "consistent sample_shop"
  by (simp add: consistent_def confirmed_events_def credited_events_def sample_shop_def completed_events_def)

lemma sample_ready: "ready un (\<lambda>u. u) B (app sample_start)"
  using sample_shop_consistent
  by (auto simp: ready_def faithful_def sample_app_def app_ctx.defs sample_shop_def completed_events_def inj_on_def)

abbreviation sample_events :: "uuid \<Rightarrow> string \<times> string" where
  "sample_events \<equiv> \<lambda>_. (''order.confirmed'', ''{}'')"


theorem consumer_accounts_witness:
  "settled_by sample_codec (\<lambda>u. u) (order_group sample_codec) (app sample_end)
     (''order.confirmed'', ''0123456789abcdef'', ''{}'')"
proof -
  have "ready sample_codec (\<lambda>u. u) sample_events (app sample_end) \<and> (''m1'' \<in> set (mq_waiting (queue sample_end)) \<or>
    settled_by sample_codec (\<lambda>u. u) (order_group sample_codec) (app sample_end) (memory_event sample_parse sample_content ''m1'') \<or>
    c_MaxAttempts (DefaultServiceConfig ''https://q'') \<le> int (mq_receives (queue sample_end) ''m1''))"
    by (rule consumer_accounts[OF shop.consuming_axioms _ _ sample_ready _ refl]) (simp_all add: sample_event)
  then show ?thesis unfolding sample_consumed sample_event by (simp add: DefaultServiceConfig_def)
qed

section \<open>Where it does not hold\<close>

text \<open>
  A message without a readable \<open>outbox_id\<close> gets the zero UUID as its event id, so all such messages look
  like one event: the second one is reported as handled (and deleted from the queue) without
  having had any effect.
\<close>

definition unlabelled :: "string \<Rightarrow> string \<Rightarrow> SQSMessage" where
  "unlabelled messageId body = parseSQSMessage sample_parse
     \<lparr>mg_MessageId = Some messageId, mg_ReceiptHandle = Some messageId, mg_Body = Some body, mg_Attributes = Map.empty,
      mg_MessageAttributes = [''event_type'' \<mapsto> Some ''order.confirmed'']\<rparr>"

theorem missing_event_id_swallowed:
  "let (e1, d1) = OrderConfirmedHandler sample_codec (sample_call ''e1'' ''o1'') (unlabelled ''m1'' ''order 1'') sample_shop;
       (e2, d2) = OrderConfirmedHandler sample_codec (sample_call ''e2'' ''o2'') (unlabelled ''m2'' ''order 2'') d1
   in e1 = None \<and> e2 = None \<and> length (t_order_confirmations d1) = 1 \<and>
      t_order_confirmations d2 = t_order_confirmations d1"
  by code_simp

text \<open>\<open>order.created\<close> is handled without an inbox: a redelivery sends the confirmation again.\<close>

theorem order_created_not_idempotent:
  "let un = sample_codec\<lparr>un_order_created := (\<lambda>_. Inr \<lparr>ce_OrderID = ''o1'', ce_UserID = ''u'', ce_ProductID = ''p'',
         ce_Quantity = 3, ce_TotalPrice = 30\<rparr>)\<rparr>;
       (e1, d1) = OrderCreatedHandler un (sample_call ''e1'' ''n1'') (unlabelled ''m1'' []) sample_shop;
       (e2, d2) = OrderCreatedHandler un (sample_call ''e2'' ''n2'') (unlabelled ''m1'' []) d1
   in e1 = None \<and> e2 = None \<and> length (t_notifications d2) = 2 \<and> length (t_outbox d2) = 2"
  by code_simp

end
