(* ===== verification/App_Commands.thy ===== *)
theory App_Commands
  imports App_Api App_Metrics App_Handlers
begin

text \<open>
  The commands of the example (\<open>src/examples/app/cmd/dispatcher\<close>, \<open>dispatcher-bench\<close>, \<open>consumer\<close>): how flags
  and environment are turned into routers, publishers and configurations, the order of the steps
  at start, and the health endpoints.  A start ends with an exit code or a running process.  Signals,
  the HTTP servers' sockets and log output are left out.
\<close>

section \<open>Environment and flags\<close>

text \<open>\<open>os.Getenv\<close> gives the empty string for a variable that is not set.\<close>

definition getEnv :: "(string \<Rightarrow> string) \<Rightarrow> string \<Rightarrow> string \<Rightarrow> string" where
  "getEnv env key defaultValue = (if env key \<noteq> [] then env key else defaultValue)"

record SleepConfig =
  sl_Min :: duration
  sl_Max :: duration

text \<open>
  \<open>Sleep\<close> gives the duration slept; \<open>draw n\<close> is \<open>rand.Int63n\<close>, which panics unless \<open>n\<close> is positive.
\<close>

definition Sleep :: "(int \<Rightarrow> int) \<Rightarrow> SleepConfig \<Rightarrow> string + duration option" where
  "Sleep draw c =
     (if sl_Min c = 0 \<and> sl_Max c = 0 then Inr None
      else if sl_Min c \<ge> sl_Max c then Inr (Some (sl_Min c))
      else
        let delta = wrap64 (sl_Max c - sl_Min c)
        in if delta \<le> 0 then Inl ''invalid argument to Int63n''
           else Inr (Some (wrap64 (sl_Min c + draw delta))))"

definition ParseSleepDuration :: "(string \<Rightarrow> goerr + duration) \<Rightarrow> string \<Rightarrow> duration \<Rightarrow> duration" where
  "ParseSleepDuration parse s defaultDuration =
     (if s = [] then defaultDuration
      else case parse s of Inl err \<Rightarrow> defaultDuration | Inr d \<Rightarrow> d)"

definition sleep_config ::
  "(string \<Rightarrow> goerr + duration) \<Rightarrow> (string \<Rightarrow> string) \<Rightarrow> string \<Rightarrow> duration \<Rightarrow> duration \<Rightarrow> SleepConfig" where
  "sleep_config parse env name lo hi =
     \<lparr>sl_Min = ParseSleepDuration parse (env (name @ ''_SLEEP_MIN'')) lo,
      sl_Max = ParseSleepDuration parse (env (name @ ''_SLEEP_MAX'')) hi\<rparr>"

text \<open>The handlers with the sleep they are built with.\<close>

definition consumer_sleeps ::
  "(string \<Rightarrow> goerr + duration) \<Rightarrow> (string \<Rightarrow> string) \<Rightarrow> (string \<times> SleepConfig) list" where
  "consumer_sleeps parse env =
     [(''order.created'', sleep_config parse env ''ORDER_CREATED'' (20 * millisecond) (80 * millisecond)),
      (''order.confirmed'', sleep_config parse env ''ORDER_CONFIRMED'' (10 * millisecond) (40 * millisecond)),
      (''user.registered'', sleep_config parse env ''USER_REGISTERED'' (5 * millisecond) (20 * millisecond)),
      (''user.updated'', sleep_config parse env ''USER_UPDATED'' (10 * millisecond) (30 * millisecond)),
      (''notification.email'', sleep_config parse env ''NOTIFICATION_EMAIL'' (50 * millisecond) (200 * millisecond)),
      (''notification.sms'', sleep_config parse env ''NOTIFICATION_SMS'' (30 * millisecond) (150 * millisecond)),
      (''notification.push'', sleep_config parse env ''NOTIFICATION_PUSH'' (20 * millisecond) (100 * millisecond))]"

section \<open>The dispatcher\<close>

definition event_router :: "string \<Rightarrow> string \<Rightarrow> string \<Rightarrow> EventTypeQueueMap" where
  "event_router orderQ notificationQ userQ =
     RegisterPrefix ''user.'' userQ
       (RegisterPrefix ''notification.'' notificationQ
         (RegisterPrefix ''order.'' orderQ (NewEventTypeQueueMap userQ)))"

definition dispatcher_publisher ::
  "'w SQSClient \<Rightarrow> (string list \<Rightarrow> string list) \<Rightarrow> bool \<Rightarrow> string \<Rightarrow> string \<Rightarrow> string \<Rightarrow> 'w BatchPublisher" where
  "dispatcher_publisher client sched multiQueue orderQ notificationQ userQ =
     (if multiQueue then NewMultiBatchPublisher client (QueueURL (event_router orderQ notificationQ userQ)) sched
      else NewBatchPublisher client orderQ)"

definition bench_publisher ::
  "'w SQSClient \<Rightarrow> (string list \<Rightarrow> string list) \<Rightarrow> bool \<Rightarrow> string \<Rightarrow> string \<Rightarrow> string \<Rightarrow> 'w BatchPublisher" where
  "bench_publisher client sched multiQueue orderQ notificationQ userQ =
     (if multiQueue then NewMultiBatchPublisher client (QueueURL (event_router orderQ notificationQ userQ)) sched
      else NewBatchPublisher client userQ)"

text \<open>The configuration literal of the commands; fields it does not name have their zero value.\<close>

definition command_config :: "int \<Rightarrow> duration \<Rightarrow> BatchDispatcherConfig" where
  "command_config workerCount requeueInterval =
     \<lparr>b_PollInterval = 100 * millisecond, b_MaxPollInterval = 0, b_BatchSize = 10, b_WorkerCount = workerCount,
      b_ShutdownTimeout = 0, b_ForceTimeout = 0, b_OnForceShutdown = None, b_AutoRecover = False,
      b_RequeueInterval = requeueInterval, b_DisableAutoRequeue = False, b_RequeueBackoffBase = 0,
      b_RequeueBackoffMax = 0, b_Hooks = None, b_CleanupTimeout = 0\<rparr>"

record outside =
  os_pool :: "goerr option"
  os_ping :: "goerr option"
  os_aws :: "goerr option"
  os_revive :: pg_ctx

record ('c, 's, 'w) dispatcher_process =
  dp_repo :: "('c, 's) BatchOutboxRepository"
  dp_publisher :: "'w BatchPublisher"
  dp_config :: BatchDispatcherConfig
  dp_loops :: "goroutine list"
  dp_lifecycle :: lifecycle

text \<open>Create and start the dispatcher, the last steps of both commands.\<close>

definition launch ::
  "('c, 's) BatchOutboxRepository \<Rightarrow> 'w BatchPublisher \<Rightarrow> BatchDispatcherConfig \<Rightarrow> int + ('c, 's, 'w) dispatcher_process" where
  "launch r pub cfg =
     (case NewBatchDispatcher (MaxBatchSize pub) cfg of
        Inl err \<Rightarrow> Inl 1
      | Inr c \<Rightarrow>
          (case BatchDispatcher_Start c 0 new_lifecycle of
             (Inl err, d) \<Rightarrow> Inl 1
           | (Inr loops, d) \<Rightarrow>
               Inr \<lparr>dp_repo = r, dp_publisher = pub, dp_config = c, dp_loops = loops, dp_lifecycle = d\<rparr>))"

definition dispatcher_main ::
  "'w SQSClient \<Rightarrow> (string list \<Rightarrow> string list) \<Rightarrow> (string \<Rightarrow> string) \<Rightarrow> bool \<Rightarrow> int \<Rightarrow> outside \<Rightarrow> Outbox list \<Rightarrow>
   (int + (pg_ctx, Outbox list, 'w) dispatcher_process) \<times> Outbox list" where
  "dispatcher_main client sched env multiQueue workerCount out rs =
     (let orderQ = getEnv env ''ORDER_QUEUE_URL'' ''http://localhost:14566/000000000000/o4x-events-order.fifo'';
          notificationQ = getEnv env ''NOTIFICATION_QUEUE_URL'' ''http://localhost:14566/000000000000/o4x-events-notification'';
          userQ = getEnv env ''USER_QUEUE_URL'' ''http://localhost:14566/000000000000/o4x-events-user''
      in if os_pool out \<noteq> None then (Inl 1, rs)
         else if os_ping out \<noteq> None then (Inl 1, rs)
         else if os_aws out \<noteq> None then (Inl 1, rs)
         else case NewOutboxRepository [] of
                Inl err \<Rightarrow> (Inl 2, rs)
              | Inr rp \<Rightarrow>
                  let pub = dispatcher_publisher client sched multiQueue orderQ notificationQ userQ
                  in case pgx_ReviveStuckPublishing rp (os_revive out) rs of
                       (Inl err, rs') \<Rightarrow> (Inl 1, rs')
                     | (Inr n, rs') \<Rightarrow> (launch (pgx_repository rp) pub (command_config workerCount (10 * second)), rs'))"

section \<open>The instrumented dispatcher\<close>

text \<open>\<open>url.Parse\<close> and \<open>URL.String\<close> are \<open>parse\<close> and \<open>text\<close>.\<close>

record url =
  u_Scheme :: string
  u_Host :: string
  u_Rest :: string

definition normalizeQueueURL ::
  "(string \<Rightarrow> goerr + url) \<Rightarrow> (url \<Rightarrow> string) \<Rightarrow> string \<Rightarrow> string \<Rightarrow> string" where
  "normalizeQueueURL parse text queueURL sqsEndpoint =
     (case parse queueURL of
        Inl err \<Rightarrow> queueURL
      | Inr u \<Rightarrow>
          (case parse sqsEndpoint of
             Inl err \<Rightarrow> queueURL
           | Inr endpointURL \<Rightarrow> text (u\<lparr>u_Host := u_Host endpointURL, u_Scheme := u_Scheme endpointURL\<rparr>)))"

text \<open>The middleware that sends every request to the endpoint.\<close>

definition LocalStackURLRewriter :: "(string \<Rightarrow> goerr + url) \<Rightarrow> string \<Rightarrow> url option \<Rightarrow> url option" where
  "LocalStackURLRewriter parse sqsEndpoint requestURL =
     map_option (\<lambda>u. case parse sqsEndpoint of
        Inl err \<Rightarrow> u
      | Inr e \<Rightarrow> u\<lparr>u_Scheme := u_Scheme e, u_Host := u_Host e\<rparr>) requestURL"

definition discover ::
  "(string \<Rightarrow> goerr + url) \<Rightarrow> (url \<Rightarrow> string) \<Rightarrow> string \<Rightarrow> string list \<Rightarrow> string \<rightharpoonup> string" where
  "discover parse text sqsEndpoint urls =
     fold (\<lambda>queueURL m.
        let segments = split_on (CHR ''/'') queueURL
        in if length segments > 0
           then m(segments ! (length segments - 1) \<mapsto> normalizeQueueURL parse text queueURL sqsEndpoint) else m) urls Map.empty"

text \<open>A key that is missing in a Go map reads as the empty string.\<close>

definition queue_named :: "(string \<rightharpoonup> string) \<Rightarrow> string \<Rightarrow> string" where
  "queue_named m name = (case m name of Some q \<Rightarrow> q | None \<Rightarrow> [])"

definition bench_main ::
  "'w SQSClient \<Rightarrow> (string list \<Rightarrow> string list) \<Rightarrow> (string \<Rightarrow> goerr + url) \<Rightarrow> (url \<Rightarrow> string) \<Rightarrow>
   (pg_ctx \<Rightarrow> time \<times> duration) \<Rightarrow> (Outbox list \<Rightarrow> time \<times> duration) \<Rightarrow>
   (string \<Rightarrow> string) \<Rightarrow> bool \<Rightarrow> int \<Rightarrow> outside \<Rightarrow> goerr + string list \<Rightarrow> Outbox list \<times> MetricsCollector \<Rightarrow>
   (int + (pg_ctx, Outbox list \<times> MetricsCollector, 'w \<times> MetricsCollector) dispatcher_process) \<times> Outbox list \<times> MetricsCollector" where
  "bench_main client sched parse text timing publishTiming env multiQueue workerCount out listQueues s =
     (let sqsEndpoint = getEnv env ''SQS_ENDPOINT'' ''http://localhost:14566''
      in if os_pool out \<noteq> None then (Inl 1, s)
         else if os_ping out \<noteq> None then (Inl 1, s)
         else if os_aws out \<noteq> None then (Inl 1, s)
         else case listQueues of
                Inl err \<Rightarrow> (Inl 1, s)
              | Inr urls \<Rightarrow>
                  let queueURLs = discover parse text sqsEndpoint urls;
                      pub = bench_publisher client sched multiQueue (queue_named queueURLs ''o4x-events-order.fifo'')
                        (queue_named queueURLs ''o4x-events-notification'') (queue_named queueURLs ''o4x-events-user'')
                  in case NewOutboxRepository [] of
                       Inl err \<Rightarrow> (Inl 2, s)
                     | Inr rp \<Rightarrow>
                         (case pgx_ReviveStuckPublishing rp (os_revive out) (fst s) of
                            (Inl err, rs') \<Rightarrow> (Inl 1, rs', snd s)
                          | (Inr n, rs') \<Rightarrow>
                              (launch (NewInstrumentedBatchRepository (pgx_repository rp) 0 timing) (NewInstrumentedBatchPublisher pub publishTiming)
                                 (command_config workerCount second), rs', snd s)))"

section \<open>The consumer\<close>

record consumer_flags =
  fl_group :: string
  fl_queue_url :: string
  fl_simulate_failure :: bool
  fl_failure_rate :: rat
  fl_workers :: int
  fl_message_concurrency :: int
  fl_truncate :: bool

text \<open>Whether the email handler fails on purpose; \<open>draw\<close> is the number of \<open>rand.Float64\<close>.\<close>

definition simulates_failure :: "consumer_flags \<Rightarrow> rat \<Rightarrow> bool" where
  "simulates_failure fl draw \<longleftrightarrow> fl_simulate_failure fl \<and> draw < fl_failure_rate fl"

record consumer_process =
  cp_router :: "handler_state EventTypeRouter"
  cp_config :: ServiceConfig
  cp_loops :: "goroutine list"
  cp_lifecycle :: lifecycle

text \<open>The three statements are one simple query, which PostgreSQL runs as one transaction.\<close>

definition truncate_tables :: "conn_outcome \<Rightarrow> app_db \<Rightarrow> goerr option \<times> app_db" where
  "truncate_tables oc ad =
     (case run_statement oc (\<lambda>ad. Inr (ad\<lparr>t_order_confirmations := [], t_user_welcome_credits := [], t_inbox := []\<rparr>, ())) ad of
        (Inl err, ad') \<Rightarrow> (Some err, ad')
      | (Inr _, ad') \<Rightarrow> (None, ad'))"

definition consumer_config :: "string \<Rightarrow> consumer_flags \<Rightarrow> ServiceConfig" where
  "consumer_config queueURL fl =
     \<lparr>c_QueueURL = queueURL, MaxNumberOfMessages = 10, WaitTimeSeconds = 20, VisibilityTimeout = 30, c_MaxAttempts = 5,
      c_WorkerCount = fl_workers fl, MessageConcurrency = fl_message_concurrency fl, c_ShutdownTimeout = 0,
      c_ForceTimeout = 0, c_OnForceShutdown = None, c_Hooks = None\<rparr>"

definition consumer_main ::
  "codec \<Rightarrow> (string \<Rightarrow> string) \<Rightarrow> consumer_flags \<Rightarrow> outside \<Rightarrow> app_db \<Rightarrow> (int + consumer_process) \<times> app_db" where
  "consumer_main un env fl out ad =
     (let groupName = getEnv env ''CONSUMER_GROUP'' (fl_group fl);
          sqsQueueURL = (if fl_queue_url fl = [] then getEnv env ''SQS_QUEUE_URL'' [] else fl_queue_url fl)
      in if sqsQueueURL = [] then (Inl 1, ad)
         else if os_pool out \<noteq> None then (Inl 1, ad)
         else if os_ping out \<noteq> None then (Inl 1, ad)
         else
           let (err, ad') = (if fl_truncate fl then truncate_tables (outcome (os_revive out)) ad else (None, ad))
           in if err \<noteq> None then (Inl 1, ad')
              else if os_aws out \<noteq> None then (Inl 1, ad')
              else case selected_router un groupName of
                     None \<Rightarrow> (Inl 1, ad')
                   | Some r \<Rightarrow>
                       let c = NewService (consumer_config sqsQueueURL fl)
                       in case Service_Start c 0 new_lifecycle of
                            (Inl e, l) \<Rightarrow> (Inl 1, ad')
                          | (Inr loops, l) \<Rightarrow> (Inr \<lparr>cp_router = r, cp_config = c, cp_loops = loops, cp_lifecycle = l\<rparr>, ad'))"

section \<open>Probes\<close>

definition health_endpoint :: "string \<Rightarrow> HealthStatus \<Rightarrow> 's http_handler" where
  "health_endpoint what status r s =
     (if \<not> IsHealthy status then (respond 503 None (''Unhealthy: '' @ what @ '' not running or shutting down'' @ [CHR 0x0A]), s)
      else (respond 200 None (''OK'' @ [CHR 0x0A]), s))"

definition ready_endpoint :: "string \<Rightarrow> bool \<Rightarrow> goerr option \<Rightarrow> 's http_handler" where
  "ready_endpoint what isRunning ping r s =
     (if \<not> isRunning then (respond 503 None (''Not ready: '' @ what @ '' not running'' @ [CHR 0x0A]), s)
      else if ping \<noteq> None then (respond 503 None (''Not ready: database unreachable'' @ [CHR 0x0A]), s)
      else (respond 200 None (''Ready'' @ [CHR 0x0A]), s))"

definition probe_mux :: "string \<Rightarrow> HealthStatus \<Rightarrow> bool \<Rightarrow> goerr option \<Rightarrow> string + 's ServeMux" where
  "probe_mux what status isRunning ping =
     HandleFunc ''/ready'' (ready_endpoint what isRunning ping) (HandleFunc ''/health'' (health_endpoint what status) (Inr []))"

definition dispatcher_probes :: "('c, 's, 'w) dispatcher_process \<Rightarrow> lifecycle \<Rightarrow> goerr option \<Rightarrow> string + 'h ServeMux" where
  "dispatcher_probes p l ping = probe_mux ''dispatcher'' (BatchDispatcher_HealthStatus (dp_config p) l) (IsRunning l) ping"

definition consumer_probes ::
  "consumer_process \<Rightarrow> lifecycle \<Rightarrow> ('w, 'h) consumer_world \<Rightarrow> goerr option \<Rightarrow> string + 'm ServeMux" where
  "consumer_probes p l w ping = probe_mux ''consumer service'' (Service_HealthStatus (cp_config p) l w) (IsRunning l) ping"

section \<open>Shutdown\<close>

text \<open>
  What the commands do after the signal, once their HTTP server is shut down: \<open>drained\<close> is when the
  goroutines are done.  The instrumented dispatcher logs its final metrics before it stops
  the workers, which record while the counters are loaded.
\<close>

definition dispatcher_shutdown ::
  "bool \<Rightarrow> bool \<Rightarrow> duration option \<Rightarrow> ('c, 's, 'w) dispatcher_process \<Rightarrow>
   shutdown_result option \<times> ('c, 's, 'w) dispatcher_process" where
  "dispatcher_shutdown tie1 tie2 drained p =
     (case BatchDispatcher_Stop (dp_config p) tie1 tie2 drained (dp_lifecycle p) of
        (res, l) \<Rightarrow> (res, p\<lparr>dp_lifecycle := l\<rparr>))"

definition bench_shutdown ::
  "int list \<Rightarrow> (nat \<Rightarrow> MetricsCollector) \<Rightarrow> pg_counters \<Rightarrow> bool \<Rightarrow> bool \<Rightarrow> duration option \<Rightarrow>
   ('c, 's, 'w) dispatcher_process \<Rightarrow> log_entry list \<times> shutdown_result option \<times> ('c, 's, 'w) dispatcher_process" where
  "bench_shutdown order metrics pg tie1 tie2 drained p =
     ((''=== FINAL METRICS ==='', []) # LogStats order metrics @ LogAggregateStats pg,
      dispatcher_shutdown tie1 tie2 drained p)"

definition consumer_shutdown ::
  "bool \<Rightarrow> bool \<Rightarrow> duration option \<Rightarrow> consumer_process \<Rightarrow> shutdown_result option \<times> consumer_process" where
  "consumer_shutdown tie1 tie2 drained p =
     (case Service_Stop (cp_config p) tie1 tie2 drained (cp_lifecycle p) of
        (res, l) \<Rightarrow> (res, p\<lparr>cp_lifecycle := l\<rparr>))"

section \<open>The API server\<close>

definition api_main :: "api_codec \<Rightarrow> app_ctx \<Rightarrow> outside \<Rightarrow> goerr option \<Rightarrow> int + app_db ServeMux" where
  "api_main c a out ping =
     (if os_pool out \<noteq> None then Inl 1
      else if os_ping out \<noteq> None then Inl 1
      else case api_mux c a ping of Inl p \<Rightarrow> Inl 2 | Inr mux \<Rightarrow> Inr mux)"

section \<open>Sleeping\<close>

text \<open>With a minimum that is not negative the sleep lies within its bounds; a very long range panics.\<close>

lemma Sleep_bounds:
  assumes "0 \<le> sl_Min c" "in_int64 (sl_Min c)" "in_int64 (sl_Max c)" "\<And>n. 0 < n \<Longrightarrow> 0 \<le> draw n \<and> draw n < n"
  obtains "Sleep draw c = Inr None" | d where "Sleep draw c = Inr (Some d)" "sl_Min c \<le> d" "d < max (sl_Max c) (sl_Min c + 1)"
proof (cases "sl_Min c < sl_Max c")
  case True
  let ?d = "sl_Max c - sl_Min c"
  have "wrap64 ?d = ?d" "wrap64 (sl_Min c + draw ?d) = sl_Min c + draw ?d"
    using True assms(1-3) assms(4)[of ?d] by (auto simp: in_int64_def intro!: wrap64_id)
  with True assms(4)[of ?d] that show thesis by (auto simp: Sleep_def Let_def)
next
  case False
  show thesis
  proof (cases "sl_Min c = 0 \<and> sl_Max c = 0")
    case True
    then show thesis using that(1) by (simp add: Sleep_def)
  next
    case neither: False
    then show thesis using that(2)[of "sl_Min c"] False by (simp add: Sleep_def)
  qed
qed

lemma Sleep_overflow: "Sleep draw \<lparr>sl_Min = - (2 ^ 62), sl_Max = 2 ^ 62\<rparr> = Inl ''invalid argument to Int63n''"
  by (simp add: Sleep_def Let_def wrap64_def)

section \<open>Stopping\<close>

text \<open>
  A process that was started stops: its workers are cancelled, the stop ends when they are done
  within 60 seconds, and only workers that take longer are ended by \<open>os.Exit\<close>.
\<close>

definition stops :: "duration option \<Rightarrow> shutdown_result option \<Rightarrow> lifecycle \<Rightarrow> bool" where
  "stops drained res l \<longleftrightarrow>
     \<not> running l \<and> set_option (cancelFunc l) \<subseteq> cancelled l \<and>
     (case res of
        None \<Rightarrow> False
      | Some (Forced f) \<Rightarrow> f = Some OsExit \<and> (\<forall>t. drained = Some t \<longrightarrow> 60 * second \<le> t)
      | Some _ \<Rightarrow> wg l = [] \<and> (\<exists>t. drained = Some t \<and> t \<le> 60 * second))"

lemma stopped_in_time:
  assumes "running l" "res = GracefulShutdown tie1 tie2 drained
      \<lparr>s_ShutdownTimeout = 30 * second, s_ForceTimeout = 60 * second, s_OnForceShutdown = Some OsExit\<rparr>"
  shows "let l1 = l\<lparr>pendingShutdown := True, running := False, cancelled := cancelled l \<union> set_option (cancelFunc l)\<rparr>
    in stops drained (Some res) (l1\<lparr>wg := (case res of Forced _ \<Rightarrow> wg l1 | _ \<Rightarrow> [])\<rparr>)"
proof -
  have "wrap64 (30 * second) = 30 * second" by (simp add: wrap64_id in_int64_def)
  with assms show ?thesis
    by (cases drained) (auto simp: stops_def GracefulShutdown_def first_ready_def Let_def)
qed

lemma launched:
  assumes "launch r pub (command_config n q) = Inr p"
  shows "running (dp_lifecycle p)" "b_ShutdownTimeout (dp_config p) = 30 * second" "b_ForceTimeout (dp_config p) = 60 * second"
    "b_OnForceShutdown (dp_config p) = Some OsExit"
proof -
  have "wrap64 (60 * second) = 60 * second" by (simp add: wrap64_id in_int64_def)
  then show "running (dp_lifecycle p)" "b_ShutdownTimeout (dp_config p) = 30 * second" "b_ForceTimeout (dp_config p) = 60 * second"
    "b_OnForceShutdown (dp_config p) = Some OsExit"
    using assms
    by (auto simp: launch_def NewBatchDispatcher_def command_config_def batch_defaults_def batch_adjust_def or_default_def
        BatchDispatcher_Start_def new_lifecycle_def Let_def split: if_splits)
qed

lemma dispatcher_stops:
  assumes "launch r pub (command_config n q) = Inr p" "dispatcher_shutdown tie1 tie2 drained p = (res, p')"
  shows "stops drained res (dp_lifecycle p')"
  using assms(2) launched[OF assms(1)] stopped_in_time[OF launched(1)[OF assms(1)] refl, of drained tie1 tie2]
  by (auto simp: dispatcher_shutdown_def BatchDispatcher_Stop_def Let_def)

lemma consumer_stops:
  assumes "consumer_main un env fl out ad = (Inr p, ad')" "consumer_shutdown tie1 tie2 drained p = (res, p')"
  shows "stops drained res (cp_lifecycle p')"
proof -
  from assms(1) obtain q where p: "cp_config p = NewService (consumer_config q fl)" "running (cp_lifecycle p)"
    by (auto simp: consumer_main_def Let_def Service_Start_def new_lifecycle_def split: if_splits option.splits prod.splits)
  have "wrap64 (60 * second) = 60 * second" by (simp add: wrap64_id in_int64_def)
  with p have c: "c_ShutdownTimeout (cp_config p) = 30 * second" "c_ForceTimeout (cp_config p) = 60 * second"
    "c_OnForceShutdown (cp_config p) = Some OsExit"
    by (simp_all add: NewService_def consumer_config_def or_default_def Let_def)
  have "wrap64 (30 * second) = 30 * second" by (simp add: wrap64_id in_int64_def)
  with assms(2) p(2) c stopped_in_time[OF p(2) refl, of drained tie1 tie2] show ?thesis
    by (auto simp: consumer_shutdown_def Service_Stop_def GracefulShutdown_def Let_def)
qed

section \<open>Starting the dispatcher\<close>

lemma launch_runs:
  assumes "0 \<le> n" "0 < q" "MaxBatchSize pub = sqsMaxBatchSize"
  obtains p where "launch r pub (command_config n q) = Inr p" "dp_repo p = r" "dp_publisher p = pub"
    "dp_loops p = map BatchWorkerLoop [0..<nat (or_default n 1)] @ [RequeueLoop]"
    "IsHealthy (BatchDispatcher_HealthStatus (dp_config p) (dp_lifecycle p))" "b_BatchSize (dp_config p) = 10"
  using assms that
  by (simp add: launch_def NewBatchDispatcher_def command_config_def batch_defaults_def batch_adjust_def or_default_def
      BatchDispatcher_Start_def new_lifecycle_def Let_def sqsMaxBatchSize_def in_int64_def
      BatchDispatcher_HealthStatus_def IsHealthy_def)

lemma launch_negative: "n < 0 \<Longrightarrow> launch r pub (command_config n q) = Inl 1"
  by (simp add: launch_def NewBatchDispatcher_def command_config_def)

lemma default_repository: "\<exists>rp. NewOutboxRepository [] = Inr rp"
proof -
  have "\<not> isl (NewOutboxRepository [])" by code_simp
  then show ?thesis by (cases "NewOutboxRepository []") auto
qed

abbreviation main_queue :: "(string \<Rightarrow> string) \<Rightarrow> bool \<Rightarrow> string \<Rightarrow> string" where
  "main_queue env multiQueue e \<equiv>
     (let orderQ = getEnv env ''ORDER_QUEUE_URL'' ''http://localhost:14566/000000000000/o4x-events-order.fifo''
      in if multiQueue
         then QueueURL (event_router orderQ
           (getEnv env ''NOTIFICATION_QUEUE_URL'' ''http://localhost:14566/000000000000/o4x-events-notification'')
           (getEnv env ''USER_QUEUE_URL'' ''http://localhost:14566/000000000000/o4x-events-user'')) e
         else orderQ)"

context sqs_fanout
begin

lemma command_publisher:
  "batch_publisher (dispatcher_publisher C sched multi q1 q2 q3)
     (sqs_accepted stored (\<lambda>e. if multi then QueueURL (event_router q1 q2 q3) e else q1))"
  using fanout.batch_publisher_axioms[of "QueueURL (event_router q1 q2 q3)"] batch.batch_publisher_axioms[of q1]
  by (cases multi) (simp_all add: dispatcher_publisher_def)

lemma bench_contract: "\<exists>route. batch_publisher (bench_publisher C sched multi q1 q2 q3) (sqs_accepted stored route)"
  using fanout.batch_publisher_axioms[of "QueueURL (event_router q1 q2 q3)"] batch.batch_publisher_axioms[of q3]
  by (cases multi) (auto simp: bench_publisher_def)

end

text \<open>
  C18: the dispatcher command wires a correct dispatcher.  A process it starts runs on the PostgreSQL
  repository, which keeps the contract of an outbox repository, and on a publisher that reports as
  published only what the service has stored on the queue the mode and the environment
  give for the event type; it is healthy, with the worker loops asked for and the requeue loop, and
  the start has changed the table only by recovering stuck rows.  It stops when its workers are done
  within 60 seconds and is ended by \<open>os.Exit\<close> otherwise.  With a negative number of workers the
  command exits.
\<close>

theorem dispatcher_main_wiring:
  assumes "sqs_fanout client stored sched" "dispatcher_main client sched env multiQueue n out rs = (Inr p, rs')"
  shows "\<exists>rp. dp_repo p = pgx_repository rp \<and> batch_outbox_repository (dp_repo p) row_of wf_table wf_ctx \<and>
    batch_publisher (dp_publisher p) (sqs_accepted stored (main_queue env multiQueue)) \<and>
    0 \<le> n \<and> dp_loops p = map BatchWorkerLoop [0..<nat (or_default n 1)] @ [RequeueLoop] \<and>
    IsHealthy (BatchDispatcher_HealthStatus (dp_config p) (dp_lifecycle p)) \<and>
    rs' = snd (pgx_ReviveStuckPublishing rp (os_revive out) rs) \<and> (wf_table rs \<longrightarrow> wf_table rs') \<and>
    (case dispatcher_shutdown tie1 tie2 drained p of (res, p') \<Rightarrow> stops drained res (dp_lifecycle p'))"
proof -
  obtain rp where rp: "NewOutboxRepository [] = Inr rp" using default_repository ..
  let ?q1 = "getEnv env ''ORDER_QUEUE_URL'' ''http://localhost:14566/000000000000/o4x-events-order.fifo''"
  let ?q2 = "getEnv env ''NOTIFICATION_QUEUE_URL'' ''http://localhost:14566/000000000000/o4x-events-notification''"
  let ?q3 = "getEnv env ''USER_QUEUE_URL'' ''http://localhost:14566/000000000000/o4x-events-user''"
  define pub where "pub = dispatcher_publisher client sched multiQueue ?q1 ?q2 ?q3"
  from assms(2) rp have l: "launch (pgx_repository rp) pub (command_config n (10 * second)) = Inr p"
    and rs': "rs' = snd (pgx_ReviveStuckPublishing rp (os_revive out) rs)"
    unfolding pub_def by (auto simp: dispatcher_main_def Let_def split: if_splits prod.splits sum.splits)
  have n: "0 \<le> n" using l launch_negative[of n "pgx_repository rp" pub "10 * second"] by (cases "n < 0") auto
  have "MaxBatchSize pub = sqsMaxBatchSize"
    by (simp add: pub_def dispatcher_publisher_def NewMultiBatchPublisher_def NewBatchPublisher_def)
  from launch_runs[OF n _ this, of "10 * second" "pgx_repository rp"] l have p: "dp_repo p = pgx_repository rp"
    "dp_publisher p = pub" "dp_loops p = map BatchWorkerLoop [0..<nat (or_default n 1)] @ [RequeueLoop]"
    "IsHealthy (BatchDispatcher_HealthStatus (dp_config p) (dp_lifecycle p))"
    by auto
  have wf: "wf_table rs \<longrightarrow> wf_table rs'"
    unfolding rs' using pgx_evolves(8) table_evolves_wf by blast
  from sqs_fanout.command_publisher[OF assms(1)] have
    "batch_publisher (dp_publisher p) (sqs_accepted stored (main_queue env multiQueue))"
    unfolding p pub_def Let_def .
  with p n rs' wf show ?thesis
    using pgx.batch_outbox_repository_axioms[of rp] dispatcher_stops[OF l] by (auto split: prod.split)
qed

definition all_well :: outside where
  "all_well = \<lparr>os_pool = None, os_ping = None, os_aws = None, os_revive = sample_ctx 0\<rparr>"

theorem dispatcher_main_wiring_witness:
  "\<exists>p. dispatcher_main service_client rev (\<lambda>_. []) True 2 all_well [] = (Inr p, []) \<and>
     dp_loops p = [BatchWorkerLoop 0, BatchWorkerLoop 1, RequeueLoop]"
proof -
  obtain rp where rp: "NewOutboxRepository [] = Inr rp" using default_repository ..
  have "MaxBatchSize (dispatcher_publisher c sc m a b d) = sqsMaxBatchSize" for c sc m a b d
    by (simp add: dispatcher_publisher_def NewMultiBatchPublisher_def NewBatchPublisher_def)
  then have "\<exists>p. launch (pgx_repository rp) (dispatcher_publisher c sc m a b d) (command_config 2 (10 * second)) = Inr p"
    for c :: "sqs_service SQSClient" and sc m a b d
    by (metis launch_runs[of 2 "10 * second"] zero_le_numeral zero_less_numeral mult_pos_pos)
  then obtain p where p: "dispatcher_main service_client rev (\<lambda>_. []) True 2 all_well [] = (Inr p, [])"
    using rp by (auto simp: dispatcher_main_def all_well_def pgx_ReviveStuckPublishing_def rows_affected_def sample_ctx_def, blast)
  with dispatcher_main_wiring[OF service.sqs_fanout_axioms p] show ?thesis
    by (auto simp: or_default_def upt_conv_Cons numeral_2_eq_2)
qed

text \<open>The instrumented dispatcher keeps the same contracts; it measures and changes nothing else.\<close>

lemma bench_main_wiring:
  assumes "sqs_fanout client stored sched" "bench_main client sched parse text t pt env multiQueue n out lq s = (Inr p, s')"
  shows "batch_outbox_repository (dp_repo p) (\<lambda>s. row_of (fst s)) (\<lambda>s. wf_table (fst s)) wf_ctx \<and>
    (\<exists>route. batch_publisher (dp_publisher p) (\<lambda>s. sqs_accepted stored route (fst s))) \<and> snd s' = snd s"
proof -
  obtain rp where rp: "NewOutboxRepository [] = Inr rp" using default_repository ..
  from assms(2) rp obtain urls where urls: "lq = Inr urls" by (cases lq) (auto simp: bench_main_def Let_def split: if_splits)
  define pub where "pub = (let m = discover parse text (getEnv env ''SQS_ENDPOINT'' ''http://localhost:14566'') urls
    in bench_publisher client sched multiQueue (queue_named m ''o4x-events-order.fifo'')
      (queue_named m ''o4x-events-notification'') (queue_named m ''o4x-events-user''))"
  from assms(2) rp urls have l: "launch (NewInstrumentedBatchRepository (pgx_repository rp) 0 t) (NewInstrumentedBatchPublisher pub pt)
      (command_config n second) = Inr p" and s': "snd s' = snd s"
    unfolding pub_def by (auto simp: bench_main_def Let_def split: if_splits prod.splits sum.splits)
  then have p: "dp_repo p = NewInstrumentedBatchRepository (pgx_repository rp) 0 t" "dp_publisher p = NewInstrumentedBatchPublisher pub pt"
    by (auto simp: launch_def split: sum.splits prod.splits)
  obtain route where "batch_publisher pub (sqs_accepted stored route)"
    using sqs_fanout.bench_contract[OF assms(1)] unfolding pub_def Let_def by blast
  with p s' show ?thesis
    using batch_publisher.instrumented_publisher_contract pgx.instrumented_contract by metis
qed

section \<open>Starting a consumer\<close>

text \<open>The handlers of the consumer groups, by event type.\<close>

definition group_handlers :: "codec \<Rightarrow> string \<Rightarrow> string \<rightharpoonup> handler_state Handler" where
  "group_handlers un g =
     (if g = ''order'' then
        [''order.created'' \<mapsto> on_db (OrderCreatedHandler un), ''order.confirmed'' \<mapsto> on_db (OrderConfirmedHandler un)]
      else if g = ''user'' then
        [''user.registered'' \<mapsto> on_db (UserRegisteredHandler un), ''user.updated'' \<mapsto> on_db (UserUpdatedHandler un)]
      else if g = ''notification'' then
        [''notification.email'' \<mapsto> on_db (NotificationEmailHandler un), ''notification.sms'' \<mapsto> on_db (NotificationSMSHandler un),
         ''notification.push'' \<mapsto> on_db (NotificationPushHandler un)]
      else Map.empty)"

lemma selected_router_handlers:
  "selected_router un g = Some r \<Longrightarrow> handlers r = group_handlers un g \<and> fallback r = Some (\<lambda>msg h. (None, h))"
  by (auto simp: selected_router_def GetRouter_def consumer_registry_def RegisterGroup_def group_handlers_def
      NewEventTypeRouterRegistry_def SetFallback_def Router_Register_def NewEventTypeRouter_def split: if_splits)

lemma selected_router_group:
  "selected_router un g = Some r \<Longrightarrow> g \<in> {''order'', ''user'', ''notification''}"
  by (auto simp: selected_router_def GetRouter_def consumer_registry_def RegisterGroup_def
      NewEventTypeRouterRegistry_def split: if_splits)

lemma truncate_consistent: "consistent ad \<Longrightarrow> truncate_tables oc ad = (err, ad') \<Longrightarrow> consistent ad'"
  by (cases oc) (auto simp: truncate_tables_def consistent_def confirmed_events_def credited_events_def completed_events_def)

text \<open>
  C19: a consumer that starts serves the group that was named, one of the three, from the queue that was
  named, with exactly the handlers of that group and a fallback that acknowledges everything else, and
  never handles messages of a FIFO queue in parallel; the inbox and the business tables agree afterwards,
  truncated or not, if they did before.  It stops as the dispatcher does.  Every other consumer, one without a queue, with
  an unknown group or with parallel handling of a FIFO queue among them, exits with code 1.
\<close>

theorem consumer_main_wiring:
  assumes "consumer_main un env fl out ad = (res, ad')" "consistent ad"
  shows "consistent ad' \<and>
    (case res of
       Inl code \<Rightarrow> code = 1
     | Inr p \<Rightarrow>
         getEnv env ''CONSUMER_GROUP'' (fl_group fl) \<in> {''order'', ''user'', ''notification''} \<and>
         handlers (cp_router p) = group_handlers un (getEnv env ''CONSUMER_GROUP'' (fl_group fl)) \<and>
         fallback (cp_router p) = Some (\<lambda>msg h. (None, h)) \<and>
         c_QueueURL (cp_config p) = (if fl_queue_url fl = [] then env ''SQS_QUEUE_URL'' else fl_queue_url fl) \<and>
         c_QueueURL (cp_config p) \<noteq> [] \<and> \<not> (isFIFO (c_QueueURL (cp_config p)) \<and> MessageConcurrency (cp_config p) > 1) \<and>
         cp_loops p = map WorkerLoop [0..<nat (or_default (fl_workers fl) 1)] \<and>
         (case consumer_shutdown tie1 tie2 drained p of (r, p') \<Rightarrow> stops drained r (cp_lifecycle p')))"
proof -
  let ?url = "if fl_queue_url fl = [] then env ''SQS_QUEUE_URL'' else fl_queue_url fl"
  let ?g = "getEnv env ''CONSUMER_GROUP'' (fl_group fl)"
  have url: "(if fl_queue_url fl = [] then getEnv env ''SQS_QUEUE_URL'' [] else fl_queue_url fl) = ?url" by (simp add: getEnv_def)
  define u where "u = ?url"
  define g where "g = ?g"
  define t where "t = (if fl_truncate fl then truncate_tables (outcome (os_revive out)) ad else (None, ad))"
  note main = assms(1)[unfolded consumer_main_def url Let_def, folded u_def g_def t_def]
  have ct: "consistent (snd t)" using truncate_consistent[OF assms(2)] assms(2)
    by (cases "truncate_tables (outcome (os_revive out)) ad") (auto simp: t_def)
  have "consistent ad' \<and>
    (case res of
       Inl code \<Rightarrow> code = 1
     | Inr p \<Rightarrow> (\<exists>r. selected_router un g = Some r \<and> cp_router p = r) \<and> c_QueueURL (cp_config p) = u \<and> u \<noteq> [] \<and>
         \<not> (isFIFO u \<and> MessageConcurrency (cp_config p) > 1) \<and>
         cp_loops p = map WorkerLoop [0..<nat (or_default (fl_workers fl) 1)])"
    using main assms(2) ct
    by (cases t; cases "selected_router un g")
      (auto simp: Service_Start_def NewService_def consumer_config_def new_lifecycle_def Let_def split: if_splits)
  moreover have "handlers r = group_handlers un g \<and> fallback r = Some (\<lambda>msg h. (None, h)) \<and>
      g \<in> {''order'', ''user'', ''notification''}" if "selected_router un g = Some r" for r
    using selected_router_handlers[OF that] selected_router_group[OF that] by blast
  ultimately show ?thesis
    unfolding u_def[symmetric] g_def[symmetric]
    by (cases res) (simp, use consumer_stops assms(1) in \<open>fastforce split: prod.split\<close>)
qed

definition order_flags :: consumer_flags where
  "order_flags = \<lparr>fl_group = ''order'', fl_queue_url = ''https://q.fifo'', fl_simulate_failure = False,
     fl_failure_rate = 3 / 10, fl_workers = 2, fl_message_concurrency = 1, fl_truncate = True\<rparr>"

theorem consumer_main_wiring_witness:
  "\<exists>p ad. consumer_main sample_codec (\<lambda>_. []) order_flags all_well sample_shop = (Inr p, ad) \<and> consistent ad \<and>
     handlers (cp_router p) = [''order.created'' \<mapsto> on_db (OrderCreatedHandler sample_codec),
       ''order.confirmed'' \<mapsto> on_db (OrderConfirmedHandler sample_codec)] \<and>
     c_QueueURL (cp_config p) = ''https://q.fifo''"
proof -
  have c: "consistent sample_shop" by (simp add: consistent_def sample_shop_def confirmed_events_def credited_events_def completed_events_def)
  have g: "getEnv (\<lambda>_. []) ''CONSUMER_GROUP'' (fl_group order_flags) = ''order''" by (simp add: getEnv_def order_flags_def)
  obtain r where r: "selected_router sample_codec ''order'' = Some r" using selected_groups(1) by blast
  obtain p ad where p: "consumer_main sample_codec (\<lambda>_. []) order_flags all_well sample_shop = (Inr p, ad)"
    unfolding consumer_main_def g
    by (simp add: r order_flags_def all_well_def truncate_tables_def sample_ctx_def Let_def Service_Start_def NewService_def
        consumer_config_def new_lifecycle_def or_default_def)
  from consumer_main_wiring[OF p c, unfolded g] p show ?thesis by (simp add: order_flags_def group_handlers_def)
qed

section \<open>From the API to the handlers\<close>

definition group_queue :: "string \<Rightarrow> string \<Rightarrow> string \<Rightarrow> string \<Rightarrow> string" where
  "group_queue orderQ notificationQ userQ g =
     (if g = ''order'' then orderQ else if g = ''notification'' then notificationQ else userQ)"

lemma routes:
  "QueueURL (event_router q1 q2 q3) (''order.'' @ t) = q1"
  "QueueURL (event_router q1 q2 q3) (''notification.'' @ t) = q2"
  "QueueURL (event_router q1 q2 q3) (''user.'' @ t) = q3"
  by (simp_all add: QueueURL_def event_router_def RegisterPrefix_def NewEventTypeQueueMap_def matches_prefix_def)

lemma handled:
  "EventTypes (order_group un) = {''order.created'', ''order.confirmed''}"
  "EventTypes (user_group un) = {''user.registered'', ''user.updated''}"
  "EventTypes (notification_group un) = {''notification.email'', ''notification.sms'', ''notification.push''}"
  by (auto simp: EventTypes_def selected_router_def GetRouter_def consumer_registry_def RegisterGroup_def SetFallback_def
      Router_Register_def NewEventTypeRouter_def split: if_splits)

lemma api_event_cases:
  assumes "api_event c r = Some e"
  obtains "e = ''order.created'' \<or> e = ''order.confirmed''" | "e = ''user.registered'' \<or> e = ''user.updated''"
  | t where "e = ''notification.'' @ t"
proof -
  have "e \<in> {''order.created'', ''order.confirmed'', ''user.registered'', ''user.updated''} \<or>
      (\<exists>req. decode_notification c (r_Body r) = Inr req \<and> e = ''notification.'' @ sn_Type req)"
    using assms by (simp add: api_event_def split: if_splits sum.splits)
  with that show thesis by blast
qed

text \<open>
  C15: in multi-queue mode an event goes where it is handled.  Whatever event a request to the API
  announces, the dispatcher's router sends it to the queue of a consumer group whose router has
  a handler for it; only a notification of a kind that does not exist has none.
\<close>

theorem events_reach_handlers:
  assumes "api_event c r = Some e"
  shows "\<exists>g router. selected_router un g = Some router \<and>
    QueueURL (event_router orderQ notificationQ userQ) e = group_queue orderQ notificationQ userQ g \<and>
    (e \<in> EventTypes router \<or> (\<exists>t. e = ''notification.'' @ t \<and> t \<notin> {''email'', ''sms'', ''push''}))"
proof (cases rule: api_event_cases[OF assms])
  case 1
  then have "QueueURL (event_router orderQ notificationQ userQ) e = orderQ"
    using routes(1)[of orderQ notificationQ userQ "''created''"] routes(1)[of orderQ notificationQ userQ "''confirmed''"] by auto
  moreover have "e \<in> EventTypes (order_group un)" using 1 by (simp add: handled)
  moreover have "group_queue orderQ notificationQ userQ ''order'' = orderQ" by (simp add: group_queue_def)
  ultimately show ?thesis using selected_groups(1)[of un] by metis
next
  case 2
  then have "QueueURL (event_router orderQ notificationQ userQ) e = userQ"
    using routes(3)[of orderQ notificationQ userQ "''registered''"] routes(3)[of orderQ notificationQ userQ "''updated''"] by auto
  moreover have "e \<in> EventTypes (user_group un)" using 2 by (simp add: handled)
  moreover have "group_queue orderQ notificationQ userQ ''user'' = userQ" by (simp add: group_queue_def)
  ultimately show ?thesis using selected_groups(2)[of un] by metis
next
  case (3 t)
  have "e \<in> EventTypes (notification_group un)" if "t \<in> {''email'', ''sms'', ''push''}"
    using that by (auto simp: handled 3)
  moreover have "group_queue orderQ notificationQ userQ ''notification'' = notificationQ" by (simp add: group_queue_def)
  ultimately show ?thesis using selected_groups(3)[of un] routes(2)[of orderQ notificationQ userQ t] 3 by metis
qed

theorem events_reach_handlers_witness:
  "\<exists>g router. selected_router sample_codec g = Some router \<and>
     QueueURL (event_router ''o'' ''n'' ''u'') ''order.created'' = group_queue ''o'' ''n'' ''u'' g \<and> ''order.created'' \<in> EventTypes router"
  using events_reach_handlers[of sample_api_codec "post_request ''/api/orders'' ''three''" "''order.created''" sample_codec "''o''" "''n''" "''u''"]
  by (simp add: api_event_def post_request_def)

text \<open>
  In single-queue mode every event goes to the order queue, where the order group acknowledges the
  events of the other groups without handling them.
\<close>

lemma single_queue_drops:
  assumes "sq_EventType msg \<in> {''user.registered'', ''user.updated'', ''notification.email''}"
  shows "main_queue env False (sq_EventType msg) = main_queue env False ''order.created'' \<and>
    Router_Handle (order_group un) msg h = (None, h)"
proof -
  have "sq_EventType msg \<notin> EventTypes (order_group un)" using assms by (auto simp: handled)
  then show ?thesis
    using selected_router_handlers[OF selected_groups(1), of un]
    by (auto simp: Router_Handle_def EventTypes_def domIff)
qed

section \<open>Queue discovery\<close>

lemma discover_missing:
  "\<forall>u \<in> set urls. last (split_on (CHR ''/'') u) \<noteq> name \<Longrightarrow> queue_named (discover parse text endpoint urls) name = []"
proof -
  have "discover_fold name = m name" if "\<forall>u \<in> set urls. last (split_on (CHR ''/'') u) \<noteq> name"
    "discover_fold = fold (\<lambda>queueURL m. let segments = split_on (CHR ''/'') queueURL
        in if length segments > 0
           then m(segments ! (length segments - 1) \<mapsto> normalizeQueueURL parse text queueURL endpoint) else m) urls m"
    for discover_fold m
    using that by (induction urls arbitrary: m discover_fold) (auto simp: Let_def last_conv_nth)
  then show "\<forall>u \<in> set urls. last (split_on (CHR ''/'') u) \<noteq> name \<Longrightarrow> ?thesis"
    by (auto simp: discover_def queue_named_def)
qed

section \<open>Probes\<close>

lemma probe_answers:
  assumes "probe_mux what status running' ping = Inr mux" "r_Method r \<noteq> ''CONNECT''"
  shows "r_Path r = ''/health'' \<Longrightarrow> w_Status (fst (ServeHTTP mux r s)) = (if IsHealthy status then 200 else 503)"
    "r_Path r = ''/ready'' \<Longrightarrow> w_Status (fst (ServeHTTP mux r s)) = (if running' \<and> ping = None then 200 else 503)"
proof -
  have c: "cleanPath ''/health'' = ''/health''" "cleanPath ''/ready'' = ''/ready''" by code_simp+
  show "r_Path r = ''/health'' \<Longrightarrow> w_Status (fst (ServeHTTP mux r s)) = (if IsHealthy status then 200 else 503)"
    "r_Path r = ''/ready'' \<Longrightarrow> w_Status (fst (ServeHTTP mux r s)) = (if running' \<and> ping = None then 200 else 503)"
    using assms by (auto simp: probe_mux_def HandleFunc_def ServeHTTP_def c health_endpoint_def ready_endpoint_def respond_def)
qed

text \<open>While \<open>Stop\<close> waits and after it both probes of the dispatcher fail.\<close>

lemma stopped_probes:
  assumes "running l" "dispatcher_probes p (snd (BatchDispatcher_Stop (dp_config p) t1 t2 drained l)) ping = Inr mux"
    "r_Method r \<noteq> ''CONNECT''" "r_Path r \<in> {''/health'', ''/ready''}"
  shows "w_Status (fst (ServeHTTP mux r s)) = 503"
proof -
  let ?l = "snd (BatchDispatcher_Stop (dp_config p) t1 t2 drained l)"
  have "\<not> IsHealthy (BatchDispatcher_HealthStatus (dp_config p) ?l)" "\<not> IsRunning ?l"
    using assms(1) by (simp_all add: BatchDispatcher_Stop_def Let_def IsHealthy_def BatchDispatcher_HealthStatus_def IsRunning_def)
  with probe_answers[OF assms(2)[unfolded dispatcher_probes_def] assms(3)] assms(4) show ?thesis by auto
qed

end
