(* ===== verification/App_Overlap.thy ===== *)
theory App_Overlap
  imports App_Handlers
begin

text \<open>
  Overlapping handlers.  SQS may hand out a message again while its handler still runs, so that
  transactions of one event overlap.  Here the transactional handlers (\<open>order_handler.go\<close>,
  \<open>user_handler.go\<close>) run statement by statement at PostgreSQL's level Read Committed: a statement sees
  what is committed, and an insert waits for an uncommitted row with the same primary key.  Every
  such run has the effect of the same handlers one after the other, so what is shown for
  whole calls in \<open>App_Handlers\<close> holds for overlapping ones.
\<close>

section \<open>Handler calls\<close>

datatype tx_call = ConfirmCall SQSMessage OrderConfirmedEvent | RegisterCall SQSMessage UserRegisteredEvent

fun call_consumer :: "tx_call \<Rightarrow> string" where
  "call_consumer (ConfirmCall msg event) = ''order''"
| "call_consumer (RegisterCall msg event) = ''user''"

fun call_event :: "tx_call \<Rightarrow> uuid" where
  "call_event (ConfirmCall msg event) = sq_EventID msg"
| "call_event (RegisterCall msg event) = sq_EventID msg"

fun call_type :: "tx_call \<Rightarrow> string" where
  "call_type (ConfirmCall msg event) = ''order.confirmed''"
| "call_type (RegisterCall msg event) = ''user.registered''"

fun call_handler :: "codec \<Rightarrow> consume_ctx \<Rightarrow> tx_call \<Rightarrow> app_db \<Rightarrow> goerr option \<times> app_db" where
  "call_handler un a (ConfirmCall msg event) ad = OrderConfirmedHandler un a msg ad"
| "call_handler un a (RegisterCall msg event) ad = UserRegisteredHandler un a msg ad"

fun call_decodes :: "codec \<Rightarrow> tx_call \<Rightarrow> bool" where
  "call_decodes un (ConfirmCall msg event) = (un_order_confirmed un (sq_Body msg) = Inr event)"
| "call_decodes un (RegisterCall msg event) = (un_user_registered un (sq_Body msg) = Inr event)"

text \<open>The insert of the business row of a call, with its check, and the table it goes to.\<close>

fun call_insert :: "tx_call \<Rightarrow> pg_ctx \<Rightarrow> app_db \<Rightarrow> goerr + nat" where
  "call_insert (ConfirmCall msg event) c ad = fst (insert_confirmation c (confirmation_row (sq_EventID msg) event) (t_order_confirmations ad))"
| "call_insert (RegisterCall msg event) c ad =
     fst (run_statement (outcome c) (sql_insert (\<lambda>x y. wc_event_id x = wc_event_id y) (credit_row (sq_EventID msg) event)) (t_user_welcome_credits ad))"

fun call_add :: "tx_call \<Rightarrow> app_db \<Rightarrow> app_db" where
  "call_add (ConfirmCall msg event) ad = ad\<lparr>t_order_confirmations := t_order_confirmations ad @ [confirmation_row (sq_EventID msg) event]\<rparr>"
| "call_add (RegisterCall msg event) ad = ad\<lparr>t_user_welcome_credits := t_user_welcome_credits ad @ [credit_row (sq_EventID msg) event]\<rparr>"

fun call_rows :: "tx_call \<Rightarrow> app_db \<Rightarrow> uuid list" where
  "call_rows (ConfirmCall msg event) ad = confirmed_events ad"
| "call_rows (RegisterCall msg event) ad = credited_events ad"

abbreviation same_row :: "tx_call \<Rightarrow> tx_call \<Rightarrow> bool" where
  "same_row k l \<equiv> call_consumer k = call_consumer l \<and> call_event k = call_event l"

section \<open>Statement by statement\<close>

text \<open>
  Where a call is: after \<open>Begin\<close>, after the check, after the business insert, after \<open>Complete\<close>, and
  returned.  The answers of the two inserts are remembered for the commit.
\<close>

datatype tx_pc = Begun | Checked | Inserted pg_ctx | Completed pg_ctx pg_ctx | Returned "goerr option"

fun holds_row :: "tx_pc \<Rightarrow> bool" where
  "holds_row (Inserted c) = True" | "holds_row (Completed c c') = True" | "holds_row pc = False"

inductive tx_step :: "tx_call list \<Rightarrow> app_db \<times> (nat \<Rightarrow> tx_pc) \<Rightarrow> app_db \<times> (nat \<Rightarrow> tx_pc) \<Rightarrow> bool" for calls where
  check: "i < length calls \<Longrightarrow> pcs i = Begun \<Longrightarrow>
    pgx_IsProcessed c (call_consumer (calls ! i)) (call_event (calls ! i)) (t_inbox ad) = Inr processed \<Longrightarrow>
    tx_step calls (ad, pcs) (ad, pcs(i := if processed then Returned None else Checked))"
| insert_row: "i < length calls \<Longrightarrow> pcs i = Checked \<Longrightarrow>
    (\<forall>j < length calls. holds_row (pcs j) \<longrightarrow> \<not> same_row (calls ! j) (calls ! i)) \<Longrightarrow> call_insert (calls ! i) c ad = Inr n \<Longrightarrow>
    tx_step calls (ad, pcs) (ad, pcs(i := Inserted c))"
| complete: "i < length calls \<Longrightarrow> pcs i = Inserted c \<Longrightarrow>
    fst (pgx_Complete c' (call_consumer (calls ! i)) (call_event (calls ! i)) (t_inbox ad)) = None \<Longrightarrow>
    tx_step calls (ad, pcs) (ad, pcs(i := Completed c c'))"
| commit: "i < length calls \<Longrightarrow> pcs i = Completed c c' \<Longrightarrow>
    ib = snd (pgx_Complete c' (call_consumer (calls ! i)) (call_event (calls ! i)) (t_inbox ad)) \<Longrightarrow>
    tx_step calls (ad, pcs) ((call_add (calls ! i) ad)\<lparr>t_inbox := ib\<rparr>, pcs(i := Returned lost))"
| fail: "i < length calls \<Longrightarrow> (\<forall>r. pcs i \<noteq> Returned r) \<Longrightarrow> tx_step calls (ad, pcs) (ad, pcs(i := Returned (Some err)))"

text \<open>
  The last rule is any statement that fails, a unique violation, a refused commit or a crash; in \<open>commit\<close>,
  \<open>lost\<close> is the error of a reply that never came.  Since the key of the inbox row belongs to the
  business row, \<open>Complete\<close> never has to wait.
\<close>

definition seq_ctx :: "consume_ctx \<Rightarrow> pg_ctx \<Rightarrow> pg_ctx \<Rightarrow> consume_ctx" where
  "seq_ctx a c c' = a\<lparr>a_begin := Delivered, a_stmt := (\<lambda>n. if n = 1 then c else c'), a_commit := Delivered\<rparr>"

lemma run_statement_fst:
  "fst (run_statement oc stmt s) = Inr n \<longleftrightarrow> oc = Delivered \<and> (\<exists>s'. stmt s = Inr (s', n))"
  by (cases oc; cases "stmt s") auto

lemma call_insert_ok: "call_insert k c ad = Inr n \<Longrightarrow> call_event k \<notin> set (call_rows k ad)"
  by (cases k) (auto simp: insert_confirmation_def confirmation_row_def credit_row_def confirmed_events_def credited_events_def
      list_ex_iff run_statement_fst sql_insert_Inr)

lemma call_add_simps [simp]:
  "call_rows k (call_add k ad) = call_rows k ad @ [call_event k]" "t_inbox (call_add k ad) = t_inbox ad"
  by (cases k; simp add: confirmed_events_def credited_events_def confirmation_row_def credit_row_def)+

lemma call_rows_add:
  "call_rows l (call_add k ad) = (if call_consumer l = call_consumer k then call_rows l ad @ [call_event k] else call_rows l ad)"
  by (cases k; cases l) (simp_all add: confirmed_events_def credited_events_def confirmation_row_def credit_row_def)

lemma call_rows_inbox [simp]: "call_rows k (ad\<lparr>t_inbox := ib\<rparr>) = call_rows k ad"
  by (cases k) (simp_all add: confirmed_events_def credited_events_def)

text \<open>A call that ran through is the whole handler at the moment of its commit.\<close>

lemma call_serial:
  assumes ins: "call_insert k c ad0 = Inr n" and comp: "fst (pgx_Complete c' (call_consumer k) (call_event k) ib0) = None"
    and new: "call_event k \<notin> set (call_rows k ad)" "(call_consumer k, call_event k) \<notin> completed_events (t_inbox ad)"
    and dec: "call_decodes un k"
  shows "call_handler un (seq_ctx a c c') k ad =
    (None, (call_add k ad)\<lparr>t_inbox := snd (pgx_Complete c' (call_consumer k) (call_event k) (t_inbox ad))\<rparr>)"
proof -
  obtain res ib where "pgx_Complete c' (call_consumer k) (call_event k) ib0 = (res, ib)" by fastforce
  with comp have c': "outcome c' = Delivered" "valid_text (call_consumer k)"
    by (auto elim: pgx_Complete_cases)
  obtain res1 ib1 where ib1: "pgx_Complete c' (call_consumer k) (call_event k) (t_inbox ad) = (res1, ib1)" by fastforce
  then have "res1 = None" by (cases rule: pgx_Complete_cases) (use c' in auto)
  moreover have "pgx_IsProcessed c' (call_consumer k) (call_event k) (t_inbox ad) = Inr False"
    using c' new(2) by (simp add: pgx_IsProcessed_def text_args_def list_ex_is_record)
  ultimately show ?thesis
    using ins new(1) dec ib1
    by (cases k) (auto simp: OrderConfirmedHandler_def UserRegisteredHandler_def order_confirmed_body_def user_registered_body_def
      seq_ctx_def transaction_def to_error_def insert_confirmation_def confirmation_row_def credit_row_def run_statement_fst
      confirmed_events_def credited_events_def list_ex_iff sql_insert_def text_args_def int4_args_def varchar_def split: if_splits)
qed

section \<open>Every run is a sequence of whole calls\<close>

definition serial :: "codec \<Rightarrow> tx_call list \<Rightarrow> (consume_ctx \<times> nat) list \<Rightarrow> app_db \<Rightarrow> app_db" where
  "serial un calls order ad = fold (\<lambda>(a, i) ad. snd (call_handler un a (calls ! i) ad)) order ad"

definition tx_inv :: "codec \<Rightarrow> tx_call list \<Rightarrow> app_db \<Rightarrow> app_db \<times> (nat \<Rightarrow> tx_pc) \<Rightarrow> bool" where
  "tx_inv un calls ad0 s \<longleftrightarrow>
     (case s of (ad, pcs) \<Rightarrow>
        consistent ad \<and> (\<exists>order. ad = serial un calls order ad0) \<and>
        (\<forall>i < length calls. holds_row (pcs i) \<longrightarrow> call_event (calls ! i) \<notin> set (call_rows (calls ! i) ad)) \<and>
        (\<forall>i < length calls. \<forall>j < length calls. i \<noteq> j \<longrightarrow> holds_row (pcs i) \<longrightarrow> holds_row (pcs j) \<longrightarrow> \<not> same_row (calls ! i) (calls ! j)) \<and>
        (\<forall>i < length calls. pcs i = Returned None \<longrightarrow> call_event (calls ! i) \<in> set (call_rows (calls ! i) ad)) \<and>
        (\<forall>i < length calls. \<forall>c. pcs i = Inserted c \<longrightarrow> (\<exists>d n. call_insert (calls ! i) c d = Inr n)) \<and>
        (\<forall>i < length calls. \<forall>c c'. pcs i = Completed c c' \<longrightarrow> (\<exists>d n. call_insert (calls ! i) c d = Inr n) \<and>
           (\<exists>ib. fst (pgx_Complete c' (call_consumer (calls ! i)) (call_event (calls ! i)) ib) = None)))"

lemma consistent_rows:
  "consistent ad \<Longrightarrow> (call_consumer k, call_event k) \<in> completed_events (t_inbox ad) \<Longrightarrow> call_event k \<in> set (call_rows k ad)"
  by (cases k) (auto simp: consistent_def)

lemma call_consistent: "consistent ad \<Longrightarrow> call_handler un a k ad = (err, ad') \<Longrightarrow> consistent ad'"
  by (cases k) (auto intro: OrderConfirmed_consistent UserRegistered_consistent)

lemma serial_snoc: "serial un calls (order @ [(a, i)]) ad = snd (call_handler un a (calls ! i) (serial un calls order ad))"
  by (simp add: serial_def)

lemma commit_inv:
  assumes dec: "\<forall>k \<in> set calls. call_decodes un k" and inv: "tx_inv un calls ad0 (ad, pcs)"
    and i: "i < length calls" "pcs i = Completed c c'"
  defines "k \<equiv> calls ! i"
  defines "ad' \<equiv> (call_add k ad)\<lparr>t_inbox := snd (pgx_Complete c' (call_consumer k) (call_event k) (t_inbox ad))\<rparr>"
  shows "tx_inv un calls ad0 (ad', pcs(i := Returned lost))"
proof -
  from inv i obtain d n ib where w: "call_insert k c d = Inr n" "fst (pgx_Complete c' (call_consumer k) (call_event k) ib) = None"
    and new: "call_event k \<notin> set (call_rows k ad)" and con: "consistent ad"
    and ser: "\<exists>order. ad = serial un calls order ad0"
    by (fastforce simp: tx_inv_def k_def)
  have "(call_consumer k, call_event k) \<notin> completed_events (t_inbox ad)" using consistent_rows[OF con] new by blast
  moreover have "call_decodes un k" using dec i by (simp add: k_def)
  ultimately have call: "call_handler un (seq_ctx undefined c c') k ad = (None, ad')"
    unfolding ad'_def by (rule call_serial[OF w new])
  from ser obtain order where "ad = serial un calls order ad0" ..
  with call have "\<exists>order. ad' = serial un calls order ad0"
    by (intro exI[of _ "order @ [(seq_ctx undefined c c', i)]"]) (simp add: serial_snoc k_def)
  moreover have "consistent ad'" by (rule call_consistent[OF con call])
  moreover have rows: "call_rows l ad' = (if call_consumer l = call_consumer k then call_rows l ad @ [call_event k] else call_rows l ad)" for l
    by (simp add: ad'_def call_rows_add)
  ultimately show ?thesis
    using inv i unfolding tx_inv_def by (auto simp: k_def)
qed

lemma tx_step_inv:
  assumes "tx_step calls s s'" "tx_inv un calls ad0 s" "\<forall>k \<in> set calls. call_decodes un k"
  shows "tx_inv un calls ad0 s'"
  using assms(1,2)
proof (induction rule: tx_step.induct)
  case (check i pcs c ad processed)
  then have "call_event (calls ! i) \<in> set (call_rows (calls ! i) ad)" if processed
    using that consistent_rows[of ad "calls ! i"] pgx_IsProcessed_ok[OF check(3)] by (simp add: tx_inv_def)
  with check.prems show ?case by (auto simp: tx_inv_def)
next
  case (insert_row i pcs c ad n)
  with call_insert_ok[OF insert_row(4)] show ?case unfolding tx_inv_def by (auto simp: eq_commute)
next
  case (complete i pcs c c' ad)
  then have "holds_row (pcs i)" by simp
  with complete show ?case unfolding tx_inv_def by auto
next
  case (commit i pcs c c' ib ad lost)
  then show ?case using commit_inv[OF assms(3)] by simp
next
  case (fail i pcs ad err)
  then show ?case unfolding tx_inv_def by auto
qed

text \<open>
  C7: overlapping handlers are exactly once and serialisable.  However the statements of any
  transactional handler calls interleave, redeliveries of the same event included, with failing statements,
  refused commits, lost replies and crashes, what is committed is what some of the calls give one
  after the other as a whole; each event has at most one business row, and a call that reported
  success has its row.
\<close>

theorem handlers_serialise:
  assumes "(tx_step calls)\<^sup>*\<^sup>* (ad, \<lambda>_. Begun) (ad', pcs)" "consistent ad" "\<forall>k \<in> set calls. call_decodes un k"
  shows "(\<exists>order. ad' = serial un calls order ad) \<and> distinct (confirmed_events ad') \<and> distinct (credited_events ad') \<and>
    (\<forall>i < length calls. pcs i = Returned None \<longrightarrow> call_event (calls ! i) \<in> set (call_rows (calls ! i) ad'))"
proof -
  have "tx_inv un calls ad (ad, \<lambda>_. Begun)"
    using assms(2) by (auto simp: tx_inv_def serial_def intro: exI[of _ "[]"])
  moreover have "tx_inv un calls ad s'" if "(tx_step calls)\<^sup>*\<^sup>* s s'" "tx_inv un calls ad s" for s s'
    using that by (induction rule: rtranclp_induct) (auto intro: tx_step_inv[OF _ _ assms(3)])
  ultimately have "tx_inv un calls ad (ad', pcs)" using assms(1) by blast
  then show ?thesis by (auto simp: tx_inv_def consistent_def)
qed

text \<open>The same message handled twice at once: both calls find no record, the second one meets the key of the first.\<close>

abbreviation sample_redelivered :: tx_call where
  "sample_redelivered \<equiv> ConfirmCall
     \<lparr>sq_MessageID = ''m1'', sq_ReceiptHandle = ''r1'', sq_Body = ''{}'', sq_EventType = ''order.confirmed'', sq_EventID = ''e1'',
      sq_IdempotencyKey = ''k'', sq_Metadata = None, sq_ReceiveCount = 1\<rparr>
     \<lparr>fe_OrderID = ''o1'', fe_UserID = ''u'', fe_ProductID = ''p'', fe_Quantity = 3\<rparr>"

lemma overlap_run:
  fixes c defines "c \<equiv> sample_ctx 0" and "k \<equiv> sample_redelivered"
  shows "(tx_step [k, k])\<^sup>*\<^sup>* (sample_shop, \<lambda>_. Begun)
    ((call_add k sample_shop)\<lparr>t_inbox := snd (pgx_Complete c ''order'' ''e1'' (t_inbox sample_shop))\<rparr>,
     (\<lambda>_. Begun)(1 := Returned (Some unique_violation), 0 := Returned None))"
proof -
  let ?st = "tx_step [k, k]"
  have free: "pgx_IsProcessed c ''order'' ''e1'' (t_inbox sample_shop) = Inr False" unfolding c_def by code_simp
  have ins: "call_insert k c sample_shop = Inr 1" unfolding c_def k_def by code_simp
  have comp: "fst (pgx_Complete c ''order'' ''e1'' (t_inbox sample_shop)) = None" unfolding c_def by code_simp
  have k: "call_consumer k = ''order''" "call_event k = ''e1''" by (simp_all add: k_def)
  have s1: "?st (sample_shop, \<lambda>_. Begun) (sample_shop, (\<lambda>_. Begun)(0 := Checked))"
    using tx_step.check[of 0 "[k, k]" "\<lambda>_. Begun" c sample_shop False] free k by simp
  have s2: "?st (sample_shop, (\<lambda>_. Begun)(0 := Checked)) (sample_shop, (\<lambda>_. Begun)(0 := Checked, 1 := Checked))"
    using tx_step.check[of 1 "[k, k]" "(\<lambda>_. Begun)(0 := Checked)" c sample_shop False] free k by simp
  have s3: "?st (sample_shop, (\<lambda>_. Begun)(0 := Checked, 1 := Checked)) (sample_shop, (\<lambda>_. Begun)(1 := Checked, 0 := Inserted c))"
    using tx_step.insert_row[of 0 "[k, k]" "(\<lambda>_. Begun)(0 := Checked, 1 := Checked)" c sample_shop 1] ins
    by (simp add: fun_upd_twist less_Suc_eq)
  have s4: "?st (sample_shop, (\<lambda>_. Begun)(1 := Checked, 0 := Inserted c)) (sample_shop, (\<lambda>_. Begun)(1 := Checked, 0 := Completed c c))"
    using tx_step.complete[of 0 "[k, k]" "(\<lambda>_. Begun)(1 := Checked, 0 := Inserted c)" c c sample_shop] comp k by simp
  have s5: "?st (sample_shop, (\<lambda>_. Begun)(1 := Checked, 0 := Completed c c))
      ((call_add k sample_shop)\<lparr>t_inbox := snd (pgx_Complete c ''order'' ''e1'' (t_inbox sample_shop))\<rparr>,
       (\<lambda>_. Begun)(1 := Checked, 0 := Returned None))"
    using tx_step.commit[of 0 "[k, k]" "(\<lambda>_. Begun)(1 := Checked, 0 := Completed c c)" c c _ sample_shop None] k by simp
  have s6: "?st (ad, (\<lambda>_. Begun)(1 := Checked, 0 := Returned None))
      (ad, (\<lambda>_. Begun)(1 := Returned (Some unique_violation), 0 := Returned None))" for ad
    using tx_step.fail[of 1 "[k, k]" "(\<lambda>_. Begun)(1 := Checked, 0 := Returned None)" ad unique_violation]
    by (simp add: fun_upd_twist)
  from s1 s2 s3 s4 s5 s6 show ?thesis by (meson converse_rtranclp_into_rtranclp rtranclp.rtrancl_refl)
qed

theorem handlers_serialise_witness:
  "\<exists>ad' pcs. (tx_step [sample_redelivered, sample_redelivered])\<^sup>*\<^sup>* (sample_shop, \<lambda>_. Begun) (ad', pcs) \<and> pcs 0 = Returned None \<and>
     pcs 1 = Returned (Some unique_violation) \<and> distinct (confirmed_events ad') \<and> ''e1'' \<in> set (confirmed_events ad')"
proof -
  have c: "consistent sample_shop"
    by (simp add: consistent_def sample_shop_def confirmed_events_def credited_events_def completed_events_def)
  have d: "\<forall>k \<in> set [sample_redelivered, sample_redelivered]. call_decodes sample_codec k" by (simp add: sample_codec_def)
  show ?thesis
    using handlers_serialise[OF overlap_run c d] overlap_run by (fastforce simp del: call_add.simps)
qed

end
