(* ===== verification/Schema.thy ===== *)
theory Schema
  imports Outbox_Model
begin

text \<open>
  \<open>src/schema/schema.go\<close> and \<open>src/cmd/o4x-schema\<close>: the SQL text that creates and drops the tables.  The
  templates are those of the code, line by line, filled by \<open>fmt.Sprintf\<close>.  They are compared with
  a structured description of the schema built from the model's own status labels, and the names it
  declares are examined under the length limit of PostgreSQL identifiers.
\<close>

section \<open>Filling a template\<close>

definition extra_args :: "string list \<Rightarrow> string" where
  "extra_args args =
     (case args of
        [] \<Rightarrow> []
      | a # as \<Rightarrow> ''%!(EXTRA string='' @ a @ concat (map (\<lambda>x. '', string='' @ x) as) @ '')'')"

text \<open>\<open>fmt.Sprintf\<close> with string arguments: the verb \<open>%s\<close>, and what it makes of misuses.\<close>

fun Sprintf :: "string \<Rightarrow> string list \<Rightarrow> string" where
  "Sprintf [] args = extra_args args"
| "Sprintf [c] args = (if c = CHR ''%'' then ''%!(NOVERB)'' else [c]) @ extra_args args"
| "Sprintf (c # v # fmt) args =
     (if c = CHR ''%'' then
        if v = CHR ''%'' then CHR ''%'' # Sprintf fmt args
        else
          (case args of
             [] \<Rightarrow> ''%!'' @ [v] @ ''(MISSING)'' @ Sprintf fmt []
           | a # as \<Rightarrow>
               (if v = CHR ''s'' then a else ''%!'' @ [v] @ ''(string='' @ a @ '')'') @ Sprintf fmt as)
      else c # Sprintf (v # fmt) args)"

definition text_lines :: "string list \<Rightarrow> string" where
  "text_lines ls = concat (map (\<lambda>l. l @ [CHR 0x0A]) ls)"

section \<open>The templates\<close>

definition outbox_type_lines :: "string list" where
  "outbox_type_lines =
     [''-- Outbox Schema for Publisher (Transactional Outbox Pattern)'',
      ''-- 5 states: ENQUEUED, PUBLISHING, PUBLISHED, FAILED, DEAD'',
      [],
      ''CREATE TYPE %s AS ENUM ('',
      ''  'ENQUEUED',    -- Application inserted into outbox'',
      ''  'PUBLISHING',  -- Dispatcher locked and publishing'',
      ''  'PUBLISHED',   -- Publish succeeded'',
      ''  'FAILED',      -- Publish failed (retryable)'',
      ''  'DEAD'         -- Retry limit exceeded'',
      '');'',
      []]"

definition outbox_table_lines :: "string list" where
  "outbox_table_lines =
     [''CREATE TABLE %s ('',
      ''  id               UUID PRIMARY KEY,'',
      ''  event_type       TEXT NOT NULL,'',
      ''  payload          JSONB NOT NULL,'',
      ''  metadata         JSONB,'',
      ''  idempotency_key  TEXT NOT NULL,'',
      ''  status           %s NOT NULL DEFAULT 'ENQUEUED','',
      ''  error_message    TEXT,'',
      ''  attempt_count    INT NOT NULL DEFAULT 1,'',
      ''  max_attempts     INT NOT NULL DEFAULT 10,'',
      ''  next_retry_at    TIMESTAMPTZ,'',
      ''  created_at       TIMESTAMPTZ NOT NULL DEFAULT clock_timestamp(),'',
      ''  updated_at       TIMESTAMPTZ NOT NULL DEFAULT clock_timestamp()'',
      '');'',
      []]"

definition outbox_comment_lines :: "string list" where
  "outbox_comment_lines =
     [''-- Column comments for outbox table'',
      ''COMMENT ON COLUMN %s.id IS 'Unique message identifier (UUID v7 for time-ordered)';'',
      ''COMMENT ON COLUMN %s.event_type IS 'Event type identifier for routing (e.g. order.created)';'',
      ''COMMENT ON COLUMN %s.payload IS 'Message payload as JSON';'',
      ''COMMENT ON COLUMN %s.metadata IS 'Optional metadata (trace context, custom headers, etc.)';'',
      ''COMMENT ON COLUMN %s.idempotency_key IS 'Unique key per event_type to prevent duplicate insertions';'',
      ''COMMENT ON COLUMN %s.status IS 'Current message state in the outbox pattern';'',
      ''COMMENT ON COLUMN %s.error_message IS 'Last error message (truncated to 4000 bytes, sanitized)';'',
      ''COMMENT ON COLUMN %s.attempt_count IS 'Current attempt number (1-based: 1 = first attempt, 10 = tenth attempt)';'',
      ''COMMENT ON COLUMN %s.max_attempts IS 'Maximum number of publish attempts before marking as DEAD';'',
      ''COMMENT ON COLUMN %s.next_retry_at IS 'Scheduled time for next retry attempt (with exponential backoff)';'',
      ''COMMENT ON COLUMN %s.created_at IS 'Timestamp when message was inserted into outbox';'',
      ''COMMENT ON COLUMN %s.updated_at IS 'Timestamp of last status change';'',
      []]"

definition outbox_index_lines :: "string list" where
  "outbox_index_lines =
     [''-- Index for efficient polling by dispatcher (general purpose, supports all statuses)'',
      ''CREATE INDEX idx_%s_status_created_at'',
      ''  ON %s (status, created_at);'',
      [],
      ''-- Partial index optimized for Dispatcher polling (ENQUEUED messages only)'',
      ''-- This minimal index covers only ENQUEUED rows, reducing index size and improving'',
      ''-- cache efficiency for high-throughput polling with SKIP LOCKED.'',
      ''-- The composite index above remains necessary for queries on other statuses (FAILED, DEAD)'',
      ''-- used by operational tools.'',
      ''CREATE INDEX idx_%s_enqueued_created_at'',
      ''  ON %s (created_at)'',
      ''  WHERE status = 'ENQUEUED';'',
      [],
      ''-- Index for efficient RequeueFailed with next_retry_at'',
      ''-- Note: This partial index covers the WHERE clause of RequeueFailed query:'',
      ''--   WHERE status = 'FAILED' AND next_retry_at IS NOT NULL AND next_retry_at <= now()'',
      ''-- The attempt_count column is not included to keep index size small, as most FAILED'',
      ''-- messages have attempt_count < max_attempts. If you have many FAILED messages near'',
      ''-- max_attempts, consider adding attempt_count to this index.'',
      ''CREATE INDEX idx_%s_status_next_retry_at'',
      ''  ON %s (status, next_retry_at)'',
      ''  WHERE status = 'FAILED' AND next_retry_at IS NOT NULL;'',
      [],
      ''-- Ensure idempotency per event_type'',
      ''ALTER TABLE %s'',
      ''  ADD CONSTRAINT uq_%s_event_type_idempotency'',
      ''    UNIQUE (event_type, idempotency_key);'']"

definition outbox_template :: "string list" where
  "outbox_template = outbox_type_lines @ outbox_table_lines @ outbox_comment_lines @ outbox_index_lines"

definition drop_outbox_template :: "string list" where
  "drop_outbox_template =
     [''DROP TABLE IF EXISTS %s;'',
      ''DROP TYPE IF EXISTS %s;'']"

definition inbox_template :: "string list" where
  "inbox_template =
     [''-- Consumer Inbox Schema (Transactional Inbox / Idempotency Store)'',
      ''-- Purpose: Track COMPLETED events only for exactly-once semantics'',
      ''-- Design: Composite PK (consumer_name, event_id) for atomic duplicate detection'',
      ''-- Philosophy: Inbox is NOT a broker - it only answers \"has this EVENT been completed?\"'',
      ''-- CRITICAL: event_id is Outbox ID (logical event identity), NOT SQS MessageID'',
      [],
      ''CREATE TABLE %s ('',
      ''  consumer_name    TEXT NOT NULL,'',
      ''  event_id         UUID NOT NULL,'',
      ''  completed_at     TIMESTAMPTZ NOT NULL DEFAULT clock_timestamp(),'',
      ''  PRIMARY KEY (consumer_name, event_id)'',
      '');'',
      [],
      ''-- Column comments for consumer_inbox table'',
      ''COMMENT ON COLUMN %s.consumer_name IS 'Logical consumer service identity (e.g., order-service, notification-service)';'',
      ''COMMENT ON COLUMN %s.event_id IS 'Outbox event ID (logical event identity). CRITICAL: NOT SQS MessageID. Same event = same event_id across all redeliveries.';'',
      ''COMMENT ON COLUMN %s.completed_at IS 'Timestamp when event processing was completed successfully';'',
      [],
      ''-- Index for cleanup queries (DELETE WHERE completed_at < ...)'',
      ''CREATE INDEX idx_%s_completed_at'',
      ''  ON %s (completed_at);'',
      [],
      ''-- Index for event_id lookups across consumers'',
      ''CREATE INDEX idx_%s_event_id'',
      ''  ON %s (event_id);'']"

definition drop_inbox_template :: "string list" where
  "drop_inbox_template =
     [''DROP TABLE IF EXISTS %s;'']"

definition OutboxDDL :: "string \<Rightarrow> string" where
  "OutboxDDL tableName =
     (let enumName = tableName @ ''_status''
      in Sprintf (text_lines outbox_template)
           ([enumName, tableName, enumName] @ replicate 12 tableName @ replicate 8 tableName))"

definition DropOutboxDDL :: "string \<Rightarrow> string" where
  "DropOutboxDDL tableName =
     (let enumName = tableName @ ''_status'' in Sprintf (text_lines drop_outbox_template) [tableName, enumName])"

definition ConsumerInboxDDL :: "string \<Rightarrow> string" where
  "ConsumerInboxDDL tableName = Sprintf (text_lines inbox_template) (replicate 8 tableName)"

definition DropConsumerInboxDDL :: "string \<Rightarrow> string" where
  "DropConsumerInboxDDL tableName = Sprintf (text_lines drop_inbox_template) [tableName]"

text \<open>The command: its flags, and the text it prints.\<close>

record schema_flags =
  outboxTable :: string
  inboxTable :: string
  withInbox :: bool
  rollback :: bool

definition default_flags :: schema_flags where
  "default_flags = \<lparr>outboxTable = ''outbox'', inboxTable = ''consumer_inbox'', withInbox = False, rollback = False\<rparr>"

definition schema_main :: "schema_flags \<Rightarrow> string" where
  "schema_main fl =
     (if rollback fl then
        DropOutboxDDL (outboxTable fl) @ (if withInbox fl then CHR 0x0A # DropConsumerInboxDDL (inboxTable fl) else [])
      else
        OutboxDDL (outboxTable fl) @ (if withInbox fl then CHR 0x0A # ConsumerInboxDDL (inboxTable fl) else []))"

section \<open>The schema as data\<close>

datatype schema_stmt =
    CreateType string "(string \<times> string) list"
  | CreateTable string "(string \<times> string) list" "string list"
  | ColumnComment string string string
  | CreateIndex string string "string list" "string option"
  | AddUnique string string "string list"
  | DropTable string
  | DropType string

definition pad :: "nat \<Rightarrow> string \<Rightarrow> string" where
  "pad n s = s @ replicate (n - length s) (CHR '' '')"

definition quoted :: "string \<Rightarrow> string" where
  "quoted s = CHR 0x27 # s @ [CHR 0x27]"

fun commas :: "string list \<Rightarrow> string" where
  "commas [] = []"
| "commas [s] = s"
| "commas (s # t # ss) = s @ '', '' @ commas (t # ss)"

fun comma_lines :: "string list \<Rightarrow> string list" where
  "comma_lines [] = []"
| "comma_lines [s] = [s]"
| "comma_lines (s # t # ss) = (s @ '','') # comma_lines (t # ss)"

fun label_lines :: "(string \<times> string) list \<Rightarrow> string list" where
  "label_lines [] = []"
| "label_lines [(l, r)] = [''  '' @ pad 15 (quoted l) @ ''-- '' @ r]"
| "label_lines ((l, r) # x # ls) = (''  '' @ pad 15 (quoted l @ '','') @ ''-- '' @ r) # label_lines (x # ls)"

fun stmt_lines :: "schema_stmt \<Rightarrow> string list" where
  "stmt_lines (CreateType n labels) = (''CREATE TYPE '' @ n @ '' AS ENUM ('') # label_lines labels @ ['');'']"
| "stmt_lines (CreateTable n cols keys) =
     (''CREATE TABLE '' @ n @ '' ('') # comma_lines (map (\<lambda>(c, ty). ''  '' @ pad 17 c @ ty) cols @ map (\<lambda>k. ''  '' @ k) keys) @ ['');'']"
| "stmt_lines (ColumnComment t c x) = [''COMMENT ON COLUMN '' @ t @ ''.'' @ c @ '' IS '' @ quoted x @ '';'']"
| "stmt_lines (CreateIndex n t cols w) =
     (case w of
        None \<Rightarrow> [''CREATE INDEX '' @ n, ''  ON '' @ t @ '' ('' @ commas cols @ '');'']
      | Some w \<Rightarrow> [''CREATE INDEX '' @ n, ''  ON '' @ t @ '' ('' @ commas cols @ '')'', ''  WHERE '' @ w @ '';''])"
| "stmt_lines (AddUnique t n cols) =
     [''ALTER TABLE '' @ t, ''  ADD CONSTRAINT '' @ n, ''    UNIQUE ('' @ commas cols @ '');'']"
| "stmt_lines (DropTable t) = [''DROP TABLE IF EXISTS '' @ t @ '';'']"
| "stmt_lines (DropType t) = [''DROP TYPE IF EXISTS '' @ t @ '';'']"

text \<open>The labels of the model's statuses (\<open>core/model.go\<close>).\<close>

fun status_label :: "OutboxStatus \<Rightarrow> string" where
  "status_label OutboxStatusEnqueued = ''ENQUEUED''"
| "status_label OutboxStatusPublishing = ''PUBLISHING''"
| "status_label OutboxStatusPublished = ''PUBLISHED''"
| "status_label OutboxStatusFailed = ''FAILED''"
| "status_label OutboxStatusDead = ''DEAD''"

definition enum_name :: "string \<Rightarrow> string" where
  "enum_name t = t @ ''_status''"

definition outbox_type :: "string \<Rightarrow> schema_stmt" where
  "outbox_type t =
     CreateType (enum_name t)
        [(status_label OutboxStatusEnqueued, ''Application inserted into outbox''),
         (status_label OutboxStatusPublishing, ''Dispatcher locked and publishing''),
         (status_label OutboxStatusPublished, ''Publish succeeded''),
         (status_label OutboxStatusFailed, ''Publish failed (retryable)''),
         (status_label OutboxStatusDead, ''Retry limit exceeded'')]"

definition outbox_table :: "string \<Rightarrow> schema_stmt" where
  "outbox_table t =
     CreateTable t
       [(''id'', ''UUID PRIMARY KEY''), (''event_type'', ''TEXT NOT NULL''), (''payload'', ''JSONB NOT NULL''),
        (''metadata'', ''JSONB''), (''idempotency_key'', ''TEXT NOT NULL''),
        (''status'', enum_name t @ '' NOT NULL DEFAULT '' @ quoted (status_label OutboxStatusEnqueued)),
        (''error_message'', ''TEXT''), (''attempt_count'', ''INT NOT NULL DEFAULT 1''),
        (''max_attempts'', ''INT NOT NULL DEFAULT 10''), (''next_retry_at'', ''TIMESTAMPTZ''),
        (''created_at'', ''TIMESTAMPTZ NOT NULL DEFAULT clock_timestamp()''),
        (''updated_at'', ''TIMESTAMPTZ NOT NULL DEFAULT clock_timestamp()'')] []"

definition outbox_comments :: "string \<Rightarrow> schema_stmt list" where
  "outbox_comments t =
     [ColumnComment t ''id'' ''Unique message identifier (UUID v7 for time-ordered)'',
      ColumnComment t ''event_type'' ''Event type identifier for routing (e.g. order.created)'',
      ColumnComment t ''payload'' ''Message payload as JSON'',
      ColumnComment t ''metadata'' ''Optional metadata (trace context, custom headers, etc.)'',
      ColumnComment t ''idempotency_key'' ''Unique key per event_type to prevent duplicate insertions'',
      ColumnComment t ''status'' ''Current message state in the outbox pattern'',
      ColumnComment t ''error_message'' ''Last error message (truncated to 4000 bytes, sanitized)'',
      ColumnComment t ''attempt_count'' ''Current attempt number (1-based: 1 = first attempt, 10 = tenth attempt)'',
      ColumnComment t ''max_attempts'' ''Maximum number of publish attempts before marking as DEAD'',
      ColumnComment t ''next_retry_at'' ''Scheduled time for next retry attempt (with exponential backoff)'',
      ColumnComment t ''created_at'' ''Timestamp when message was inserted into outbox'',
      ColumnComment t ''updated_at'' ''Timestamp of last status change'']"

definition outbox_indexes :: "string \<Rightarrow> schema_stmt list" where
  "outbox_indexes t =
     [CreateIndex (''idx_'' @ t @ ''_status_created_at'') t [''status'', ''created_at''] None,
      CreateIndex (''idx_'' @ t @ ''_enqueued_created_at'') t [''created_at'']
        (Some (''status = '' @ quoted (status_label OutboxStatusEnqueued))),
      CreateIndex (''idx_'' @ t @ ''_status_next_retry_at'') t [''status'', ''next_retry_at'']
        (Some (''status = '' @ quoted (status_label OutboxStatusFailed) @ '' AND next_retry_at IS NOT NULL'')),
      AddUnique t (''uq_'' @ t @ ''_event_type_idempotency'') [''event_type'', ''idempotency_key'']]"

definition outbox_schema :: "string \<Rightarrow> schema_stmt list" where
  "outbox_schema t = outbox_type t # outbox_table t # outbox_comments t @ outbox_indexes t"

definition inbox_schema :: "string \<Rightarrow> schema_stmt list" where
  "inbox_schema t =
     [CreateTable t
        [(''consumer_name'', ''TEXT NOT NULL''), (''event_id'', ''UUID NOT NULL''),
         (''completed_at'', ''TIMESTAMPTZ NOT NULL DEFAULT clock_timestamp()'')] [''PRIMARY KEY (consumer_name, event_id)''],
      ColumnComment t ''consumer_name'' ''Logical consumer service identity (e.g., order-service, notification-service)'',
      ColumnComment t ''event_id'' ''Outbox event ID (logical event identity). CRITICAL: NOT SQS MessageID. Same event = same event_id across all redeliveries.'',
      ColumnComment t ''completed_at'' ''Timestamp when event processing was completed successfully'',
      CreateIndex (''idx_'' @ t @ ''_completed_at'') t [''completed_at''] None,
      CreateIndex (''idx_'' @ t @ ''_event_id'') t [''event_id''] None]"

section \<open>Filling line by line\<close>

fun verbs :: "string \<Rightarrow> nat" where
  "verbs (c # v # l) = (if c = CHR ''%'' then Suc (verbs l) else verbs (v # l))"
| "verbs l = 0"

fun only_s :: "string \<Rightarrow> bool" where
  "only_s (c # v # l) = (if c = CHR ''%'' then v = CHR ''s'' \<and> only_s l else only_s (v # l))"
| "only_s [c] = (c \<noteq> CHR ''%'')"
| "only_s [] = True"

fun fill_lines :: "string list \<Rightarrow> string list \<Rightarrow> string list" where
  "fill_lines [] args = []"
| "fill_lines (l # ls) args = Sprintf l (take (verbs l) args) # fill_lines ls (drop (verbs l) args)"

lemma Sprintf_Cons: "c \<noteq> CHR ''%'' \<Longrightarrow> Sprintf (c # l) args = c # Sprintf l args"
  by (cases l) auto

lemma extra_none [simp]: "extra_args [] = []"
  by (simp add: extra_args_def)

lemma Sprintf_append:
  "only_s l \<Longrightarrow> verbs l \<le> length args \<Longrightarrow>
   Sprintf (l @ m) args = Sprintf l (take (verbs l) args) @ Sprintf m (drop (verbs l) args)"
proof (induction l arbitrary: args rule: only_s.induct)
  case (1 c v l)
  show ?case
  proof (cases "c = CHR ''%''")
    case True
    with 1(4) obtain a as where "args = a # as" by (cases args) auto
    with 1 True show ?thesis by simp
  next
    case False
    with 1 show ?thesis by (simp add: Sprintf_Cons del: Sprintf.simps)
  qed
qed (auto simp: Sprintf_Cons)

lemma Sprintf_lines:
  "list_all only_s ls \<Longrightarrow> sum_list (map verbs ls) = length args \<Longrightarrow>
   Sprintf (text_lines ls) args = text_lines (fill_lines ls args)"
proof (induction ls arbitrary: args)
  case Nil
  then show ?case by (simp add: text_lines_def)
next
  case (Cons l ls)
  have "Sprintf (l @ CHR 0x0A # text_lines ls) args =
      Sprintf l (take (verbs l) args) @ CHR 0x0A # Sprintf (text_lines ls) (drop (verbs l) args)"
    using Cons.prems by (simp add: Sprintf_append Sprintf_Cons)
  with Cons show ?case by (simp add: text_lines_def)
qed

section \<open>The text is the schema\<close>

text \<open>Lines that carry no statement.\<close>

definition remark :: "string \<Rightarrow> bool" where
  "remark l \<longleftrightarrow> l = [] \<or> take 2 l = ''--''"

definition statements :: "string \<Rightarrow> schema_stmt list \<Rightarrow> bool" where
  "statements ddl stmts \<longleftrightarrow>
     (\<exists>ls. ddl = text_lines ls \<and> filter (\<lambda>l. \<not> remark l) ls = concat (map stmt_lines stmts))"

lemma templates_ok:
  "list_all only_s outbox_type_lines" "list_all only_s outbox_table_lines" "list_all only_s outbox_comment_lines"
  "list_all only_s outbox_index_lines" "list_all only_s inbox_template"
  by code_simp+

lemma template_verbs:
  "sum_list (map verbs outbox_type_lines) = 1" "sum_list (map verbs outbox_table_lines) = 2"
  "sum_list (map verbs outbox_comment_lines) = 12" "sum_list (map verbs outbox_index_lines) = 8"
  "sum_list (map verbs inbox_template) = 8"
  by code_simp+

lemma fill_lines_append:
  "fill_lines (ls @ ms) args =
     fill_lines ls (take (sum_list (map verbs ls)) args) @ fill_lines ms (drop (sum_list (map verbs ls)) args)"
  by (induction ls arbitrary: args) (simp_all add: min_def add.commute drop_take)

lemmas schema_simps = remark_def enum_name_def pad_def quoted_def numeral_eq_Suc

lemma type_lines:
  "filter (\<lambda>l. \<not> remark l) (fill_lines outbox_type_lines [t @ ''_status'']) = stmt_lines (outbox_type t)"
  by (simp add: outbox_type_lines_def outbox_type_def schema_simps)

lemma table_lines:
  "filter (\<lambda>l. \<not> remark l) (fill_lines outbox_table_lines [t, t @ ''_status'']) = stmt_lines (outbox_table t)"
  by (simp add: outbox_table_lines_def outbox_table_def schema_simps)

lemma comment_lines:
  "filter (\<lambda>l. \<not> remark l) (fill_lines outbox_comment_lines (replicate 12 t)) = concat (map stmt_lines (outbox_comments t))"
  by (simp add: outbox_comment_lines_def outbox_comments_def schema_simps)

lemma index_lines:
  "filter (\<lambda>l. \<not> remark l) (fill_lines outbox_index_lines (replicate 8 t)) = concat (map stmt_lines (outbox_indexes t))"
  by (simp add: outbox_index_lines_def outbox_indexes_def schema_simps)

lemma inbox_lines:
  "filter (\<lambda>l. \<not> remark l) (fill_lines inbox_template (replicate 8 t)) = concat (map stmt_lines (inbox_schema t))"
  by (simp add: inbox_template_def inbox_schema_def schema_simps)

lemma outbox_statements: "statements (OutboxDDL t) (outbox_schema t)"
proof -
  let ?args = "[t @ ''_status'', t, t @ ''_status''] @ replicate 12 t @ replicate 8 t"
  have "OutboxDDL t = text_lines (fill_lines outbox_template ?args)"
    by (simp add: OutboxDDL_def Let_def outbox_template_def Sprintf_lines templates_ok template_verbs)
  moreover have "fill_lines outbox_template ?args =
      fill_lines outbox_type_lines [t @ ''_status''] @ fill_lines outbox_table_lines [t, t @ ''_status''] @
      fill_lines outbox_comment_lines (replicate 12 t) @ fill_lines outbox_index_lines (replicate 8 t)"
    by (simp add: outbox_template_def fill_lines_append template_verbs)
  ultimately show ?thesis
    unfolding statements_def by (auto simp: type_lines table_lines comment_lines index_lines outbox_schema_def)
qed

text \<open>
  C35: the generated SQL is the schema.  For every table name the text of \<open>OutboxDDL\<close> and
  \<open>ConsumerInboxDDL\<close>, remarks and empty lines apart, is the list of statements that declares the status type
  with the labels of the model, the tables, the column comments, the three indexes and the unique key,
  with each of the names where it belongs and no argument missing or left over; the
  rollback drops the table before the type it uses, and both are the ones that were created.
\<close>

theorem ddl_is_schema:
  "statements (OutboxDDL t) (outbox_schema t) \<and> statements (ConsumerInboxDDL t) (inbox_schema t) \<and>
   statements (DropOutboxDDL t) [DropTable t, DropType (enum_name t)] \<and> statements (DropConsumerInboxDDL t) [DropTable t]"
proof -
  have "ConsumerInboxDDL t = text_lines (fill_lines inbox_template (replicate 8 t))"
    by (simp add: ConsumerInboxDDL_def Sprintf_lines templates_ok template_verbs)
  then have "statements (ConsumerInboxDDL t) (inbox_schema t)"
    unfolding statements_def using inbox_lines[of t] by blast
  moreover have "DropOutboxDDL t = text_lines (fill_lines drop_outbox_template [t, t @ ''_status''])"
    unfolding DropOutboxDDL_def Let_def by (rule Sprintf_lines) (simp_all add: drop_outbox_template_def)
  then have "statements (DropOutboxDDL t) [DropTable t, DropType (enum_name t)]"
    unfolding statements_def by (intro exI conjI) (assumption, simp add: drop_outbox_template_def schema_simps)
  moreover have "DropConsumerInboxDDL t = text_lines (fill_lines drop_inbox_template [t])"
    unfolding DropConsumerInboxDDL_def by (rule Sprintf_lines) (simp_all add: drop_inbox_template_def)
  then have "statements (DropConsumerInboxDDL t) [DropTable t]"
    unfolding statements_def by (intro exI conjI) (assumption, simp add: drop_inbox_template_def schema_simps)
  ultimately show ?thesis using outbox_statements by blast
qed

section \<open>Names in PostgreSQL\<close>

text \<open>Identifiers are cut to 63 bytes.  Tables, indexes and the index of a unique key share one name space.\<close>

definition pg_name :: "string \<Rightarrow> string" where
  "pg_name s = take 63 s"

fun relation_names :: "schema_stmt \<Rightarrow> string list" where
  "relation_names (CreateTable t cols keys) = [t]"
| "relation_names (CreateIndex n t cols w) = [n]"
| "relation_names (AddUnique t n cols) = [n]"
| "relation_names stmt = []"

lemma outbox_relations:
  "concat (map relation_names (outbox_schema t)) =
     [t, ''idx_'' @ t @ ''_status_created_at'', ''idx_'' @ t @ ''_enqueued_created_at'', ''idx_'' @ t @ ''_status_next_retry_at'',
      ''uq_'' @ t @ ''_event_type_idempotency'']"
  by (simp add: outbox_schema_def outbox_type_def outbox_table_def outbox_comments_def outbox_indexes_def)

lemma cut_eq:
  assumes "take n (xs @ a # ys) = take n (xs @ b # zs)" "a \<noteq> b"
  shows "n \<le> length xs"
proof (rule ccontr)
  assume "\<not> n \<le> length xs"
  then have "take n (xs @ a # ys) ! length xs = a" "take n (xs @ b # zs) ! length xs = b"
    by (simp_all del: take_append)
  with assms show False by metis
qed

lemma outbox_names_distinct:
  "distinct (map pg_name (concat (map relation_names (outbox_schema t)))) \<longleftrightarrow> length t \<le> 50"
proof
  let ?n1 = "''idx_'' @ t @ ''_status_created_at''" and ?n2 = "''idx_'' @ t @ ''_enqueued_created_at''"
    and ?n3 = "''idx_'' @ t @ ''_status_next_retry_at''" and ?u = "''uq_'' @ t @ ''_event_type_idempotency''"
  {
    assume d: "distinct (map pg_name (concat (map relation_names (outbox_schema t))))"
    show "length t \<le> 50"
    proof (rule ccontr)
      assume "\<not> length t \<le> 50"
      then have "pg_name ?n1 = pg_name ?n3" by (simp add: pg_name_def take_Cons')
      with d show False by (simp add: outbox_relations)
    qed
  next
    assume l: "length t \<le> 50"
    have "pg_name ?n1 \<noteq> pg_name ?n3"
      using cut_eq[of 63 "''idx_'' @ t @ ''_status_''" "CHR ''c''" "''reated_at''" "CHR ''n''" "''ext_retry_at''"] l
      by (auto simp: pg_name_def)
    moreover have "pg_name ?n1 \<noteq> pg_name ?n2"
      using cut_eq[of 63 "''idx_'' @ t @ ''_''" "CHR ''s''" "''tatus_created_at''" "CHR ''e''" "''nqueued_created_at''"] l
      by (auto simp: pg_name_def)
    moreover have "pg_name ?n2 \<noteq> pg_name ?n3"
      using cut_eq[of 63 "''idx_'' @ t @ ''_''" "CHR ''e''" "''nqueued_created_at''" "CHR ''s''" "''tatus_next_retry_at''"] l
      by (auto simp: pg_name_def)
    moreover have "pg_name t \<noteq> pg_name x" if "length t < length x" for x
      using l that by (auto simp: pg_name_def dest: arg_cong[of _ _ length])
    moreover have "pg_name (CHR ''i'' # x) \<noteq> pg_name (CHR ''u'' # y)" for x y by (simp add: pg_name_def)
    ultimately show "distinct (map pg_name (concat (map relation_names (outbox_schema t))))"
      by (simp add: outbox_relations)
  }
qed

text \<open>
  C37: the names of the table, the indexes and the unique key that the text of \<open>OutboxDDL\<close> creates stay
  distinct in PostgreSQL exactly for table names of up to 50 characters.  With a longer name, which
  \<open>ValidateTableName\<close> accepts, PostgreSQL cuts the names of two of the indexes to the same identifier and the migration fails.
\<close>

theorem index_names_collide:
  "\<exists>stmts. statements (OutboxDDL t) stmts \<and>
     (distinct (map pg_name (concat (map relation_names stmts))) \<longleftrightarrow> length t \<le> 50)"
  using outbox_statements outbox_names_distinct by blast

text \<open>A name with a schema in front gives index names with a dot, which are no identifiers.\<close>

lemma dotted_index_name: "CHR ''.'' \<in> set t \<Longrightarrow> \<not> ident (''idx_'' @ t @ ''_status_created_at'')"
proof -
  have "\<not> is_word_char (CHR ''.'')" by code_simp
  then show "CHR ''.'' \<in> set t \<Longrightarrow> \<not> ident (''idx_'' @ t @ ''_status_created_at'')"
    by (auto simp: ident_def list_all_iff)
qed

end
