(* ===== verification/Spec2Isabelle.thy ===== *)
theory Spec2Isabelle
  imports Progress App_Commands App_Overlap Schema
begin

text \<open>
  \<^bold>\<open>o4x, a transactional outbox for Go\<close>

  An application writes an event into the outbox table in the transaction of its business
  change; dispatchers take rows of the table, publish them to SQS and record the outcome;
  consumers receive the messages, run handlers that remember completed events in an inbox table,
  and delete the messages.  This development models the library (\<open>src/core\<close>, \<open>src/contrib\<close>),
  the schema generator (\<open>src/schema\<close>, \<open>src/cmd/o4x-schema\<close>) and the example application that uses all
  of it (\<open>src/examples/app\<close>), one theory per component.

  \<^bold>\<open>Foundations\<close>
  \<^item> \<open>O4x_Prelude\<close>: Go integers with wrap-around, nilable slices, shared list facts.
  \<^item> \<open>Go_Regexp\<close>, \<open>Go_Errors\<close> (\<open>core/errors.go\<close>): regular expressions, UTF-8, error values with
    their unwrap chains, \<open>IsRetryable\<close>, redaction and truncation of stored error texts.
  \<^item> \<open>Outbox_Model\<close> (\<open>core/model.go\<close>): rows, attempt counting, back-off, table names.
  \<^item> \<open>Sql_Table\<close>: \<open>UPDATE\<close>, \<open>DELETE\<close> and the connection.  A table is a list of rows.  A \<open>pg_ctx\<close> is
    a parameter of every call: whether it is delivered, refused, or executed with the reply
    lost, and what the clock, \<open>random()\<close>, row locks and \<open>RETURNING\<close> answer; \<open>wf_ctx\<close> names what the
    code relies on.

  \<^bold>\<open>The outbox\<close>
  \<^item> \<open>Outbox_Repository\<close> (\<open>core/repository.go\<close>): the interfaces, the life cycle \<open>row_step\<close> of a row
    and the contract \<open>outbox_repository\<close> (a locale) the dispatchers rely on.
  \<^item> \<open>Pgx_Repo\<close>, \<open>Pgx_Correct\<close> (\<open>contrib/pgx/repo.go\<close>, \<open>config.go\<close>): every query and operation;
    functional correctness of each, crash recovery, the back-off within its bounds, and the life cycle
    under any interleaving (\<open>db_step\<close>).  The interpretation \<open>pgx\<close> shows the contract.
  \<^item> \<open>Gorm_Repo\<close> (\<open>contrib/gorm\<close>): the same operations through GORM, equal to pgx except for \<open>Insert\<close>.
  \<^item> \<open>Schema\<close> (\<open>schema/schema.go\<close>, \<open>cmd/o4x-schema\<close>): the templates and \<open>fmt.Sprintf\<close>; the generated text
    is the abstract list of statements of the schema, and for which table names its names stay apart.

  \<^bold>\<open>Dispatching\<close>
  \<^item> \<open>Hooks\<close>, \<open>Publisher\<close>, \<open>Dispatch_Safety\<close> (\<open>core/hooks.go\<close>, \<open>core/publisher.go\<close>): hooks that may
    panic, the publisher interfaces, and rely-guarantee conditions for processes on one table.
  \<^item> \<open>Worker\<close>, \<open>Batch_Dispatcher\<close>, \<open>Dispatcher\<close> (\<open>core/worker.go\<close>, \<open>batch_dispatcher.go\<close>,
    \<open>dispatcher.go\<close>, \<open>health.go\<close>, \<open>shutdown.go\<close>, \<open>clock.go\<close>): an iteration, a batch, the polling loops,
    configuration, start, stop and health.  A loop runs over a finite schedule of its turns (what the
    outside answers in each), so a statement about all schedules is one about the endless loop.
  \<^item> \<open>Queue_Router\<close>, \<open>Sqs_Publisher\<close>, \<open>Sqs_Correct\<close> (\<open>contrib/sqs/publisher.go\<close>): routing by event
    type, the four publishers, and what they promise of any client that meets \<open>sqs_client\<close>.
  \<^item> \<open>System\<close>: the dispatchers on the pgx and GORM repositories with the SQS publishers.
  \<^item> \<open>Interleaving\<close>: a small-step system of writers, workers, batch workers, requeue and recovery
    jobs with crashes; \<open>processOne\<close> and \<open>processBatch\<close> refine it; at-least-once delivery and
    mutual exclusion.
  \<^item> \<open>Progress\<close>: liveness.  Every step of a row lowers its weight, so in a fair run every message
    becomes PUBLISHED or DEAD; and the interleaving in which a late failure strands a row.

  \<^bold>\<open>Consuming\<close>
  \<^item> \<open>Inbox\<close> (\<open>core/inbox_repository.go\<close>, \<open>contrib/pgx/inbox_repo.go\<close>, \<open>contrib/gorm/inbox_repo.go\<close>):
    the inbox as a set of completed events, a locale met by both implementations.
  \<^item> \<open>Consumer\<close>, \<open>Consumer_Correct\<close> (\<open>contrib/sqs/consumer\<close>): parsing, routers, hooks, the service;
    no message is lost, poison messages end, FIFO order; contracts of the queue and of handlers as locales.

  \<^bold>\<open>The example application\<close>
  \<^item> \<open>App_Database\<close>, \<open>App_Services\<close>, \<open>App_Stock\<close> (\<open>internal/domain\<close>, \<open>repository\<close>, \<open>service\<close>): tables with
    their constraints, services as transactions; change and event commit together and the stock adds up.
  \<^item> \<open>App_Handlers\<close>, \<open>App_Overlap\<close> (\<open>internal/consumer\<close>): the handlers and exactly-once effects, for
    whole calls and for transactions that overlap statement by statement, which are serialisable.
  \<^item> \<open>Go_Http\<close>, \<open>App_Api\<close> (\<open>internal/handler\<close>, \<open>cmd/api\<close>): requests, the multiplexer and the endpoints; an
    answer tells whether the change and its event were committed.
  \<^item> \<open>App_Metrics\<close> (\<open>internal/instrumentation\<close>): the metrics collector with its atomic steps, exact under
    any interleaving, and wrappers that keep the contracts of the repository and the publisher.
  \<^item> \<open>App_Commands\<close> (\<open>cmd/dispatcher\<close>, \<open>cmd/dispatcher-bench\<close>, \<open>cmd/consumer\<close>): flags, environment, start,
    probes and stop; the processes meet the assumptions of the theorems above, and events of the API
    are routed to a consumer group that handles them.
  \<^item> \<open>App_Benchmark\<close> (\<open>benchmark\<close>): the load generator, its worker pool, statistics and reports.

  \<^bold>\<open>Parameters.\<close>  PostgreSQL, the connection, the SQS client, \<open>uuid\<close> and \<open>encoding/json\<close> are arguments of
  the definitions; what the code relies on is a locale or a named predicate, with a concrete instance
  for each (\<open>sample_ctx\<close>, \<open>service_client\<close>, \<open>memory_client\<close>).  Goroutines are steps
  of arbitrary interleavings (\<open>meanwhile\<close>, \<open>interfere\<close>, \<open>sys_step\<close>, \<open>record_step\<close>); a handler call is one
  step in \<open>App_Handlers\<close> and one step per statement in \<open>App_Overlap\<close>.

  \<^bold>\<open>Bounds.\<close>  No definition needs fuel: loops that never end in the code run over finite schedules of any
  length, \<open>Progress\<close> uses infinite ones, and every other recursion has a termination proof.

  \<^bold>\<open>Not modelled.\<close>  Log lines other than those of the metrics and tracing have no effect on the
  state.  Listening sockets, signals, flag parsing, usage texts and the construction of the AWS client and the
  connection pool are calls into packages outside of the repository; their outcome is a parameter
  (\<open>outside\<close>).  \<open>WithTx\<close> only selects the connection, and a transaction is the set of its
  statements.  \<open>RealClock\<close> reads the system clock, a parameter of every call.
\<close>

end
